(* ===== verification/Prelude.thy ===== *)
theory Prelude
  imports Main "HOL-Library.Word"
begin

text \<open>
  The shared vocabulary of the development: machine integers of the Rust sources, the result type
  of fallible operations, the iteration order of hash containers, saturating arithmetic, and the
  generic list and map lemmas that the component theories rely on.
\<close>

section \<open>Machine integers\<close>

type_synonym u8 = "8 word"
type_synonym u16 = "16 word"
type_synonym u32 = "32 word"
type_synonym u64 = "64 word"

type_synonym bytes = "u8 list"

text \<open>
  The collections of rules that the component theories extend: \<open>keeps_intros\<close> for operations that keep
  a predicate on their state, \<open>sends_intros\<close> for operations that only send requests of a given kind.
\<close>

named_theorems keeps_intros
named_theorems sends_intros

text \<open>The saturating operations of the Rust standard library on unsigned integers.\<close>

definition saturating_add :: "'a::len word \<Rightarrow> 'a word \<Rightarrow> 'a word" where
  "saturating_add a b = (if unat a + unat b < 2 ^ LENGTH('a) then a + b else - 1)"

definition saturating_sub :: "'a::len word \<Rightarrow> 'a word \<Rightarrow> 'a word" where
  "saturating_sub a b = (if b \<le> a then a - b else 0)"

lemma unat_saturating_add:
  "unat (saturating_add a (b :: 'a::len word)) = min (unat a + unat b) (2 ^ LENGTH('a) - 1)"
proof (cases "unat a + unat b < 2 ^ LENGTH('a)")
  case True
  then show ?thesis
    by (simp add: saturating_add_def unat_word_ariths)
next
  case False
  then show ?thesis
    by (simp add: saturating_add_def unsigned_minus_1_eq_mask mask_eq_exp_minus_1)
qed

lemma unat_saturating_sub: "unat (saturating_sub a b) = unat a - unat b"
  by (auto simp: saturating_sub_def unat_sub word_le_nat_alt)

lemma unat_of_nat_small: "n < 2 ^ LENGTH('a) \<Longrightarrow> unat (of_nat n :: 'a::len word) = n"
  by (simp add: unsigned_of_nat take_bit_nat_eq_self)

text \<open>Addition on \<open>i64\<close>, which wraps around in release builds.\<close>

definition wrap_i64 :: "int \<Rightarrow> int" where
  "wrap_i64 n = sint (word_of_int n :: 64 word)"

definition i64_range :: "int \<Rightarrow> bool" where
  "i64_range n \<longleftrightarrow> - (2 ^ 63) \<le> n \<and> n < 2 ^ 63"

lemma wrap_i64_id [simp]: "i64_range n \<Longrightarrow> wrap_i64 n = n"
  by (simp add: wrap_i64_def i64_range_def signed_of_int signed_take_bit_int_eq_self)

lemma wrap_i64_range [simp]: "i64_range (wrap_i64 n)"
  using sint_ge [of "word_of_int n :: 64 word"] sint_lt [of "word_of_int n :: 64 word"]
  by (simp add: wrap_i64_def i64_range_def)

section \<open>Fallible operations\<close>

text \<open>
  A Rust \<open>Result<T, E>\<close> is the sum \<open>'e + 'a\<close>, with \<^term>\<open>Inl\<close> the error. The question mark operator
  is \<open>bind_result\<close>; collecting an iterator of results into a result of a vector stops at the
  first error.
\<close>

type_synonym ('e, 'a) result = "'e + 'a"

definition bind_result :: "('e, 'a) result \<Rightarrow> ('a \<Rightarrow> ('e, 'b) result) \<Rightarrow> ('e, 'b) result" where
  "bind_result r f = (case r of Inl e \<Rightarrow> Inl e | Inr a \<Rightarrow> f a)"

lemma bind_result_simps [simp]:
  "bind_result (Inl e) f = Inl e"
  "bind_result (Inr a) f = f a"
  by (simp_all add: bind_result_def)

lemma bind_result_Inr_iff [simp]:
  "bind_result r f = Inr b \<longleftrightarrow> (\<exists>a. r = Inr a \<and> f a = Inr b)"
  by (cases r) simp_all

fun collect_results :: "('a \<Rightarrow> ('e, 'b) result) \<Rightarrow> 'a list \<Rightarrow> ('e, 'b list) result" where
  "collect_results f [] = Inr []"
| "collect_results f (x # xs) =
     bind_result (f x) (\<lambda>y. bind_result (collect_results f xs) (\<lambda>ys. Inr (y # ys)))"

lemma collect_results_Inr_iff:
  "collect_results f xs = Inr ys \<longleftrightarrow> list_all2 (\<lambda>x y. f x = Inr y) xs ys"
  by (induction xs arbitrary: ys) (auto simp: list_all2_Cons1)

text \<open>
  A method with \<open>&mut self\<close> that returns a \<open>Result\<close> keeps the changes it made before an error. The
  question mark on such a call is \<open>bind_op\<close>; a loop over calls with question marks is \<open>each_op\<close>.
\<close>

type_synonym ('s, 'e, 'a) op = "'s \<Rightarrow> ('e, 'a) result \<times> 's"

definition bind_op :: "('s, 'e, 'a) op \<Rightarrow> ('a \<Rightarrow> ('s, 'e, 'b) op) \<Rightarrow> ('s, 'e, 'b) op" where
  "bind_op m f s = (case m s of (Inl e, s') \<Rightarrow> (Inl e, s') | (Inr a, s') \<Rightarrow> f a s')"

fun each_op :: "('x \<Rightarrow> ('s, 'e, unit) op) \<Rightarrow> 'x list \<Rightarrow> ('s, 'e, unit) op" where
  "each_op f [] s = (Inr (), s)"
| "each_op f (x # xs) s = bind_op (f x) (\<lambda>_. each_op f xs) s"

text \<open>A pure fallible computation inside an operation, and a change of the error type.\<close>

definition lift_result :: "('e, 'a) result \<Rightarrow> ('s, 'e, 'a) op" where
  "lift_result r s = (r, s)"

definition map_err :: "('e \<Rightarrow> 'f) \<Rightarrow> ('e, 'a) result \<Rightarrow> ('f, 'a) result" where
  "map_err f r = (case r of Inl e \<Rightarrow> Inl (f e) | Inr a \<Rightarrow> Inr a)"

lemma lift_result_simps [simp]: "fst (lift_result r s) = r" "snd (lift_result r s) = s"
  by (simp_all add: lift_result_def)

lemma lift_result_eq [simp]: "lift_result r s = (r', s') \<longleftrightarrow> r = r' \<and> s' = s"
  by (auto simp: lift_result_def)

lemma map_err_simps [simp]:
  "map_err f (Inl e) = Inl (f e)"
  "map_err f (Inr a) = Inr a"
  "map_err f r = Inr a \<longleftrightarrow> r = Inr a"
  "Inr a = map_err f r \<longleftrightarrow> r = Inr a"
  by (auto simp: map_err_def split: sum.splits)

lemma bind_op_lift [simp]:
  "bind_op (lift_result (Inr a)) f = f a"
  "bind_op (lift_result (Inl e)) f = lift_result (Inl e)"
  by (auto simp: bind_op_def lift_result_def)

lemma bind_op_Inr [simp]:
  "bind_op m f s = (Inr b, t) \<longleftrightarrow> (\<exists>a u. m s = (Inr a, u) \<and> f a u = (Inr b, t))"
  by (auto simp: bind_op_def split: prod.splits sum.splits)

lemma bind_op_keeps [keeps_intros]:
  assumes "P (snd (m s))" and "\<And>a u. m s = (Inr a, u) \<Longrightarrow> P u \<Longrightarrow> P (snd (f a u))"
  shows "P (snd (bind_op m f s))"
  using assms by (auto simp: bind_op_def split: prod.splits sum.splits)

lemma each_op_keeps [keeps_intros]:
  "P s \<Longrightarrow> (\<And>x u. x \<in> set xs \<Longrightarrow> P u \<Longrightarrow> P (snd (f x u))) \<Longrightarrow> P (snd (each_op f xs s))"
  by (induction xs arbitrary: s) (auto intro: bind_op_keeps)

text \<open>A loop that runs to its end has performed the fold of the successful steps.\<close>

lemma each_op_fold:
  "each_op f xs s = (Inr (), t) \<Longrightarrow>
   (\<And>x u u'. x \<in> set xs \<Longrightarrow> f x u = (Inr (), u') \<Longrightarrow> h u' = g x (h u)) \<Longrightarrow>
   h t = fold g xs (h s)"
proof (induction xs arbitrary: s)
  case (Cons x xs)
  then obtain u where "f x s = (Inr (), u)" "each_op f xs u = (Inr (), t)"
    by auto
  with Cons.IH [of u] Cons.prems(2) [of x s u] Cons.prems(2) show ?case
    by simp
qed simp

section \<open>Hash containers\<close>

text \<open>
  A \<open>HashMap\<close> is a map and a \<open>HashSet\<close> a set. The order in which Rust iterates them is unspecified
  (it depends on a random seed and on the history of the table), so every operation that iterates
  takes the order as an argument: a function from the set of keys to the sequence in which they
  are visited. What the operations rely on is that each key is visited once.
\<close>

type_synonym 'k hash_order = "'k set \<Rightarrow> 'k list"

definition hash_order :: "'k hash_order \<Rightarrow> bool" where
  "hash_order ord \<longleftrightarrow> (\<forall>K. finite K \<longrightarrow> distinct (ord K) \<and> set (ord K) = K)"

lemma hash_order_set [simp]: "hash_order ord \<Longrightarrow> finite K \<Longrightarrow> set (ord K) = K"
  by (simp add: hash_order_def)

lemma hash_order_distinct [simp]: "hash_order ord \<Longrightarrow> finite K \<Longrightarrow> distinct (ord K)"
  by (simp add: hash_order_def)

lemma hash_order_length [simp]: "hash_order ord \<Longrightarrow> finite K \<Longrightarrow> length (ord K) = card K"
  by (metis distinct_card hash_order_distinct hash_order_set)

lemma hash_order_sorted_list: "hash_order sorted_list_of_set"
  by (simp add: hash_order_def)

text \<open>\<open>HashMap::entry(k).or_default()\<close> on a map of sets.\<close>

definition set_at :: "('k \<rightharpoonup> 'a set) \<Rightarrow> 'k \<Rightarrow> 'a set" where
  "set_at m k = (case m k of None \<Rightarrow> {} | Some s \<Rightarrow> s)"

lemma set_at_simps [simp]:
  "m k = None \<Longrightarrow> set_at m k = {}"
  "m k = Some s \<Longrightarrow> set_at m k = s"
  by (simp_all add: set_at_def)

lemma set_at_upd [simp]: "set_at (m(k := v)) j = (if j = k then set_at (\<lambda>_. v) j else set_at m j)"
  by (simp add: set_at_def)

lemma set_at_const [simp]: "set_at (\<lambda>_. Some s) j = s" "set_at (\<lambda>_. None) j = {}"
  by (simp_all add: set_at_def)

lemma set_at_empty [simp]: "set_at Map.empty k = {}"
  by (simp add: set_at_def)

section \<open>Lists and maps\<close>

lemma take_filter_set_disjoint_drop:
  "distinct xs \<Longrightarrow> x \<in> set (filter P xs) \<Longrightarrow> x \<notin> set (take n (filter P xs)) \<Longrightarrow>
    x \<in> set (drop n (filter P xs))"
  by (metis append_take_drop_id in_set_conv_decomp set_append UnE)

lemma sorted_take_le_drop:
  assumes "sorted (map f xs)" and "a \<in> set (take n xs)" and "b \<in> set (drop n xs)"
  shows "f a \<le> f b"
proof -
  have "sorted (map f (take n xs) @ map f (drop n xs))"
    using assms(1) by (simp flip: map_append)
  then show ?thesis
    using assms(2,3) by (auto simp: sorted_append)
qed

text \<open>
  \<open>fold_keeps\<close> lifts the preservation of a predicate by one operation to a sequence of operations.
\<close>

lemma fold_keeps: "P s \<Longrightarrow> (\<And>x s. x \<in> set xs \<Longrightarrow> P s \<Longrightarrow> P (f x s)) \<Longrightarrow> P (fold f xs s)"
  by (induction xs arbitrary: s) auto

section \<open>Strings\<close>

text \<open>\<open>str::replace\<close> with a character pattern and a one-character replacement.\<close>

definition replace_char :: "char \<Rightarrow> char \<Rightarrow> string \<Rightarrow> string" where
  "replace_char a b s = map (\<lambda>c. if c = a then b else c) s"

lemma replace_char_absent: "a \<noteq> b \<Longrightarrow> a \<notin> set (replace_char a b s)"
  by (auto simp: replace_char_def)

lemma replace_char_inj:
  "b \<notin> set s \<Longrightarrow> b \<notin> set t \<Longrightarrow> replace_char a b s = replace_char a b t \<Longrightarrow> s = t"
proof (induction s arbitrary: t)
  case (Cons x s)
  then obtain y t' where "t = y # t'"
    by (cases t) (auto simp: replace_char_def)
  with Cons show ?case
    by (auto simp: replace_char_def split: if_splits)
qed (simp add: replace_char_def)

text \<open>A separator that occurs on neither left part makes joining injective.\<close>

lemma append_sep_eq_iff:
  "c \<notin> set s \<Longrightarrow> c \<notin> set t \<Longrightarrow> s @ c # u = t @ c # v \<longleftrightarrow> s = t \<and> u = v"
  by (induction s arbitrary: t) (case_tac t; auto)+

end
