(* ===== verification/Timestamps.thy ===== *)
theory Timestamps
  imports Prelude
begin

text \<open>
  The Unix timestamps of \<^verbatim>\<open>src/ipld/resolver/src/timestamp.rs\<close>: a newtype over \<open>u64\<close> with the derived
  order, and its saturating arithmetic with durations. \<open>std::time::Duration\<close> is whole seconds and
  a rest in nanoseconds.
\<close>

section \<open>Durations of the standard library\<close>

datatype duration = Duration (as_secs_dur: u64) (subsec_nanos: u32)

definition from_secs :: "u64 \<Rightarrow> duration" where
  "from_secs n = Duration n 0"

definition is_zero :: "duration \<Rightarrow> bool" where
  "is_zero d \<longleftrightarrow> as_secs_dur d = 0 \<and> subsec_nanos d = 0"

lemma from_secs_simps [simp]:
  "as_secs_dur (from_secs n) = n"
  "subsec_nanos (from_secs n) = 0"
  "is_zero (from_secs n) \<longleftrightarrow> n = 0"
  by (simp_all add: from_secs_def is_zero_def)

section \<open>Timestamps\<close>

datatype timestamp = Timestamp (as_secs: u64)

instantiation timestamp :: "{linorder, order_bot}"
begin

definition less_eq_timestamp :: "timestamp \<Rightarrow> timestamp \<Rightarrow> bool" where
  "less_eq_timestamp s t \<longleftrightarrow> as_secs s \<le> as_secs t"

definition less_timestamp :: "timestamp \<Rightarrow> timestamp \<Rightarrow> bool" where
  "less_timestamp s t \<longleftrightarrow> as_secs s < as_secs t"

definition bot_timestamp :: timestamp where
  "bot_timestamp = Timestamp 0"

instance
  by standard
    (auto simp: less_eq_timestamp_def less_timestamp_def bot_timestamp_def timestamp.expand)

end

text \<open>\<open>Timestamp::default()\<close> is the timestamp of the epoch, the least element of the order.\<close>

abbreviation default_timestamp :: timestamp where
  "default_timestamp \<equiv> bot"

lemma as_secs_bot [simp]: "as_secs bot = 0"
  by (simp add: bot_timestamp_def)

lemma timestamp_le_iff: "s \<le> t \<longleftrightarrow> unat (as_secs s) \<le> unat (as_secs t)"
  by (simp add: less_eq_timestamp_def word_le_nat_alt)

lemma timestamp_less_iff: "s < t \<longleftrightarrow> unat (as_secs s) < unat (as_secs t)"
  by (simp add: less_timestamp_def word_less_nat_alt)

definition add_duration :: "timestamp \<Rightarrow> duration \<Rightarrow> timestamp" where
  "add_duration t d = Timestamp (saturating_add (as_secs t) (as_secs_dur d))"

definition sub_duration :: "timestamp \<Rightarrow> duration \<Rightarrow> timestamp" where
  "sub_duration t d = Timestamp (saturating_sub (as_secs t) (as_secs_dur d))"

lemma unat_add_duration:
  "unat (as_secs (add_duration t d)) =
     min (unat (as_secs t) + unat (as_secs_dur d)) (2 ^ 64 - 1)"
  by (simp add: add_duration_def unat_saturating_add)

lemma unat_sub_duration:
  "unat (as_secs (sub_duration t d)) = unat (as_secs t) - unat (as_secs_dur d)"
  by (simp add: sub_duration_def unat_saturating_sub)

lemmas timestamp_unat = timestamp_le_iff timestamp_less_iff unat_add_duration unat_sub_duration

lemma u64_bound: "unat (x :: u64) \<le> 2 ^ 64 - 1"
  using unsigned_less [of x, where 'a = nat] by simp

lemma add_duration_ge: "t \<le> add_duration t d"
  using u64_bound [of "as_secs t"] by (simp add: timestamp_unat)

lemma sub_duration_le: "sub_duration t d \<le> t"
  by (simp add: timestamp_unat)

lemma add_duration_mono: "s \<le> t \<Longrightarrow> add_duration s d \<le> add_duration t d"
  by (simp add: timestamp_unat)

lemma sub_duration_mono: "s \<le> t \<Longrightarrow> sub_duration s d \<le> sub_duration t d"
  by (simp add: timestamp_unat)

text \<open>
  Going back and forth by a duration returns to the timestamp unless the forward step saturated;
  going forth after going back never lands before it.
\<close>

lemma sub_add_duration:
  "unat (as_secs t) + unat (as_secs_dur d) < 2 ^ 64 \<Longrightarrow> sub_duration (add_duration t d) d = t"
  by (rule timestamp.expand) (simp add: word_unat_eq_iff timestamp_unat)

lemma add_sub_duration_ge: "t \<le> add_duration (sub_duration t d) d"
  using u64_bound [of "as_secs t"] by (simp add: timestamp_unat)

end
