(* ===== verification/Signed_Records.thy ===== *)
theory Signed_Records
  imports Timestamps
begin

text \<open>
  The records that agents gossip and the signed envelopes that carry them:
  \<^verbatim>\<open>provider_record.rs\<close>, \<^verbatim>\<open>vote_record.rs\<close> and \<^verbatim>\<open>signed_record.rs\<close> of \<^verbatim>\<open>src/ipld/resolver/src\<close>.

  The cryptographic envelope and the keys belong to \<open>libp2p\<close>, the binary encoding of a record to
  \<open>fvm_ipld_encoding\<close>: they are parameters, collected in the records \<open>envelope_api\<close> and \<open>codec\<close>.
  Their documented behaviour is stated by \<open>envelope_laws\<close> and \<open>codec_laws\<close>. The errors of these
  libraries are represented by their messages.
\<close>

section \<open>Parameters: libp2p envelopes and the record codec\<close>


definition as_bytes :: "string \<Rightarrow> bytes" where
  "as_bytes s = map of_char s"

record ('key, 'pub, 'env) envelope_api =
  env_new :: "'key \<Rightarrow> string \<Rightarrow> bytes \<Rightarrow> bytes \<Rightarrow> (string, 'env) result"
  payload_and_signing_key :: "'env \<Rightarrow> string \<Rightarrow> bytes \<Rightarrow> (string, bytes \<times> 'pub) result"
  into_protobuf_encoding :: "'env \<Rightarrow> bytes"
  from_protobuf_encoding :: "bytes \<Rightarrow> (string, 'env) result"
  public_key_of :: "'key \<Rightarrow> 'pub"

record 'r codec =
  to_vec :: "'r \<Rightarrow> (string, bytes) result"
  from_slice :: "bytes \<Rightarrow> (string, 'r) result"

text \<open>
  What the code relies on: the protobuf encoding of an envelope decodes to it; an envelope opens
  with the domain and payload type it was sealed with, to the sealed payload and the public key
  of the signer; it does not open under another payload type. Encoding a record and decoding it
  gives the record back.
\<close>

definition envelope_laws :: "('key, 'pub, 'env) envelope_api \<Rightarrow> bool" where
  "envelope_laws api \<longleftrightarrow>
     (\<forall>e. from_protobuf_encoding api (into_protobuf_encoding api e) = Inr e) \<and>
     (\<forall>k d pt pl e. env_new api k d pt pl = Inr e \<longrightarrow>
        payload_and_signing_key api e d pt = Inr (pl, public_key_of api k)) \<and>
     (\<forall>k d pt pl e pt'. env_new api k d pt pl = Inr e \<and> pt' \<noteq> pt \<longrightarrow>
        (\<exists>err. payload_and_signing_key api e d pt' = Inl err))"

definition codec_laws :: "'r codec \<Rightarrow> bool" where
  "codec_laws cd \<longleftrightarrow> (\<forall>r b. to_vec cd r = Inr b \<longrightarrow> from_slice cd b = Inr r)"

section \<open>Signed records\<close>

definition DOMAIN_SEP :: string where
  "DOMAIN_SEP = ''/ipc/ipld/resolver''"

text \<open>The trait \<open>Record\<close>: a payload type and the check of the signing key.\<close>

record ('r, 'pub) record_kind =
  payload_type :: string
  check_signing_key :: "'r \<Rightarrow> 'pub \<Rightarrow> bool"

record ('r, 'env) signed_record =
  sr_record :: 'r
  sr_envelope :: 'env

datatype from_envelope_error = BadPayload string | InvalidRecord string | MismatchedSignature

datatype record_error = EncodingError string | SigningError string
  | DecodingError string | EnvelopeError from_envelope_error

definition signed_record_new ::
  "('key, 'pub, 'env) envelope_api \<Rightarrow> ('r, 'pub) record_kind \<Rightarrow> 'r codec \<Rightarrow> 'key \<Rightarrow> 'r \<Rightarrow>
     (record_error, ('r, 'env) signed_record) result" where
  "signed_record_new api rk cd key rec =
     (case to_vec cd rec of
        Inl e \<Rightarrow> Inl (EncodingError e)
      | Inr payload \<Rightarrow>
          (case env_new api key DOMAIN_SEP (as_bytes (payload_type rk)) payload of
             Inl e \<Rightarrow> Inl (SigningError e)
           | Inr env \<Rightarrow> Inr \<lparr>sr_record = rec, sr_envelope = env\<rparr>))"

definition from_signed_envelope ::
  "('key, 'pub, 'env) envelope_api \<Rightarrow> ('r, 'pub) record_kind \<Rightarrow> 'r codec \<Rightarrow> 'env \<Rightarrow>
     (from_envelope_error, ('r, 'env) signed_record) result" where
  "from_signed_envelope api rk cd env =
     (case payload_and_signing_key api env DOMAIN_SEP (as_bytes (payload_type rk)) of
        Inl e \<Rightarrow> Inl (BadPayload e)
      | Inr (payload, signing_key) \<Rightarrow>
          (case from_slice cd payload of
             Inl e \<Rightarrow> Inl (InvalidRecord e)
           | Inr rec \<Rightarrow>
               if \<not> check_signing_key rk rec signing_key then Inl MismatchedSignature
               else Inr \<lparr>sr_record = rec, sr_envelope = env\<rparr>))"

definition from_bytes ::
  "('key, 'pub, 'env) envelope_api \<Rightarrow> ('r, 'pub) record_kind \<Rightarrow> 'r codec \<Rightarrow> bytes \<Rightarrow>
     (record_error, ('r, 'env) signed_record) result" where
  "from_bytes api rk cd bz =
     (case from_protobuf_encoding api bz of
        Inl e \<Rightarrow> Inl (DecodingError e)
      | Inr env \<Rightarrow>
          (case from_signed_envelope api rk cd env of
             Inl e \<Rightarrow> Inl (EnvelopeError e)
           | Inr sr \<Rightarrow> Inr sr))"

section \<open>Provider records\<close>

record ('sid, 'peer) provider_record =
  pr_peer_id :: 'peer
  pr_subnet_ids :: "'sid list"
  pr_timestamp :: timestamp

definition provider_record_kind ::
  "('pub \<Rightarrow> 'peer) \<Rightarrow> (('sid, 'peer) provider_record, 'pub) record_kind" where
  "provider_record_kind to_peer_id =
     \<lparr>payload_type = ''/ipc/provider-record'',
      check_signing_key = (\<lambda>rec key. pr_peer_id rec = to_peer_id key)\<rparr>"

definition provider_record_signed ::
  "('key, 'pub, 'env) envelope_api \<Rightarrow> ('pub \<Rightarrow> 'peer) \<Rightarrow> ('sid, 'peer) provider_record codec \<Rightarrow>
     timestamp \<Rightarrow> 'key \<Rightarrow> 'sid list \<Rightarrow>
     (record_error, (('sid, 'peer) provider_record, 'env) signed_record) result" where
  "provider_record_signed api to_peer_id cd now key subnet_ids =
     signed_record_new api (provider_record_kind to_peer_id) cd key
       \<lparr>pr_peer_id = to_peer_id (public_key_of api key),
        pr_subnet_ids = subnet_ids, pr_timestamp = now\<rparr>"

section \<open>Vote records\<close>

record ('sid, 'pub, 'cid) vote_record =
  vr_public_key :: 'pub
  vr_subnet_id :: 'sid
  vr_cid :: 'cid
  vr_claim :: string
  vr_timestamp :: timestamp

definition vote_record_kind :: "(('sid, 'pub, 'cid) vote_record, 'pub) record_kind" where
  "vote_record_kind =
     \<lparr>payload_type = ''/ipc/vote-record'',
      check_signing_key = (\<lambda>rec key. vr_public_key rec = key)\<rparr>"

definition vote_record_signed ::
  "('key, 'pub, 'env) envelope_api \<Rightarrow> ('sid, 'pub, 'cid) vote_record codec \<Rightarrow>
     timestamp \<Rightarrow> 'key \<Rightarrow> 'sid \<Rightarrow> 'cid \<Rightarrow> string \<Rightarrow>
     (record_error, (('sid, 'pub, 'cid) vote_record, 'env) signed_record) result" where
  "vote_record_signed api cd now key subnet_id cid claim =
     signed_record_new api vote_record_kind cd key
       \<lparr>vr_public_key = public_key_of api key, vr_subnet_id = subnet_id, vr_cid = cid,
        vr_claim = claim, vr_timestamp = now\<rparr>"

section \<open>An instance of the parameters\<close>

text \<open>
  An envelope format without cryptography and a codec for small provider records, which show that
  the laws can hold. The payload type is stored with an escape byte before each of its bytes.
\<close>

fun stuff :: "bytes \<Rightarrow> bytes" where
  "stuff [] = [0]"
| "stuff (x # xs) = 1 # x # stuff xs"

fun unstuff :: "bytes \<Rightarrow> (bytes \<times> bytes) option" where
  "unstuff [] = None"
| "unstuff (f # r) =
     (if f = 0 then Some ([], r)
      else case r of [] \<Rightarrow> None | x # r' \<Rightarrow> map_option (\<lambda>(p, q). (x # p, q)) (unstuff r'))"

definition plain_envelopes :: "(u8, u8, bytes) envelope_api" where
  "plain_envelopes =
     \<lparr>env_new = (\<lambda>k d pt pl. Inr (k # stuff pt @ pl)),
      payload_and_signing_key =
        (\<lambda>e d pt. case e of [] \<Rightarrow> Inl ''empty''
           | k # r \<Rightarrow> (case unstuff r of None \<Rightarrow> Inl ''malformed''
               | Some (pt', pl) \<Rightarrow> if pt' = pt then Inr (pl, k) else Inl ''payload type'')),
      into_protobuf_encoding = (\<lambda>e. e),
      from_protobuf_encoding = (\<lambda>b. Inr b),
      public_key_of = (\<lambda>k. k)\<rparr>"

definition small_record_codec :: "(u8, u8) provider_record codec" where
  "small_record_codec =
     \<lparr>to_vec = (\<lambda>r. if as_secs (pr_timestamp r) < 256
                   then Inr (pr_peer_id r # ucast (as_secs (pr_timestamp r)) # pr_subnet_ids r)
                   else Inl ''timestamp''),
      from_slice = (\<lambda>b. case b of p # t # ids \<Rightarrow>
                        Inr \<lparr>pr_peer_id = p, pr_subnet_ids = ids, pr_timestamp = Timestamp (ucast t)\<rparr>
                      | _ \<Rightarrow> Inl ''short'')\<rparr>"

definition empty_vote_codec :: "(u8, u8, u8) vote_record codec" where
  "empty_vote_codec =
     \<lparr>to_vec = (\<lambda>r. if vr_claim r = [] \<and> vr_timestamp r = Timestamp 0
                   then Inr [vr_public_key r, vr_subnet_id r, vr_cid r] else Inl ''unsupported''),
      from_slice = (\<lambda>b. case b of [k, s, c] \<Rightarrow>
                        Inr \<lparr>vr_public_key = k, vr_subnet_id = s, vr_cid = c, vr_claim = [],
                             vr_timestamp = Timestamp 0\<rparr>
                      | _ \<Rightarrow> Inl ''short'')\<rparr>"

section \<open>Lemmas on envelopes\<close>

lemma from_bytes_Inr_iff:
  "from_bytes api rk cd bz = Inr sr \<longleftrightarrow>
     (\<exists>env payload key. from_protobuf_encoding api bz = Inr env \<and>
        payload_and_signing_key api env DOMAIN_SEP (as_bytes (payload_type rk)) =
          Inr (payload, key) \<and>
        from_slice cd payload = Inr (sr_record sr) \<and> check_signing_key rk (sr_record sr) key \<and>
        env = sr_envelope sr)"
  by (auto simp: from_bytes_def from_signed_envelope_def split: sum.splits prod.splits if_splits)

lemma signed_record_new_Inr_iff:
  "signed_record_new api rk cd key rec = Inr sr \<longleftrightarrow>
     (\<exists>payload env. to_vec cd rec = Inr payload \<and>
        env_new api key DOMAIN_SEP (as_bytes (payload_type rk)) payload = Inr env \<and>
        sr = \<lparr>sr_record = rec, sr_envelope = env\<rparr>)"
  by (auto simp: signed_record_new_def split: sum.splits)

lemma envelope_lawsD:
  assumes "envelope_laws api"
  shows "from_protobuf_encoding api (into_protobuf_encoding api e) = Inr e"
    and "env_new api k d pt pl = Inr e \<Longrightarrow>
      payload_and_signing_key api e d pt = Inr (pl, public_key_of api k)"
    and "env_new api k d pt pl = Inr e \<Longrightarrow> pt' \<noteq> pt \<Longrightarrow>
      \<exists>err. payload_and_signing_key api e d pt' = Inl err"
  using assms by (auto simp: envelope_laws_def)

text \<open>
  The contract of the trait \<open>Record\<close>: the constructor of a record kind fills in the key of the
  signer, so that the check succeeds on the signer's own key. Every record kind with this
  contract survives the trip over the network.
\<close>

locale signable_record =
  fixes rk :: "('r, 'pub) record_kind"
    and make :: "'pub \<Rightarrow> 'args \<Rightarrow> 'r"
  assumes own_key: "check_signing_key rk (make pub args) pub"
begin

lemma new_roundtrip:
  assumes "envelope_laws api" and "codec_laws cd"
    and "signed_record_new api rk cd key (make (public_key_of api key) args) = Inr sr"
  shows "from_bytes api rk cd (into_protobuf_encoding api (sr_envelope sr)) = Inr sr"
proof -
  from assms(3) obtain payload env where
    p: "to_vec cd (make (public_key_of api key) args) = Inr payload"
       "env_new api key DOMAIN_SEP (as_bytes (payload_type rk)) payload = Inr env"
       "sr = \<lparr>sr_record = make (public_key_of api key) args, sr_envelope = env\<rparr>"
    by (auto simp: signed_record_new_Inr_iff)
  from p(1) assms(2) have "from_slice cd payload = Inr (sr_record sr)"
    by (simp add: codec_laws_def p(3))
  with envelope_lawsD [OF assms(1)] p own_key show ?thesis
    by (auto simp: from_bytes_Inr_iff)
qed

end

interpretation provider: signable_record
  "provider_record_kind to_peer_id"
  "\<lambda>pub (ids, now). \<lparr>pr_peer_id = to_peer_id pub, pr_subnet_ids = ids, pr_timestamp = now\<rparr>"
  for to_peer_id :: "'pub \<Rightarrow> 'peer"
  by unfold_locales (auto simp: provider_record_kind_def)

interpretation vote: signable_record vote_record_kind
  "\<lambda>pub (sid, cid, claim, now). \<lparr>vr_public_key = pub, vr_subnet_id = sid, vr_cid = cid,
     vr_claim = claim, vr_timestamp = now\<rparr>"
  by unfold_locales (auto simp: vote_record_kind_def)

text \<open>The two payload types differ, so an envelope of one kind does not open as the other.\<close>

lemma payload_types_differ:
  "as_bytes (payload_type vote_record_kind) \<noteq>
   as_bytes (payload_type (provider_record_kind to_peer_id))"
  by (rule notI, drule arg_cong [where f = length])
    (simp add: as_bytes_def vote_record_kind_def provider_record_kind_def)


lemma unstuff_stuff [simp]: "unstuff (stuff xs @ ys) = Some (xs, ys)"
  by (induction xs) auto

lemma plain_envelopes_laws: "envelope_laws plain_envelopes"
  by (simp add: envelope_laws_def plain_envelopes_def)

lemma ucast_u8_u64: "x < 256 \<Longrightarrow> ucast (ucast x :: u8) = (x :: u64)"
  by (simp add: word_unat_eq_iff unsigned_ucast_eq word_less_nat_alt unsigned_take_bit_eq
      take_bit_nat_eq_self_iff)

lemma small_record_codec_laws: "codec_laws small_record_codec"
  by (auto simp: codec_laws_def small_record_codec_def ucast_u8_u64 split: if_splits)

lemma empty_vote_codec_laws: "codec_laws empty_vote_codec"
  by (auto simp: codec_laws_def empty_vote_codec_def split: if_splits)

section \<open>Properties\<close>

text \<open>
  C22. A provider record that an agent signs is accepted by every agent that receives the bytes of
  its envelope, and read back as the record that was signed: the signer's peer, the announced
  subnets and the time of signing.
\<close>

theorem provider_record_roundtrip:
  assumes "envelope_laws api" and "codec_laws cd"
    and "provider_record_signed api to_peer_id cd now key ids = Inr sr"
  shows "from_bytes api (provider_record_kind to_peer_id) cd
      (into_protobuf_encoding api (sr_envelope sr)) = Inr sr \<and>
    sr_record sr = \<lparr>pr_peer_id = to_peer_id (public_key_of api key),
      pr_subnet_ids = ids, pr_timestamp = now\<rparr>"
  using provider.new_roundtrip [OF assms(1,2), where args = "(ids, now)"] assms(3)
  by (auto simp: provider_record_signed_def signed_record_new_Inr_iff)

theorem provider_record_roundtrip_witness:
  "from_bytes plain_envelopes (provider_record_kind (\<lambda>k. k)) small_record_codec
     (7 # stuff (as_bytes ''/ipc/provider-record'') @ [7, 9, 3, 4]) =
   Inr \<lparr>sr_record = \<lparr>pr_peer_id = 7, pr_subnet_ids = [3, 4], pr_timestamp = Timestamp 9\<rparr>,
        sr_envelope = 7 # stuff (as_bytes ''/ipc/provider-record'') @ [7, 9, 3, 4]\<rparr>"
  using provider_record_roundtrip [OF plain_envelopes_laws small_record_codec_laws,
      of "\<lambda>k. k" "Timestamp 9" 7 "[3, 4]"]
  by (simp add: provider_record_signed_def signed_record_new_def plain_envelopes_def
      small_record_codec_def provider_record_kind_def)

text \<open>
  C23. An accepted provider record speaks about its signer: the peer of the record is the peer of the
  key that sealed the envelope under the domain of the resolver, so no agent can announce subnets
  for another.
\<close>

theorem provider_record_authentic:
  assumes "from_bytes api (provider_record_kind to_peer_id) cd bz = Inr sr"
  shows "\<exists>payload key.
    payload_and_signing_key api (sr_envelope sr) DOMAIN_SEP
      (as_bytes ''/ipc/provider-record'') = Inr (payload, key) \<and>
    from_slice cd payload = Inr (sr_record sr) \<and>
    pr_peer_id (sr_record sr) = to_peer_id key"
  using assms by (fastforce simp: from_bytes_Inr_iff provider_record_kind_def)

theorem provider_record_authentic_witness:
  "\<exists>payload key. payload_and_signing_key plain_envelopes
     (7 # stuff (as_bytes ''/ipc/provider-record'') @ [7, 9, 3, 4]) DOMAIN_SEP
     (as_bytes ''/ipc/provider-record'') = Inr (payload, key) \<and> key = 7"
  using provider_record_authentic [of plain_envelopes "\<lambda>k. k" small_record_codec
      "7 # stuff (as_bytes ''/ipc/provider-record'') @ [7, 9, 3, 4]"]
  by (simp add: from_bytes_def from_signed_envelope_def plain_envelopes_def small_record_codec_def
      provider_record_kind_def)

text \<open>
  A signed vote cannot be replayed as a provider record: the receiver rejects its envelope
  because of the payload type, whatever the payload decodes to.
\<close>

theorem vote_not_a_provider_record:
  assumes "envelope_laws api"
    and "vote_record_signed api cd now key sid cid claim = Inr sr"
  shows "\<exists>e. from_bytes api (provider_record_kind to_peer_id) cd'
      (into_protobuf_encoding api (sr_envelope sr)) = Inl (EnvelopeError (BadPayload e))"
proof -
  from assms(2) obtain payload where
    "env_new api key DOMAIN_SEP (as_bytes (payload_type vote_record_kind)) payload =
       Inr (sr_envelope sr)"
    by (auto simp: vote_record_signed_def signed_record_new_Inr_iff vote_record_kind_def)
  from envelope_lawsD(3) [OF assms(1) this payload_types_differ [symmetric], of to_peer_id]
  show ?thesis
    by (auto simp: from_bytes_def from_signed_envelope_def envelope_lawsD(1) [OF assms(1)]
        provider_record_kind_def)
qed

theorem vote_not_a_provider_record_witness:
  "\<exists>e. from_bytes plain_envelopes (provider_record_kind (\<lambda>k. k)) small_record_codec
     (7 # stuff (as_bytes ''/ipc/vote-record'') @ [7, 9, 3]) = Inl (EnvelopeError (BadPayload e))"
  using vote_not_a_provider_record [OF plain_envelopes_laws,
      of empty_vote_codec "Timestamp 0" 7 9 3 "[]" _ "\<lambda>k. k" small_record_codec]
  by (simp add: vote_record_signed_def signed_record_new_def plain_envelopes_def
      empty_vote_codec_def vote_record_kind_def)

end
