(* ===== verification/Transitions.thy ===== *)
theory Transitions
  imports Main
begin

text \<open>
  Labelled runs of a component and the contract of a component that keeps an invariant. A
  component theory declares its step relation as an inductive predicate, interprets
  \<open>invariant_system\<close> on it, and states its properties for every state that a run reaches.
\<close>

inductive runs :: "('s \<Rightarrow> 'l \<Rightarrow> 's \<Rightarrow> bool) \<Rightarrow> 's \<Rightarrow> 'l list \<Rightarrow> 's \<Rightarrow> bool" for step s where
  runs_nil [intro!]: "runs step s [] s"
| runs_snoc: "runs step s ls t \<Longrightarrow> step t l u \<Longrightarrow> runs step s (ls @ [l]) u"

lemma runs_append: "runs step s ls t \<Longrightarrow> runs step t ks u \<Longrightarrow> runs step s (ls @ ks) u"
  by (rotate_tac, induction rule: runs.induct) (auto simp flip: append_assoc intro: runs_snoc)

lemma runs_one: "step s l t \<Longrightarrow> runs step s [l] t"
  using runs_snoc [OF runs_nil] by simp

lemma runs_Cons: "step s l t \<Longrightarrow> runs step t ls u \<Longrightarrow> runs step s (l # ls) u"
  using runs_append [OF runs_one] by fastforce

text \<open>
  The steps whose label is \<open>allowed\<close> keep the invariant; with every label allowed it holds in
  every state reachable from a state that has it.
\<close>

locale invariant_system =
  fixes step :: "'s \<Rightarrow> 'l \<Rightarrow> 's \<Rightarrow> bool"
    and allowed :: "'l \<Rightarrow> bool"
    and inv :: "'s \<Rightarrow> bool"
  assumes step_inv: "step s l t \<Longrightarrow> allowed l \<Longrightarrow> inv s \<Longrightarrow> inv t"
begin

lemma runs_inv: "runs step s ls t \<Longrightarrow> list_all allowed ls \<Longrightarrow> inv s \<Longrightarrow> inv t"
  by (induction rule: runs.induct) (auto intro: step_inv)

end

end
