(* ===== verification/Provider_Cache.thy ===== *)
theory Provider_Cache
  imports Signed_Records Transitions
begin

text \<open>
  The cache of subnet providers of \<^verbatim>\<open>src/ipld/resolver/src/provider_cache.rs\<close>: which peers are
  known to provide data for which subnet, bounded in the number of subnets it tracks.

  Hash containers are maps and sets; the operations that iterate one take the iteration order as
  an argument (see \<open>hash_order\<close>). The \<open>usize\<close> quantities are only compared and subtracted with
  saturation, which is what \<open>nat\<close> does.
\<close>

section \<open>State and operations\<close>

record 'sid provider_delta =
  pd_is_new :: bool
  pd_added :: "'sid list"
  pd_removed :: "'sid list"

definition delta_is_empty :: "'sid provider_delta \<Rightarrow> bool" where
  "delta_is_empty d \<longleftrightarrow> pd_added d = [] \<and> pd_removed d = []"

record ('sid, 'peer) subnet_provider_cache =
  max_subnets :: nat
  pinned_subnets :: "'sid set"
  routable_peers :: "'peer set"
  subnet_providers :: "'sid \<rightharpoonup> 'peer set"
  peer_timestamps :: "'peer \<rightharpoonup> timestamp"

definition cache_new :: "nat \<Rightarrow> 'sid list \<Rightarrow> ('sid, 'peer) subnet_provider_cache" where
  "cache_new n static_subnets =
     \<lparr>max_subnets = n, pinned_subnets = set static_subnets, routable_peers = {},
      subnet_providers = Map.empty, peer_timestamps = Map.empty\<rparr>"

definition pin_subnet ::
  "'sid \<Rightarrow> ('sid, 'peer) subnet_provider_cache \<Rightarrow> ('sid, 'peer) subnet_provider_cache" where
  "pin_subnet s c = c\<lparr>pinned_subnets := insert s (pinned_subnets c)\<rparr>"

definition unpin_subnet ::
  "'sid \<Rightarrow> ('sid, 'peer) subnet_provider_cache \<Rightarrow> ('sid, 'peer) subnet_provider_cache" where
  "unpin_subnet s c = c\<lparr>pinned_subnets := pinned_subnets c - {s}\<rparr>"

definition set_routable ::
  "'peer \<Rightarrow> ('sid, 'peer) subnet_provider_cache \<Rightarrow> ('sid, 'peer) subnet_provider_cache" where
  "set_routable p c = c\<lparr>routable_peers := insert p (routable_peers c)\<rparr>"

definition set_unroutable ::
  "'peer \<Rightarrow> ('sid, 'peer) subnet_provider_cache \<Rightarrow> ('sid, 'peer) subnet_provider_cache" where
  "set_unroutable p c =
     c\<lparr>routable_peers := routable_peers c - {p},
       peer_timestamps := (peer_timestamps c)(p := None),
       subnet_providers := (\<lambda>s. map_option (\<lambda>ps. ps - {p}) (subnet_providers c s))\<rparr>"

definition num_routable :: "('sid, 'peer) subnet_provider_cache \<Rightarrow> nat" where
  "num_routable c = card (routable_peers c)"

definition is_routable :: "('sid, 'peer) subnet_provider_cache \<Rightarrow> 'peer \<Rightarrow> bool" where
  "is_routable c p \<longleftrightarrow> p \<in> routable_peers c"

definition has_timestamp :: "('sid, 'peer) subnet_provider_cache \<Rightarrow> 'peer \<Rightarrow> bool" where
  "has_timestamp c p \<longleftrightarrow> peer_timestamps c p \<noteq> None"

text \<open>
  The three loops of \<open>add_provider\<close> and \<open>prune_subnets\<close>. The first visits the entries of the map
  and removes the peer from those it no longer supports; the second enters the peer for the
  subnets of the record, in the record's order; the third removes unpinned subnets until enough
  are gone.
\<close>

fun remove_unsupported ::
  "'peer \<Rightarrow> 'sid set \<Rightarrow> 'sid list \<Rightarrow> ('sid \<rightharpoonup> 'peer set) \<Rightarrow> 'sid list \<Rightarrow>
     ('sid \<rightharpoonup> 'peer set) \<times> 'sid list" where
  "remove_unsupported p ids [] m removed = (m, removed)"
| "remove_unsupported p ids (s # ss) m removed =
     (if s \<notin> ids \<and> p \<in> set_at m s
      then remove_unsupported p ids ss (m(s \<mapsto> set_at m s - {p})) (removed @ [s])
      else remove_unsupported p ids ss m removed)"

fun add_supported ::
  "'peer \<Rightarrow> 'sid list \<Rightarrow> ('sid \<rightharpoonup> 'peer set) \<Rightarrow> 'sid list \<Rightarrow> ('sid \<rightharpoonup> 'peer set) \<times> 'sid list" where
  "add_supported p [] m added = (m, added)"
| "add_supported p (s # ss) m added =
     add_supported p ss (m(s \<mapsto> insert p (set_at m s)))
       (if p \<in> set_at m s then added else added @ [s])"

fun prune_loop ::
  "'sid set \<Rightarrow> nat \<Rightarrow> 'sid list \<Rightarrow> ('sid \<rightharpoonup> 'peer set) \<Rightarrow> 'sid set \<Rightarrow>
     ('sid \<rightharpoonup> 'peer set) \<times> 'sid set" where
  "prune_loop pinned to_prune [] m removed = (m, removed)"
| "prune_loop pinned to_prune (s # ss) m removed =
     (if s \<in> pinned then prune_loop pinned to_prune ss m removed
      else let m' = m(s := None); removed' = insert s removed
           in if card removed' = to_prune then (m', removed')
              else prune_loop pinned to_prune ss m' removed')"

definition prune_subnets ::
  "'sid hash_order \<Rightarrow> ('sid, 'peer) subnet_provider_cache \<Rightarrow>
     'sid set \<times> ('sid, 'peer) subnet_provider_cache" where
  "prune_subnets ord c =
     (let m = subnet_providers c;
          to_prune = card (dom m) - max_subnets c
      in if to_prune > 0
         then let counts = map (\<lambda>s. (s, card (set_at m s))) (ord (dom m));
                  sorted_counts = sort_key snd counts;
                  (m', removed) =
                    prune_loop (pinned_subnets c) to_prune (map fst sorted_counts) m {}
              in (removed, c\<lparr>subnet_providers := m'\<rparr>)
         else ({}, c))"

definition known_timestamp :: "('sid, 'peer) subnet_provider_cache \<Rightarrow> 'peer \<Rightarrow> timestamp" where
  "known_timestamp c p =
     (case peer_timestamps c p of None \<Rightarrow> default_timestamp | Some t \<Rightarrow> t)"

definition add_provider ::
  "'sid hash_order \<Rightarrow> ('sid, 'peer) subnet_provider_cache \<Rightarrow> ('sid, 'peer) provider_record \<Rightarrow>
     'sid provider_delta option \<times> ('sid, 'peer) subnet_provider_cache" where
  "add_provider ord c r =
     (let p = pr_peer_id r
      in if \<not> is_routable c p then (None, c)
         else let is_new = (\<not> has_timestamp c p);
                  t = known_timestamp c p
              in if t < pr_timestamp r
                 then let (m1, removed) =
                            remove_unsupported p (set (pr_subnet_ids r))
                              (ord (dom (subnet_providers c))) (subnet_providers c) [];
                          (m2, added) = add_supported p (pr_subnet_ids r) m1 [];
                          (pruned, c') =
                            prune_subnets ord
                              (c\<lparr>subnet_providers := m2,
                                 peer_timestamps := (peer_timestamps c)(p \<mapsto> pr_timestamp r)\<rparr>)
                      in (Some \<lparr>pd_is_new = is_new,
                                pd_added = filter (\<lambda>s. s \<notin> pruned) added,
                                pd_removed = removed\<rparr>, c')
                 else (Some \<lparr>pd_is_new = is_new, pd_added = [], pd_removed = []\<rparr>,
                       c\<lparr>peer_timestamps := (peer_timestamps c)(p \<mapsto> t)\<rparr>))"

definition prune_providers ::
  "'peer hash_order \<Rightarrow> timestamp \<Rightarrow> ('sid, 'peer) subnet_provider_cache \<Rightarrow>
     'peer list \<times> ('sid, 'peer) subnet_provider_cache" where
  "prune_providers ord cutoff c =
     (let to_prune =
            filter (\<lambda>p. known_timestamp c p < cutoff) (ord (dom (peer_timestamps c)))
      in (to_prune, fold set_unroutable to_prune c))"

definition providers_of_subnet ::
  "'peer hash_order \<Rightarrow> ('sid, 'peer) subnet_provider_cache \<Rightarrow> 'sid \<Rightarrow> 'peer list" where
  "providers_of_subnet ord c s =
     (case subnet_providers c s of None \<Rightarrow> [] | Some ps \<Rightarrow> ord ps)"

section \<open>Histories, invariant and reference\<close>

text \<open>
  The public operations as labels of a step relation. A step that iterates a hash container may
  visit it in any order.
\<close>

datatype ('sid, 'peer) cache_op =
    Pin_Subnet 'sid
  | Unpin_Subnet 'sid
  | Set_Routable 'peer
  | Set_Unroutable 'peer
  | Add_Provider "('sid, 'peer) provider_record"
  | Prune_Providers timestamp

inductive cache_step ::
  "('sid, 'peer) subnet_provider_cache \<Rightarrow> ('sid, 'peer) cache_op \<Rightarrow>
     ('sid, 'peer) subnet_provider_cache \<Rightarrow> bool" where
  pin: "cache_step c (Pin_Subnet s) (pin_subnet s c)"
| unpin: "cache_step c (Unpin_Subnet s) (unpin_subnet s c)"
| routable: "cache_step c (Set_Routable p) (set_routable p c)"
| unroutable: "cache_step c (Set_Unroutable p) (set_unroutable p c)"
| add: "hash_order ord \<Longrightarrow> cache_step c (Add_Provider r) (snd (add_provider ord c r))"
| prune: "hash_order ord \<Longrightarrow> cache_step c (Prune_Providers t) (snd (prune_providers ord t c))"

inductive_cases cache_stepE: "cache_step c l c'"

text \<open>
  Only routable peers are tracked, only peers with a timestamp are providers, and the containers
  are finite.
\<close>

definition cache_inv :: "('sid, 'peer) subnet_provider_cache \<Rightarrow> bool" where
  "cache_inv c \<longleftrightarrow>
     finite (routable_peers c) \<and> finite (dom (subnet_providers c)) \<and>
     dom (peer_timestamps c) \<subseteq> routable_peers c \<and>
     (\<forall>s. set_at (subnet_providers c) s \<subseteq> dom (peer_timestamps c))"

text \<open>The number of tracked subnets exceeds the maximum only by pinned ones.\<close>

definition cache_bounded :: "('sid, 'peer) subnet_provider_cache \<Rightarrow> bool" where
  "cache_bounded c \<longleftrightarrow>
     card (dom (subnet_providers c)) \<le>
       max (max_subnets c) (card (dom (subnet_providers c) \<inter> pinned_subnets c))"

text \<open>
  The abstract directory that the cache maintains: for every peer the timestamp of its newest
  record and the subnets it supports.
\<close>

type_synonym ('sid, 'peer) directory = "'peer \<rightharpoonup> timestamp \<times> 'sid set"

definition directory_of :: "('sid, 'peer) subnet_provider_cache \<Rightarrow> ('sid, 'peer) directory" where
  "directory_of c =
     (\<lambda>p. map_option (\<lambda>t. (t, {s. p \<in> set_at (subnet_providers c) s})) (peer_timestamps c p))"

definition register :: "('sid, 'peer) provider_record \<Rightarrow> ('sid, 'peer) directory \<Rightarrow>
    ('sid, 'peer) directory" where
  "register r dir =
     (let (t, ss) = (case dir (pr_peer_id r) of None \<Rightarrow> (default_timestamp, {}) | Some e \<Rightarrow> e)
      in dir(pr_peer_id r \<mapsto>
               if t < pr_timestamp r then (pr_timestamp r, set (pr_subnet_ids r)) else (t, ss)))"

text \<open>
  The reference that the unit tests of the module compare the cache with: the subnets of the
  first record of a peer among those with its greatest timestamp.
\<close>

definition max_timestamp :: "'peer \<Rightarrow> ('sid, 'peer) provider_record list \<Rightarrow> timestamp" where
  "max_timestamp p rs =
     fold (\<lambda>r t. if pr_peer_id r = p \<and> t < pr_timestamp r then pr_timestamp r else t) rs
       default_timestamp"

definition build_providers ::
  "('sid, 'peer) provider_record list \<Rightarrow> 'sid \<Rightarrow> 'peer set" where
  "build_providers rs s =
     {p. \<exists>r. find (\<lambda>r. pr_peer_id r = p \<and> pr_timestamp r = max_timestamp p rs) rs = Some r \<and>
             s \<in> set (pr_subnet_ids r)}"

text \<open>
  Replaying records the way the tests do: a peer is made routable, then its record is added.
\<close>

definition replay ::
  "'sid hash_order \<Rightarrow> ('sid, 'peer) provider_record list \<Rightarrow>
     ('sid, 'peer) subnet_provider_cache \<Rightarrow> ('sid, 'peer) subnet_provider_cache" where
  "replay ord rs c =
     fold (\<lambda>r c. snd (add_provider ord (set_routable (pr_peer_id r) c) r)) rs c"

text \<open>The providers of every subnet once a peer has announced the subnets \<open>ids\<close>, before pruning.\<close>

definition announced :: "'peer \<Rightarrow> 'sid set \<Rightarrow> ('sid \<rightharpoonup> 'peer set) \<Rightarrow> ('sid \<rightharpoonup> 'peer set)" where
  "announced p ids m =
     (\<lambda>s. if s \<in> ids then Some (insert p (set_at m s)) else map_option (\<lambda>ps. ps - {p}) (m s))"

section \<open>What the loops compute\<close>

lemma remove_unsupported_eq:
  "distinct ss \<Longrightarrow> set ss \<subseteq> dom m \<Longrightarrow>
   remove_unsupported p ids ss m removed =
     (\<lambda>s. if s \<in> set ss \<and> s \<notin> ids then map_option (\<lambda>ps. ps - {p}) (m s) else m s,
      removed @ filter (\<lambda>s. s \<notin> ids \<and> p \<in> set_at m s) ss)"
proof (induction ss arbitrary: m removed)
  case (Cons s ss)
  show ?case
  proof (cases "s \<notin> ids \<and> p \<in> set_at m s")
    case True
    let ?m = "m(s \<mapsto> set_at m s - {p})"
    have "filter (\<lambda>s. s \<notin> ids \<and> p \<in> set_at ?m s) ss = filter (\<lambda>s. s \<notin> ids \<and> p \<in> set_at m s) ss"
      using Cons.prems by (intro filter_cong) auto
    moreover have "remove_unsupported p ids ss ?m (removed @ [s]) =
        (\<lambda>s'. if s' \<in> set ss \<and> s' \<notin> ids then map_option (\<lambda>ps. ps - {p}) (?m s') else ?m s',
         (removed @ [s]) @ filter (\<lambda>s. s \<notin> ids \<and> p \<in> set_at ?m s) ss)"
      using Cons.prems by (intro Cons.IH) auto
    ultimately show ?thesis
      using True Cons.prems by (auto simp: fun_eq_iff simp del: set_at_upd)
  next
    case False
    with Cons.prems show ?thesis
      by (auto simp: Cons.IH fun_eq_iff)
  qed
qed auto

lemma fst_add_supported:
  "fst (add_supported p ss m added) = (\<lambda>s. if s \<in> set ss then Some (insert p (set_at m s)) else m s)"
  by (induction ss arbitrary: m added) (auto simp: fun_eq_iff)

lemma set_snd_add_supported:
  "set (snd (add_supported p ss m added)) = set added \<union> {s \<in> set ss. p \<notin> set_at m s}"
  by (induction ss arbitrary: m added) auto

lemma distinct_snd_add_supported:
  "distinct added \<Longrightarrow> \<forall>s \<in> set added. p \<in> set_at m s \<Longrightarrow> distinct (snd (add_supported p ss m added))"
proof (induction ss arbitrary: m added)
  case (Cons s ss)
  have "\<forall>s' \<in> set (if p \<in> set_at m s then added else added @ [s]).
      p \<in> set_at (m(s \<mapsto> insert p (set_at m s))) s'"
    using Cons.prems by auto
  moreover have "distinct (if p \<in> set_at m s then added else added @ [s])"
    using Cons.prems by auto
  ultimately show ?case
    by (simp only: add_supported.simps Cons.IH)
qed simp

lemma prune_loop_eq:
  assumes "distinct ss" and "finite removed" and "card removed < k" and "set ss \<inter> removed = {}"
  shows "prune_loop pinned k ss m removed =
    (let R = set (take (k - card removed) (filter (\<lambda>s. s \<notin> pinned) ss))
     in (m |` (- R), R \<union> removed))"
  using assms
proof (induction ss arbitrary: m removed)
  case (Cons s ss)
  show ?case
  proof (cases "s \<in> pinned")
    case False
    let ?n = "k - card removed"
    from Cons.prems have s: "s \<notin> removed" and n: "?n = Suc (k - Suc (card removed))"
      by auto
    show ?thesis
    proof (cases "Suc (card removed) = k")
      case True
      with False s Cons.prems(2) n show ?thesis
        by (auto simp: Let_def restrict_map_def fun_eq_iff)
    next
      case neq: False
      with Cons.prems s have IH: "prune_loop pinned k ss (m(s := None)) (insert s removed) =
          (let R = set (take (k - Suc (card removed)) (filter (\<lambda>s. s \<notin> pinned) ss))
           in ((m(s := None)) |` (- R), R \<union> insert s removed))"
        by (subst Cons.IH) auto
      with False neq s Cons.prems(2) n show ?thesis
        by (auto simp: Let_def restrict_map_def fun_eq_iff)
    qed
  qed (use Cons in auto)
qed (auto simp: Let_def restrict_map_def)

section \<open>What one operation computes\<close>

lemma dom_announced [simp]: "dom (announced p ids m) = dom m \<union> ids"
  by (auto simp: announced_def dom_def)

lemma set_at_announced [simp]:
  "set_at (announced p ids m) s = (if s \<in> ids then insert p (set_at m s) else set_at m s - {p})"
  by (cases "m s") (auto simp: announced_def set_at_def)

lemma set_at_remove_unsupported:
  assumes "hash_order ord" and "finite (dom m)"
  shows "set_at (fst (remove_unsupported p ids (ord (dom m)) m [])) s =
    (if s \<in> ids then set_at m s else set_at m s - {p})"
  using assms by (cases "m s") (auto simp: remove_unsupported_eq set_at_def)

lemma add_remove_announced:
  assumes "hash_order ord" and "finite (dom m)"
  shows "fst (add_supported p ss (fst (remove_unsupported p (set ss) (ord (dom m)) m [])) []) =
    announced p (set ss) m"
  using assms
  by (auto simp: fst_add_supported announced_def fun_eq_iff set_at_remove_unsupported
      remove_unsupported_eq)

lemma prune_subnets_spec:
  assumes "hash_order ord" and "finite (dom (subnet_providers c))"
  obtains R where "prune_subnets ord c = (R, c\<lparr>subnet_providers := subnet_providers c |` (- R)\<rparr>)"
    and "R \<subseteq> dom (subnet_providers c) - pinned_subnets c"
    and "card R = min (card (dom (subnet_providers c)) - max_subnets c)
                      (card (dom (subnet_providers c) - pinned_subnets c))"
    and "\<And>r k. r \<in> R \<Longrightarrow> k \<in> dom (subnet_providers c) - pinned_subnets c - R \<Longrightarrow>
           card (set_at (subnet_providers c) r) \<le> card (set_at (subnet_providers c) k)"
proof -
  let ?m = "subnet_providers c"
  let ?D = "dom ?m"
  let ?n = "card ?D - max_subnets c"
  let ?xs = "map fst (sort_key snd (map (\<lambda>s. (s, card (set_at ?m s))) (ord ?D)))"
  let ?us = "filter (\<lambda>s. s \<notin> pinned_subnets c) ?xs"
  define R where "R = set (take ?n ?us)"
  have us_set: "set ?us = ?D - pinned_subnets c"
    using assms by (auto simp: image_image)
  have us_dist: "distinct ?us"
    using assms by (simp add: distinct_map inj_on_def)
  have fst_counts: "sorted (map (\<lambda>s. card (set_at ?m s)) ?xs)"
  proof -
    let ?L = "sort_key snd (map (\<lambda>s. (s, card (set_at ?m s))) (ord ?D))"
    have "map (\<lambda>s. card (set_at ?m s)) ?xs = map snd ?L"
      unfolding map_map by (rule map_cong) auto
    then show ?thesis
      by (simp only: sorted_sort_key)
  qed
  then have us_sorted: "sorted (map (\<lambda>s. card (set_at ?m s)) ?us)"
    by (rule sorted_filter)
  have "prune_subnets ord c = (R, c\<lparr>subnet_providers := ?m |` (- R)\<rparr>)"
  proof (cases "?n > 0")
    case True
    with assms show ?thesis
      by (simp add: prune_subnets_def Let_def R_def prune_loop_eq distinct_map inj_on_def)
  next
    case False
    then have "?m |` (- R) = ?m"
      by (simp add: R_def restrict_map_def)
    with False show ?thesis
      by (simp add: prune_subnets_def R_def)
  qed
  moreover have "R \<subseteq> ?D - pinned_subnets c"
    unfolding R_def us_set [symmetric] by (rule set_take_subset)
  moreover have "card R = min ?n (card (?D - pinned_subnets c))"
    using us_dist us_set distinct_card [OF us_dist] distinct_card [OF distinct_take [OF us_dist]]
    by (simp add: R_def min.commute)
  moreover have "card (set_at ?m r) \<le> card (set_at ?m k)"
    if "r \<in> R" "k \<in> ?D - pinned_subnets c - R" for r k
  proof (rule sorted_take_le_drop [OF us_sorted])
    show "r \<in> set (take ?n ?us)"
      using that(1) by (simp add: R_def)
    have "k \<in> set ?us"
      using that(2) us_set by blast
    then have "k \<in> set (take ?n ?us) \<union> set (drop ?n ?us)"
      by (metis append_take_drop_id set_append)
    then show "k \<in> set (drop ?n ?us)"
      using that(2) by (auto simp: R_def)
  qed
  ultimately show ?thesis by (rule that)
qed

lemma add_provider_unroutable:
  "pr_peer_id r \<notin> routable_peers c \<Longrightarrow> add_provider ord c r = (None, c)"
  by (simp add: add_provider_def is_routable_def)

lemma add_provider_stale:
  "pr_peer_id r \<in> routable_peers c \<Longrightarrow> \<not> known_timestamp c (pr_peer_id r) < pr_timestamp r \<Longrightarrow>
   add_provider ord c r =
     (Some \<lparr>pd_is_new = (\<not> has_timestamp c (pr_peer_id r)), pd_added = [], pd_removed = []\<rparr>,
      c\<lparr>peer_timestamps :=
          (peer_timestamps c)(pr_peer_id r \<mapsto> known_timestamp c (pr_peer_id r))\<rparr>)"
  by (simp add: add_provider_def is_routable_def Let_def)

text \<open>
  A fresh record: the peer is entered for exactly the announced subnets, then the set \<open>R\<close> of
  subnets is pruned.
\<close>

lemma add_provider_fresh:
  assumes "hash_order ord" and "finite (dom (subnet_providers c))"
    and "pr_peer_id r \<in> routable_peers c"
    and "known_timestamp c (pr_peer_id r) < pr_timestamp r"
  obtains R d where
    "add_provider ord c r =
       (Some d, c\<lparr>subnet_providers :=
                    announced (pr_peer_id r) (set (pr_subnet_ids r)) (subnet_providers c) |` (- R),
                  peer_timestamps := (peer_timestamps c)(pr_peer_id r \<mapsto> pr_timestamp r)\<rparr>)"
    and "pd_is_new d \<longleftrightarrow> \<not> has_timestamp c (pr_peer_id r)"
    and "set (pd_added d) =
       {s \<in> set (pr_subnet_ids r). pr_peer_id r \<notin> set_at (subnet_providers c) s} - R"
    and "distinct (pd_added d)"
    and "set (pd_removed d) =
       {s. s \<notin> set (pr_subnet_ids r) \<and> pr_peer_id r \<in> set_at (subnet_providers c) s}"
    and "distinct (pd_removed d)"
    and "R \<subseteq> dom (subnet_providers c) \<union> set (pr_subnet_ids r) - pinned_subnets c"
    and "card R = min (card (dom (subnet_providers c) \<union> set (pr_subnet_ids r)) - max_subnets c)
       (card (dom (subnet_providers c) \<union> set (pr_subnet_ids r) - pinned_subnets c))"
    and "\<And>x k. x \<in> R \<Longrightarrow> k \<in> dom (subnet_providers c) \<union> set (pr_subnet_ids r)
                                  - pinned_subnets c - R \<Longrightarrow>
       card (set_at (announced (pr_peer_id r) (set (pr_subnet_ids r)) (subnet_providers c)) x) \<le>
       card (set_at (announced (pr_peer_id r) (set (pr_subnet_ids r)) (subnet_providers c)) k)"
proof -
  let ?p = "pr_peer_id r" and ?m = "subnet_providers c" and ?ids = "pr_subnet_ids r"
  let ?rm = "remove_unsupported ?p (set ?ids) (ord (dom ?m)) ?m []"
  let ?ad = "add_supported ?p ?ids (fst ?rm) []"
  let ?c = "c\<lparr>subnet_providers := announced ?p (set ?ids) ?m,
               peer_timestamps := (peer_timestamps c)(?p \<mapsto> pr_timestamp r)\<rparr>"
  obtain R where R: "prune_subnets ord ?c = (R, ?c\<lparr>subnet_providers := subnet_providers ?c |` (- R)\<rparr>)"
    "R \<subseteq> dom (subnet_providers ?c) - pinned_subnets ?c"
    "card R = min (card (dom (subnet_providers ?c)) - max_subnets ?c)
       (card (dom (subnet_providers ?c) - pinned_subnets ?c))"
    "\<And>r k. r \<in> R \<Longrightarrow> k \<in> dom (subnet_providers ?c) - pinned_subnets ?c - R \<Longrightarrow>
       card (set_at (subnet_providers ?c) r) \<le> card (set_at (subnet_providers ?c) k)"
    by (rule prune_subnets_spec [of ord ?c]) (use assms in simp_all)
  define d where "d = \<lparr>pd_is_new = (\<not> has_timestamp c ?p),
    pd_added = filter (\<lambda>s. s \<notin> R) (snd ?ad), pd_removed = snd ?rm\<rparr>"
  have eq: "add_provider ord c r =
      (Some d, c\<lparr>subnet_providers := announced ?p (set ?ids) ?m |` (- R),
                 peer_timestamps := (peer_timestamps c)(?p \<mapsto> pr_timestamp r)\<rparr>)"
    using assms R(1)
    by (simp add: add_provider_def is_routable_def Let_def split_beta add_remove_announced d_def)
  have "set (snd ?ad) = {s \<in> set ?ids. ?p \<notin> set_at ?m s}"
    using assms by (auto simp: set_snd_add_supported set_at_remove_unsupported)
  moreover have "snd ?rm = filter (\<lambda>s. s \<notin> set ?ids \<and> ?p \<in> set_at ?m s) (ord (dom ?m))"
    using assms by (simp add: remove_unsupported_eq)
  moreover have "?p \<in> set_at ?m s \<Longrightarrow> s \<in> dom ?m" for s
    by (cases "?m s") auto
  ultimately have d: "set (pd_added d) = {s \<in> set ?ids. ?p \<notin> set_at ?m s} - R"
      "set (pd_removed d) = {s. s \<notin> set ?ids \<and> ?p \<in> set_at ?m s}" "distinct (pd_removed d)"
    using assms by (auto simp: d_def)
  have "distinct (pd_added d)"
    by (simp add: d_def distinct_snd_add_supported)
  moreover have "pd_is_new d \<longleftrightarrow> \<not> has_timestamp c ?p"
    by (simp add: d_def)
  ultimately show ?thesis
    using that [OF eq _ d(1) _ d(2) d(3)] R(2-4) by simp
qed

section \<open>The invariant\<close>

lemmas cache_op_defs =
  pin_subnet_def unpin_subnet_def set_routable_def set_unroutable_def

lemma cache_inv_new [intro!]: "cache_inv (cache_new n ss)"
  by (simp add: cache_inv_def cache_new_def)

lemma set_at_set_unroutable [simp]:
  "set_at (subnet_providers (set_unroutable p c)) s = set_at (subnet_providers c) s - {p}"
  by (cases "subnet_providers c s") (auto simp: set_unroutable_def set_at_def)

lemma dom_set_unroutable [simp]:
  "dom (subnet_providers (set_unroutable p c)) = dom (subnet_providers c)"
  by (auto simp: set_unroutable_def dom_def)

lemma peer_timestamps_set_unroutable [simp]:
  "peer_timestamps (set_unroutable p c) = (peer_timestamps c)(p := None)"
  "routable_peers (set_unroutable p c) = routable_peers c - {p}"
  "max_subnets (set_unroutable p c) = max_subnets c"
  "pinned_subnets (set_unroutable p c) = pinned_subnets c"
  by (simp_all add: set_unroutable_def)

lemma cache_inv_set_unroutable [intro!]: "cache_inv c \<Longrightarrow> cache_inv (set_unroutable p c)"
  by (fastforce simp: cache_inv_def)

lemma known_timestamp_Some [simp]: "peer_timestamps c p = Some t \<Longrightarrow> known_timestamp c p = t"
  by (simp add: known_timestamp_def)

lemma set_at_restrict [simp]: "set_at (m |` A) s = (if s \<in> A then set_at m s else {})"
  by (simp add: set_at_def restrict_map_def)

lemma add_provider_cases [consumes 2, case_names unroutable stale fresh]:
  assumes "hash_order ord" and "cache_inv c"
  obtains "pr_peer_id r \<notin> routable_peers c" "add_provider ord c r = (None, c)"
  | "pr_peer_id r \<in> routable_peers c" "\<not> known_timestamp c (pr_peer_id r) < pr_timestamp r"
    "add_provider ord c r =
       (Some \<lparr>pd_is_new = (\<not> has_timestamp c (pr_peer_id r)), pd_added = [], pd_removed = []\<rparr>,
        c\<lparr>peer_timestamps :=
            (peer_timestamps c)(pr_peer_id r \<mapsto> known_timestamp c (pr_peer_id r))\<rparr>)"
  | R d where "pr_peer_id r \<in> routable_peers c" "known_timestamp c (pr_peer_id r) < pr_timestamp r"
    "add_provider ord c r =
       (Some d, c\<lparr>subnet_providers :=
                    announced (pr_peer_id r) (set (pr_subnet_ids r)) (subnet_providers c) |` (- R),
                  peer_timestamps := (peer_timestamps c)(pr_peer_id r \<mapsto> pr_timestamp r)\<rparr>)"
    "R \<subseteq> dom (subnet_providers c) \<union> set (pr_subnet_ids r) - pinned_subnets c"
    "card R = min (card (dom (subnet_providers c) \<union> set (pr_subnet_ids r)) - max_subnets c)
       (card (dom (subnet_providers c) \<union> set (pr_subnet_ids r) - pinned_subnets c))"
proof (cases "pr_peer_id r \<in> routable_peers c")
  case False
  then show ?thesis
    by (rule that(1)) (simp add: add_provider_unroutable False)
next
  case routable: True
  show ?thesis
  proof (cases "known_timestamp c (pr_peer_id r) < pr_timestamp r")
    case True
    from assms(2) have "finite (dom (subnet_providers c))"
      by (simp add: cache_inv_def)
    show ?thesis
      by (rule add_provider_fresh [OF assms(1) \<open>finite (dom (subnet_providers c))\<close> routable True])
        (rule that(3) [OF routable True])
  next
    case False
    then show ?thesis
      using that(2) [OF routable False] add_provider_stale [OF routable False] by simp
  qed
qed

lemma cache_inv_add_provider:
  assumes "hash_order ord" and "cache_inv c"
  shows "cache_inv (snd (add_provider ord c r))"
  using assms
proof (cases rule: add_provider_cases [of ord c r])
  case (fresh R d)
  have "finite (dom (announced (pr_peer_id r) (set (pr_subnet_ids r)) (subnet_providers c) |` (- R)))"
    using assms(2) by (simp add: cache_inv_def)
  then show ?thesis
    using assms(2) fresh(1,3) by (auto simp: cache_inv_def)
qed (use assms in \<open>auto simp: cache_inv_def\<close>)

lemma cache_inv_prune_providers:
  "cache_inv c \<Longrightarrow> cache_inv (snd (prune_providers ord t c))"
  unfolding prune_providers_def Let_def snd_conv by (rule fold_keeps) auto

lemma cache_inv_pins [simp]:
  "cache_inv (pin_subnet s c) \<longleftrightarrow> cache_inv c"
  "cache_inv (unpin_subnet s c) \<longleftrightarrow> cache_inv c"
  by (simp_all add: cache_inv_def pin_subnet_def unpin_subnet_def)

lemma cache_inv_set_routable [intro!]: "cache_inv c \<Longrightarrow> cache_inv (set_routable p c)"
  by (auto simp: cache_inv_def set_routable_def)

lemma cache_inv_step: "cache_step c l c' \<Longrightarrow> cache_inv c \<Longrightarrow> cache_inv c'"
  by (erule cache_stepE)
    (simp_all add: cache_inv_add_provider cache_inv_prune_providers cache_inv_set_routable
      cache_inv_set_unroutable)

interpretation cache: invariant_system cache_step "\<lambda>_. True" cache_inv
  by unfold_locales (rule cache_inv_step)

section \<open>The bound on the number of subnets\<close>

lemma cache_config_add_provider [simp]:
  "max_subnets (snd (add_provider ord c r)) = max_subnets c"
  "pinned_subnets (snd (add_provider ord c r)) = pinned_subnets c"
  "routable_peers (snd (add_provider ord c r)) = routable_peers c"
  by (simp_all add: add_provider_def prune_subnets_def Let_def split_beta)

lemma fold_set_unroutable [simp]:
  "max_subnets (fold set_unroutable ps c) = max_subnets c"
  "pinned_subnets (fold set_unroutable ps c) = pinned_subnets c"
  "routable_peers (fold set_unroutable ps c) = routable_peers c - set ps"
  "dom (subnet_providers (fold set_unroutable ps c)) = dom (subnet_providers c)"
  "set_at (subnet_providers (fold set_unroutable ps c)) s = set_at (subnet_providers c) s - set ps"
  "peer_timestamps (fold set_unroutable ps c) = peer_timestamps c |` (- set ps)"
  by (induction ps arbitrary: c) (auto simp: restrict_map_def fun_eq_iff)

lemma card_after_pruning:
  assumes "finite D" and "R \<subseteq> D - P" and "card R = min (card D - n) (card (D - P))"
  shows "card (D - R) \<le> max n (card ((D - R) \<inter> P))"
proof -
  have fin: "finite R"
    using assms(1,2) by (meson finite_Diff rev_finite_subset)
  have D: "card (D - R) = card D - card R"
    using assms fin by (intro card_Diff_subset) auto
  show ?thesis
  proof (cases "card D - n \<le> card (D - P)")
    case True
    with D assms(3) show ?thesis by simp
  next
    case False
    with assms have "R = D - P"
      by (intro card_subset_eq) auto
    then have "(D - R) \<inter> P = D - R" by auto
    then show ?thesis by simp
  qed
qed

lemma cache_bounded_add_provider:
  assumes "hash_order ord" and "cache_inv c" and "cache_bounded c"
  shows "cache_bounded (snd (add_provider ord c r))"
  using assms(1,2)
proof (cases rule: add_provider_cases [of ord c r])
  case (fresh R d)
  have "finite (dom (subnet_providers c) \<union> set (pr_subnet_ids r))"
    using assms(2) by (simp add: cache_inv_def)
  from card_after_pruning [OF this fresh(4,5)] fresh(3) show ?thesis
    by (simp add: cache_bounded_def Diff_eq)
qed (use assms in \<open>simp_all add: cache_bounded_def\<close>)

lemma cache_bounded_step:
  assumes "cache_step c l c'" and "\<forall>s. l \<noteq> Unpin_Subnet s"
    and "cache_inv c" and "cache_bounded c"
  shows "cache_bounded c'"
  using assms(1)
proof (cases rule: cache_step.cases)
  case (pin s)
  have "card (dom (subnet_providers c) \<inter> pinned_subnets c) \<le>
      card (dom (subnet_providers c) \<inter> insert s (pinned_subnets c))"
    using assms(3) by (intro card_mono) (auto simp: cache_inv_def)
  with assms(4) pin show ?thesis
    by (simp add: cache_bounded_def pin_subnet_def)
qed (use assms(2-4) cache_bounded_add_provider in
    \<open>simp_all add: cache_bounded_def set_routable_def prune_providers_def Let_def\<close>)

lemma max_subnets_step: "cache_step c l c' \<Longrightarrow> max_subnets c' = max_subnets c"
  by (erule cache_stepE)
    (simp_all add: prune_providers_def Let_def pin_subnet_def unpin_subnet_def set_routable_def)

interpretation bounded_cache: invariant_system cache_step "\<lambda>l. \<forall>s. l \<noteq> Unpin_Subnet s"
  "\<lambda>c. cache_inv c \<and> cache_bounded c \<and> max_subnets c = n"
  by unfold_locales (metis cache_inv_step cache_bounded_step max_subnets_step)

lemma dom_add_provider_pinned:
  assumes "hash_order ord" and "cache_inv c" and "s \<in> pinned_subnets c"
    and "s \<in> dom (subnet_providers c)"
  shows "s \<in> dom (subnet_providers (snd (add_provider ord c r)))"
  using assms(1,2) by (cases rule: add_provider_cases [of ord c r]) (use assms(3,4) in auto)

lemma pinned_step:
  "cache_step c l c' \<Longrightarrow> l \<noteq> Unpin_Subnet s \<Longrightarrow> cache_inv c \<Longrightarrow> s \<in> pinned_subnets c \<Longrightarrow>
   s \<in> dom (subnet_providers c) \<Longrightarrow> s \<in> pinned_subnets c' \<and> s \<in> dom (subnet_providers c')"
  by (erule cache_step.cases)
    (simp_all add: dom_add_provider_pinned pin_subnet_def unpin_subnet_def set_routable_def
      prune_providers_def Let_def)

text \<open>A pinned subnet that is tracked stays tracked until it is unpinned.\<close>

interpretation pinned_subnet: invariant_system cache_step "\<lambda>l. l \<noteq> Unpin_Subnet s"
  "\<lambda>c. cache_inv c \<and> s \<in> pinned_subnets c \<inter> dom (subnet_providers c)"
  by unfold_locales (metis IntD1 IntD2 IntI cache_inv_step pinned_step)

lemma newest_record_step:
  assumes "cache_step c l c'" and "l \<noteq> Set_Unroutable p" and "\<forall>cutoff. l = Prune_Providers cutoff \<longrightarrow> cutoff \<le> t"
    and "cache_inv c" and "\<exists>t'. peer_timestamps c p = Some t' \<and> t \<le> t'"
  shows "\<exists>t'. peer_timestamps c' p = Some t' \<and> t \<le> t'"
  using assms(1)
proof (cases rule: cache_step.cases)
  case (add ord r)
  from add(3) assms(4) show ?thesis
    by (cases rule: add_provider_cases [of ord c r]) (use add(2) assms(5) in auto)
next
  case (prune ord cutoff)
  obtain t' where "peer_timestamps c p = Some t'" "t \<le> t'"
    using assms(5) by blast
  moreover from this have "\<not> known_timestamp c p < cutoff"
    using assms(3) prune(1) by (auto simp: not_less)
  ultimately show ?thesis
    using prune(2) by (simp add: prune_providers_def Let_def restrict_map_def)
qed (use assms(2,5) in \<open>auto simp: cache_op_defs\<close>)

text \<open>The newest record of a peer is remembered until the peer becomes unroutable or is pruned.\<close>

interpretation newest_record: invariant_system cache_step
  "\<lambda>l. l \<noteq> Set_Unroutable p \<and> (\<forall>cutoff. l = Prune_Providers cutoff \<longrightarrow> cutoff \<le> t)"
  "\<lambda>c. cache_inv c \<and> (\<exists>t'. peer_timestamps c p = Some t' \<and> t \<le> t')"
  by unfold_locales (metis cache_inv_step newest_record_step)

section \<open>Refinement of the directory\<close>

lemma set_at_directory:
  "cache_inv c \<Longrightarrow>
   set_at (subnet_providers c) s = {p. \<exists>t ss. directory_of c p = Some (t, ss) \<and> s \<in> ss}"
  by (fastforce simp: cache_inv_def directory_of_def)

lemma directory_add_provider:
  assumes "hash_order ord" and "cache_inv c" and "pr_peer_id r \<in> routable_peers c"
    and "card (dom (subnet_providers c) \<union> set (pr_subnet_ids r)) \<le> max_subnets c"
  shows "directory_of (snd (add_provider ord c r)) = register r (directory_of c)"
  using assms(1,2)
proof (cases rule: add_provider_cases [of ord c r])
  case (fresh R d)
  have "finite (dom (subnet_providers c) \<union> set (pr_subnet_ids r))"
    using assms(2) by (simp add: cache_inv_def)
  with fresh(4,5) assms(4) have "R = {}"
    by (metis (no_types, lifting) card_0_eq diff_is_0_eq finite_Diff finite_subset min_0L)
  with fresh show ?thesis
    by (cases "peer_timestamps c (pr_peer_id r)")
      (auto simp: directory_of_def register_def fun_eq_iff known_timestamp_def Let_def)
next
  case stale
  have "set_at (subnet_providers c) s \<subseteq> dom (peer_timestamps c)" for s
    using assms(2) by (simp add: cache_inv_def)
  then have "peer_timestamps c p = None \<Longrightarrow> p \<notin> set_at (subnet_providers c) s" for s p
    by blast
  with stale show ?thesis
    by (cases "peer_timestamps c (pr_peer_id r)")
      (auto simp: directory_of_def register_def fun_eq_iff known_timestamp_def Let_def)
qed (use assms in simp)

lemma directory_set_routable [simp]: "directory_of (set_routable p c) = directory_of c"
  by (simp add: directory_of_def set_routable_def)

lemma directory_fold_unroutable:
  "directory_of (fold set_unroutable ps c) = directory_of c |` (- set ps)"
  by (auto simp: directory_of_def restrict_map_def fun_eq_iff)

lemma finite_timestamps: "cache_inv c \<Longrightarrow> finite (dom (peer_timestamps c))"
  unfolding cache_inv_def by (meson finite_subset)

lemma set_fst_prune_providers:
  assumes "hash_order ord" and "cache_inv c"
  shows "set (fst (prune_providers ord t c)) =
    {p. \<exists>t' ss. directory_of c p = Some (t', ss) \<and> t' < t}"
  using assms finite_timestamps [OF assms(2)]
  by (auto simp: prune_providers_def Let_def directory_of_def known_timestamp_def
      split: option.splits)

lemma directory_prune_providers:
  assumes "hash_order ord" and "cache_inv c"
  shows "directory_of (snd (prune_providers ord t c)) p =
    (case directory_of c p of None \<Rightarrow> None
     | Some (t', ss) \<Rightarrow> if t' < t then None else Some (t', ss))"
proof -
  have "directory_of (snd (prune_providers ord t c)) =
      directory_of c |` (- set (fst (prune_providers ord t c)))"
    by (simp add: prune_providers_def Let_def directory_fold_unroutable)
  then show ?thesis
    using set_fst_prune_providers [OF assms, of t]
    by (cases "directory_of c p") (auto simp: restrict_map_def)
qed

section \<open>Replayed records\<close>

lemma replay_simps [simp]:
  "replay ord [] c = c"
  "replay ord (rs @ [r]) c =
     snd (add_provider ord (set_routable (pr_peer_id r) (replay ord rs c)) r)"
  by (simp_all add: replay_def)

lemma set_routable_fields [simp]:
  "subnet_providers (set_routable p c) = subnet_providers c"
  "max_subnets (set_routable p c) = max_subnets c"
  "routable_peers (set_routable p c) = insert p (routable_peers c)"
  "pinned_subnets (set_routable p c) = pinned_subnets c"
  by (simp_all add: set_routable_def)

lemma max_subnets_replay [simp]: "max_subnets (replay ord rs c) = max_subnets c"
  by (induction rs rule: rev_induct) simp_all

lemma cache_inv_replay: "hash_order ord \<Longrightarrow> cache_inv c \<Longrightarrow> cache_inv (replay ord rs c)"
  by (induction rs rule: rev_induct) (simp_all add: cache_inv_add_provider cache_inv_set_routable)

lemma dom_add_provider_subset:
  assumes "hash_order ord" and "cache_inv c"
  shows "dom (subnet_providers (snd (add_provider ord c r))) \<subseteq>
    dom (subnet_providers c) \<union> set (pr_subnet_ids r)"
  using assms by (cases rule: add_provider_cases [of ord c r]) auto

lemma dom_replay_subset:
  "hash_order ord \<Longrightarrow>
   dom (subnet_providers (replay ord rs (cache_new n ss))) \<subseteq> (\<Union>r \<in> set rs. set (pr_subnet_ids r))"
proof (induction rs rule: rev_induct)
  case (snoc r rs)
  let ?c = "set_routable (pr_peer_id r) (replay ord rs (cache_new n ss))"
  have "cache_inv ?c"
    by (intro cache_inv_set_routable cache_inv_replay cache_inv_new snoc.prems)
  from dom_add_provider_subset [OF snoc.prems this, of r] snoc show ?case
    by fastforce
qed (simp add: cache_new_def)

lemma directory_replay:
  assumes "hash_order ord" and "card (\<Union>r \<in> set rs. set (pr_subnet_ids r)) \<le> n"
  shows "directory_of (replay ord rs (cache_new n ss)) = fold register rs Map.empty"
  using assms(2)
proof (induction rs rule: rev_induct)
  case (snoc r rs)
  let ?c = "set_routable (pr_peer_id r) (replay ord rs (cache_new n ss))"
  have le: "card A \<le> n" if "A \<subseteq> (\<Union>r \<in> set (rs @ [r]). set (pr_subnet_ids r))" for A
    using card_mono [OF _ that] snoc.prems by fastforce
  have inv: "cache_inv ?c"
    by (intro cache_inv_set_routable cache_inv_replay cache_inv_new assms(1))
  have "directory_of (snd (add_provider ord ?c r)) = register r (directory_of ?c)"
  proof (rule directory_add_provider [OF assms(1) inv])
    show "card (dom (subnet_providers ?c) \<union> set (pr_subnet_ids r)) \<le> max_subnets ?c"
      using le [of "dom (subnet_providers ?c) \<union> set (pr_subnet_ids r)"]
        dom_replay_subset [OF assms(1), of rs n ss] by (auto simp: cache_new_def)
  qed simp
  moreover have "card (\<Union>r \<in> set rs. set (pr_subnet_ids r)) \<le> n"
    by (rule le) auto
  ultimately show ?case
    by (simp add: snoc.IH)
qed (simp add: directory_of_def cache_new_def)

lemma max_timestamp_snoc [simp]:
  "max_timestamp p [] = default_timestamp"
  "max_timestamp p (rs @ [r]) =
     (if pr_peer_id r = p \<and> max_timestamp p rs < pr_timestamp r then pr_timestamp r
      else max_timestamp p rs)"
  by (simp_all add: max_timestamp_def)

lemma max_timestamp_ge: "r \<in> set rs \<Longrightarrow> pr_peer_id r = p \<Longrightarrow> pr_timestamp r \<le> max_timestamp p rs"
  by (induction rs rule: rev_induct) (auto split: if_splits)

lemma max_timestamp_attained:
  "max_timestamp p rs = bot \<or> (\<exists>r \<in> set rs. pr_peer_id r = p \<and> pr_timestamp r = max_timestamp p rs)"
  by (induction rs rule: rev_induct) auto

lemma find_snoc: "find P (xs @ [x]) = (case find P xs of None \<Rightarrow> if P x then Some x else None | Some y \<Rightarrow> Some y)"
  by (induction xs) auto

lemma register_apply:
  "register r dir p =
     (if p = pr_peer_id r
      then let (t, ss) = (case dir p of None \<Rightarrow> (bot, {}) | Some e \<Rightarrow> e)
           in Some (if t < pr_timestamp r then (pr_timestamp r, set (pr_subnet_ids r)) else (t, ss))
      else dir p)"
  by (simp add: register_def Let_def split_beta)

text \<open>The newest record of a peer, the first one among those with equal timestamps.\<close>

lemma fold_register:
  fixes rs :: "('sid, 'peer) provider_record list"
  assumes "\<forall>r \<in> set rs. bot < pr_timestamp r"
  shows "fold register rs Map.empty p =
    map_option (\<lambda>r. (max_timestamp p rs, set (pr_subnet_ids r)))
      (find (\<lambda>r. pr_peer_id r = p \<and> pr_timestamp r = max_timestamp p rs) rs)"
  using assms
proof (induction rs rule: rev_induct)
  case (snoc r rs)
  let ?found = "\<lambda>t. find (\<lambda>r. pr_peer_id r = p \<and> pr_timestamp r = t) rs"
  define D :: "('sid, 'peer) directory" where "D = fold register rs Map.empty"
  have fold: "fold register (rs @ [r]) Map.empty p = register r D p"
    by (simp add: D_def)
  have IH: "D p =
      map_option (\<lambda>r. (max_timestamp p rs, set (pr_subnet_ids r))) (?found (max_timestamp p rs))"
    using snoc by (simp add: D_def)
  have newer: "?found t = None" if "max_timestamp p rs < t" for t
    using that max_timestamp_ge [of _ rs p] by (fastforce simp: find_None_iff)
  show ?case
  proof (cases "?found (max_timestamp p rs)")
    case None
    then have "max_timestamp p rs = bot"
      using max_timestamp_attained [of p rs] by (auto simp: find_None_iff)
    with None snoc.prems IH newer show ?thesis
      unfolding fold by (auto simp: register_apply find_snoc)
  next
    case (Some r')
    with snoc.prems IH newer show ?thesis
      unfolding fold by (auto simp: register_apply find_snoc)
  qed
qed simp

lemma providers_replay:
  assumes "hash_order ord" and "card (\<Union>r \<in> set rs. set (pr_subnet_ids r)) \<le> n"
    and "\<forall>r \<in> set rs. bot < pr_timestamp r"
  shows "set_at (subnet_providers (replay ord rs (cache_new n ss))) s = build_providers rs s"
proof -
  have "cache_inv (replay ord rs (cache_new n ss))"
    by (intro cache_inv_replay cache_inv_new assms(1))
  from set_at_directory [OF this] show ?thesis
    by (auto simp: directory_replay [OF assms(1,2)] fold_register [OF assms(3)] build_providers_def)
qed

lemma max_timestamp_filter:
  "max_timestamp p (filter (\<lambda>r. t \<le> pr_timestamp r) rs) =
     (if t \<le> max_timestamp p rs then max_timestamp p rs else bot)"
  by (induction rs rule: rev_induct) (auto simp: not_le intro: antisym)

lemma find_filter_newest:
  assumes "t \<le> m"
  shows "find (\<lambda>r. pr_peer_id r = p \<and> pr_timestamp r = m) (filter (\<lambda>r. t \<le> pr_timestamp r) rs) =
    find (\<lambda>r. pr_peer_id r = p \<and> pr_timestamp r = m) rs"
  using assms by (induction rs) auto

lemma build_providers_filter:
  assumes "\<forall>r \<in> set rs. bot < pr_timestamp r"
  shows "build_providers (filter (\<lambda>r. t \<le> pr_timestamp r) rs) s =
    {p \<in> build_providers rs s. t \<le> max_timestamp p rs}"
proof -
  have "find (\<lambda>r. pr_peer_id r = p \<and> pr_timestamp r = bot) (filter (\<lambda>r. t \<le> pr_timestamp r) rs) = None"
    for p
    using assms by (auto simp: find_None_iff)
  then show ?thesis
    by (auto simp: build_providers_def max_timestamp_filter find_filter_newest)
qed

lemma providers_of_subnet_set:
  assumes "hash_order ord" and "cache_inv c"
  shows "set (providers_of_subnet ord c s) = set_at (subnet_providers c) s"
    and "distinct (providers_of_subnet ord c s)"
proof -
  have "finite (set_at (subnet_providers c) s)"
    using finite_timestamps [OF assms(2)] assms(2) unfolding cache_inv_def by (meson finite_subset)
  with assms(1) show "set (providers_of_subnet ord c s) = set_at (subnet_providers c) s"
    "distinct (providers_of_subnet ord c s)"
    by (cases "subnet_providers c s"; simp add: providers_of_subnet_def)+
qed

lemma providers_pruned_replay:
  assumes "hash_order ord" and "hash_order ord'"
    and "card (\<Union>r \<in> set rs. set (pr_subnet_ids r)) \<le> n"
    and pos: "\<forall>r \<in> set rs. bot < pr_timestamp r"
  shows "set_at (subnet_providers (snd (prune_providers ord' t (replay ord rs (cache_new n ss))))) s =
    build_providers (filter (\<lambda>r. t \<le> pr_timestamp r) rs) s"
proof -
  let ?c = "replay ord rs (cache_new n ss)"
  have inv: "cache_inv ?c"
    by (intro cache_inv_replay cache_inv_new assms(1))
  have "set_at (subnet_providers (snd (prune_providers ord' t ?c))) s =
      set_at (subnet_providers ?c) s - set (fst (prune_providers ord' t ?c))"
    by (simp add: prune_providers_def Let_def)
  also have "\<dots> = {p \<in> build_providers rs s. t \<le> max_timestamp p rs}"
    by (auto simp: set_fst_prune_providers [OF assms(2) inv] providers_replay [OF assms(1,3) pos]
        directory_replay [OF assms(1,3)] fold_register [OF pos] build_providers_def)
  finally show ?thesis
    by (simp add: build_providers_filter [OF pos])
qed

lemma run_add: "hash_order ord \<Longrightarrow> runs cache_step c [Add_Provider r] (snd (add_provider ord c r))"
  by (rule runs_one) (rule add)

lemma run_routable_add:
  "hash_order ord \<Longrightarrow>
   runs cache_step c [Set_Routable p, Add_Provider r] (snd (add_provider ord (set_routable p c) r))"
  by (rule runs_Cons [where t = "set_routable p c"]) (auto intro: routable run_add)

section \<open>Properties\<close>

text \<open>
  In every state the public operations can reach from an empty cache, whatever the iteration
  order of the hash tables, only routable peers have a timestamp and only peers with a timestamp
  are listed as providers of a subnet.
\<close>

theorem cache_reachable_inv:
  assumes "runs cache_step (cache_new n ss) ops c"
  shows "cache_inv c"
  using cache.runs_inv [OF assms] by (auto simp: list_all_iff)

theorem cache_reachable_inv_witness:
  "cache_inv (snd (add_provider sorted_list_of_set (set_routable (1 :: nat) (cache_new 2 [7 :: nat]))
     \<lparr>pr_peer_id = 1, pr_subnet_ids = [7, 8], pr_timestamp = Timestamp 5\<rparr>))"
  by (rule cache_reachable_inv [OF run_routable_add [OF hash_order_sorted_list]])

text \<open>
  C13. As long as no subnet is unpinned, the number of subnets in the cache is at most
  \<open>max_subnets\<close>, or all tracked subnets beyond it are pinned.
\<close>

theorem cache_reachable_bounded:
  assumes "runs cache_step (cache_new n ss) ops c" and "\<forall>s. Unpin_Subnet s \<notin> set ops"
  shows "card (dom (subnet_providers c)) \<le>
    max n (card (dom (subnet_providers c) \<inter> pinned_subnets c))"
proof -
  have "cache_inv c \<and> cache_bounded c \<and> max_subnets c = n"
    by (rule bounded_cache.runs_inv [OF assms(1)])
      (use assms(2) in \<open>auto simp: list_all_iff cache_bounded_def cache_new_def cache_inv_def\<close>)
  then show ?thesis
    by (auto simp: cache_bounded_def)
qed

theorem cache_reachable_bounded_witness:
  "card (dom (subnet_providers (snd (add_provider sorted_list_of_set
       (set_routable (1 :: nat) (cache_new 1 []))
       \<lparr>pr_peer_id = 1, pr_subnet_ids = [7 :: nat, 8], pr_timestamp = Timestamp 5\<rparr>)))) \<le> 1"
  using cache_reachable_bounded
    [OF run_routable_add [OF hash_order_sorted_list, of "cache_new 1 []" "1 :: nat"
        "\<lparr>pr_peer_id = 1, pr_subnet_ids = [7 :: nat, 8], pr_timestamp = Timestamp 5\<rparr>"]]
  by (simp add: cache_new_def)

text \<open>
  C36. A pinned subnet that is tracked is never pruned: it is still tracked after any sequence of
  operations that does not unpin it.
\<close>

theorem pinned_never_pruned:
  assumes "runs cache_step c ops c'" and "cache_inv c"
    and "s \<in> pinned_subnets c" and "s \<in> dom (subnet_providers c)"
    and "Unpin_Subnet s \<notin> set ops"
  shows "s \<in> dom (subnet_providers c')"
  using pinned_subnet.runs_inv [OF assms(1), of s] assms by (auto simp: list_all_iff)

theorem pinned_never_pruned_witness:
  "(7 :: nat) \<in> dom (subnet_providers (snd (add_provider sorted_list_of_set
     \<lparr>max_subnets = 1, pinned_subnets = {7}, routable_peers = {1 :: nat},
      subnet_providers = [7 \<mapsto> {}], peer_timestamps = Map.empty\<rparr>
     \<lparr>pr_peer_id = 1, pr_subnet_ids = [8, 9], pr_timestamp = Timestamp 5\<rparr>)))"
  by (rule pinned_never_pruned [OF run_add [OF hash_order_sorted_list]])
    (auto simp: cache_inv_def)

text \<open>
  C21. A fresh record of a routable peer: the peer becomes a provider of exactly the announced
  subnets; the subnets dropped afterwards are never pinned ones, as many as exceed the maximum (or
  all unpinned ones), and none of them has more providers than an unpinned subnet that is kept.
\<close>

theorem add_provider_fresh_effect:
  assumes "hash_order ord" and "cache_inv c" and "pr_peer_id r \<in> routable_peers c"
    and "known_timestamp c (pr_peer_id r) < pr_timestamp r"
  shows "let m = announced (pr_peer_id r) (set (pr_subnet_ids r)) (subnet_providers c);
             m' = subnet_providers (snd (add_provider ord c r));
             dropped = dom m - dom m'
    in m' = m |` (- dropped) \<and> dropped \<inter> pinned_subnets c = {} \<and>
       card dropped = min (card (dom m) - max_subnets c) (card (dom m - pinned_subnets c)) \<and>
       (\<forall>x \<in> dropped. \<forall>k \<in> dom m' - pinned_subnets c. card (set_at m x) \<le> card (set_at m k))"
proof -
  let ?m = "announced (pr_peer_id r) (set (pr_subnet_ids r)) (subnet_providers c)"
  have "finite (dom (subnet_providers c))"
    using assms(2) by (simp add: cache_inv_def)
  from assms(1) this assms(3,4) obtain R d where R:
    "add_provider ord c r = (Some d, c\<lparr>subnet_providers := ?m |` (- R),
       peer_timestamps := (peer_timestamps c)(pr_peer_id r \<mapsto> pr_timestamp r)\<rparr>)"
    "R \<subseteq> dom ?m - pinned_subnets c"
    "card R = min (card (dom ?m) - max_subnets c) (card (dom ?m - pinned_subnets c))"
    "\<And>x k. x \<in> R \<Longrightarrow> k \<in> dom ?m - pinned_subnets c - R \<Longrightarrow> card (set_at ?m x) \<le> card (set_at ?m k)"
    by (rule add_provider_fresh) (simp only: dom_announced)
  then have dropped: "dom ?m - dom (subnet_providers (snd (add_provider ord c r))) = R"
    by auto
  have kept: "dom (subnet_providers (snd (add_provider ord c r))) = dom ?m - R"
    using R(1) by (auto simp del: dom_announced)
  have "R \<inter> pinned_subnets c = {}"
    using R(2) by blast
  moreover have "\<forall>x \<in> R. \<forall>k \<in> dom ?m - R - pinned_subnets c. card (set_at ?m x) \<le> card (set_at ?m k)"
    using R(4) by blast
  ultimately show ?thesis
    unfolding Let_def dropped unfolding kept using R(1,3) by simp
qed

theorem add_provider_fresh_effect_witness:
  "card ({7, 8} - dom (subnet_providers (snd (add_provider sorted_list_of_set
       (set_routable (1 :: nat) (cache_new 1 []))
       \<lparr>pr_peer_id = 1, pr_subnet_ids = [7 :: nat, 8], pr_timestamp = Timestamp 5\<rparr>)))) = 1"
proof -
  let ?c = "set_routable (1 :: nat) (cache_new 1 [] :: (nat, nat) subnet_provider_cache)"
  let ?r = "\<lparr>pr_peer_id = 1 :: nat, pr_subnet_ids = [7 :: nat, 8], pr_timestamp = Timestamp 5\<rparr>"
  have "cache_inv ?c" by auto
  moreover have "known_timestamp ?c (pr_peer_id ?r) < pr_timestamp ?r"
    by (simp add: known_timestamp_def set_routable_def cache_new_def less_timestamp_def)
  ultimately have "cache_inv ?c" "known_timestamp ?c (pr_peer_id ?r) < pr_timestamp ?r" .
  from add_provider_fresh_effect [OF hash_order_sorted_list this(1) _ this(2)]
  have "card (dom (subnet_providers ?c) \<union> {7, 8} -
      dom (subnet_providers (snd (add_provider sorted_list_of_set ?c ?r)))) =
      min (card (dom (subnet_providers ?c) \<union> {7, 8}) - 1) (card (dom (subnet_providers ?c) \<union> {7, 8}))"
    by (simp add: Let_def cache_new_def)
  then show ?thesis
    by (simp add: cache_new_def)
qed

text \<open>
  The delta returned for a fresh record: \<open>added\<close> lists once each subnet that gained the peer,
  \<open>removed\<close> lists once each subnet the peer no longer supports, and \<open>is_new\<close> tells that the peer had
  no timestamp. A subnet that lost the peer without being listed was pruned.
\<close>

theorem add_provider_delta_exact:
  assumes "hash_order ord" and "cache_inv c" and "pr_peer_id r \<in> routable_peers c"
    and "known_timestamp c (pr_peer_id r) < pr_timestamp r"
  shows "\<exists>d c'. add_provider ord c r = (Some d, c') \<and>
    (pd_is_new d \<longleftrightarrow> \<not> has_timestamp c (pr_peer_id r)) \<and>
    distinct (pd_added d) \<and> distinct (pd_removed d) \<and>
    set (pd_added d) = {s. pr_peer_id r \<notin> set_at (subnet_providers c) s \<and>
                           pr_peer_id r \<in> set_at (subnet_providers c') s} \<and>
    set (pd_removed d) = {s. pr_peer_id r \<in> set_at (subnet_providers c) s \<and>
                             s \<notin> set (pr_subnet_ids r)} \<and>
    (\<forall>s \<in> dom (subnet_providers c').
       pr_peer_id r \<in> set_at (subnet_providers c) s \<and>
       pr_peer_id r \<notin> set_at (subnet_providers c') s \<longrightarrow> s \<in> set (pd_removed d))"
proof -
  have fin: "finite (dom (subnet_providers c))"
    using assms(2) by (simp add: cache_inv_def)
  show ?thesis
  proof (rule add_provider_fresh [OF assms(1) fin assms(3,4)])
    fix R d
    assume d: "add_provider ord c r =
       (Some d, c\<lparr>subnet_providers :=
                    announced (pr_peer_id r) (set (pr_subnet_ids r)) (subnet_providers c) |` (- R),
                  peer_timestamps := (peer_timestamps c)(pr_peer_id r \<mapsto> pr_timestamp r)\<rparr>)"
      "pd_is_new d \<longleftrightarrow> \<not> has_timestamp c (pr_peer_id r)"
      "set (pd_added d) =
         {s \<in> set (pr_subnet_ids r). pr_peer_id r \<notin> set_at (subnet_providers c) s} - R"
      "distinct (pd_added d)"
      "set (pd_removed d) =
         {s. s \<notin> set (pr_subnet_ids r) \<and> pr_peer_id r \<in> set_at (subnet_providers c) s}"
      "distinct (pd_removed d)"
    then show ?thesis
      by (intro exI [of _ d] exI [of _ "snd (add_provider ord c r)"]) (auto split: if_splits)
  qed
qed

theorem add_provider_delta_exact_witness:
  "\<exists>d. fst (add_provider sorted_list_of_set (set_routable (1 :: nat) (cache_new 5 []))
     \<lparr>pr_peer_id = 1, pr_subnet_ids = [7 :: nat, 8], pr_timestamp = Timestamp 5\<rparr>) = Some d \<and>
     pd_is_new d \<and> set (pd_removed d) = {}"
proof -
  let ?c = "set_routable (1 :: nat) (cache_new 5 [] :: (nat, nat) subnet_provider_cache)"
  let ?r = "\<lparr>pr_peer_id = 1 :: nat, pr_subnet_ids = [7 :: nat, 8], pr_timestamp = Timestamp 5\<rparr>"
  have "cache_inv ?c" by auto
  moreover have "known_timestamp ?c (pr_peer_id ?r) < pr_timestamp ?r"
    by (simp add: known_timestamp_def set_routable_def cache_new_def less_timestamp_def)
  ultimately have "cache_inv ?c" "known_timestamp ?c (pr_peer_id ?r) < pr_timestamp ?r" .
  from add_provider_delta_exact [OF hash_order_sorted_list this(1) _ this(2)]
  show ?thesis
    by (fastforce simp: cache_new_def set_routable_def has_timestamp_def)
qed

text \<open>
  A record of a peer that is not routable is refused with \<open>None\<close> and changes nothing; a record
  that is not newer than the last one of its peer is answered with an empty delta and leaves the
  providers of every subnet as they are.
\<close>

theorem add_provider_ignored:
  assumes "pr_peer_id r \<notin> routable_peers c \<or>
    \<not> known_timestamp c (pr_peer_id r) < pr_timestamp r"
  shows "subnet_providers (snd (add_provider ord c r)) = subnet_providers c \<and>
    (fst (add_provider ord c r) = None \<longleftrightarrow> pr_peer_id r \<notin> routable_peers c) \<and>
    (fst (add_provider ord c r) = None \<longrightarrow> snd (add_provider ord c r) = c) \<and>
    (\<forall>d. fst (add_provider ord c r) = Some d \<longrightarrow> delta_is_empty d)"
  using assms
  by (cases "pr_peer_id r \<in> routable_peers c")
    (auto simp: add_provider_unroutable add_provider_stale delta_is_empty_def)

theorem add_provider_ignored_witness:
  "fst (add_provider sorted_list_of_set (cache_new 5 [])
     \<lparr>pr_peer_id = 1 :: nat, pr_subnet_ids = [7 :: nat, 8], pr_timestamp = Timestamp 5\<rparr>) = None"
  using add_provider_ignored
    [of "\<lparr>pr_peer_id = 1 :: nat, pr_subnet_ids = [7 :: nat, 8], pr_timestamp = Timestamp 5\<rparr>"
      "cache_new 5 []" sorted_list_of_set]
  by (simp add: cache_new_def)

text \<open>
  C37. Records cannot be replayed: once a record of a peer has been accepted, a record of the same
  peer that is not newer changes no provider of any subnet, whatever happened in between, until the
  peer becomes unroutable or is pruned with a cutoff after its record.
\<close>

theorem replayed_record_ignored:
  assumes "runs cache_step c ops c'" and "cache_inv c" and "peer_timestamps c (pr_peer_id r) = Some t"
    and "Set_Unroutable (pr_peer_id r) \<notin> set ops" and "\<forall>cutoff. Prune_Providers cutoff \<in> set ops \<longrightarrow> cutoff \<le> t"
    and "pr_timestamp r \<le> t"
  shows "subnet_providers (snd (add_provider ord c' r)) = subnet_providers c' \<and>
    (\<exists>d. fst (add_provider ord c' r) = Some d \<and> delta_is_empty d)"
proof -
  have "list_all (\<lambda>l. l \<noteq> Set_Unroutable (pr_peer_id r) \<and> (\<forall>cutoff. l = Prune_Providers cutoff \<longrightarrow> cutoff \<le> t)) ops"
    using assms(4,5) by (auto simp: list_all_iff)
  from newest_record.runs_inv [OF assms(1) this] assms(2,3)
  have "cache_inv c'" "\<exists>t'. peer_timestamps c' (pr_peer_id r) = Some t' \<and> t \<le> t'"
    by auto
  then obtain t' where t': "peer_timestamps c' (pr_peer_id r) = Some t'" "t \<le> t'"
    by blast
  then have "pr_peer_id r \<in> routable_peers c'"
    using \<open>cache_inv c'\<close> by (auto simp: cache_inv_def)
  then show ?thesis
    using add_provider_stale [of r c'] t' assms(6) by (auto simp: delta_is_empty_def)
qed

theorem replayed_record_ignored_witness:
  "subnet_providers (snd (add_provider sorted_list_of_set
       (pin_subnet 9 \<lparr>max_subnets = 5, pinned_subnets = {}, routable_peers = {1 :: nat},
          subnet_providers = [7 \<mapsto> {1}], peer_timestamps = [1 \<mapsto> Timestamp 5]\<rparr>)
       \<lparr>pr_peer_id = 1, pr_subnet_ids = [8 :: nat], pr_timestamp = Timestamp 5\<rparr>)) = [7 \<mapsto> {1}]"
  using replayed_record_ignored [OF runs_one [of cache_step, OF pin [of _ 9]],
      of "\<lparr>max_subnets = 5, pinned_subnets = {}, routable_peers = {1 :: nat},
          subnet_providers = [7 \<mapsto> {1}], peer_timestamps = [1 \<mapsto> Timestamp 5]\<rparr>"
        "\<lparr>pr_peer_id = 1, pr_subnet_ids = [8 :: nat], pr_timestamp = Timestamp 5\<rparr>" "Timestamp 5" sorted_list_of_set]
  by (auto simp: cache_inv_def pin_subnet_def split: if_splits)

text \<open>
  C35. Without pruning, adding a record to the cache implements the directory of newest records:
  it replaces the subnets of the peer when the record is newer than what is known.
\<close>

theorem add_provider_refines_register:
  assumes "hash_order ord" and "cache_inv c" and "pr_peer_id r \<in> routable_peers c"
    and "card (dom (subnet_providers c) \<union> set (pr_subnet_ids r)) \<le> max_subnets c"
  shows "directory_of (snd (add_provider ord c r)) = register r (directory_of c)"
  using assms by (rule directory_add_provider)

theorem add_provider_refines_register_witness:
  "directory_of (snd (add_provider sorted_list_of_set (set_routable (1 :: nat) (cache_new 5 []))
     \<lparr>pr_peer_id = 1, pr_subnet_ids = [7 :: nat, 8], pr_timestamp = Timestamp 5\<rparr>)) 1 =
   Some (Timestamp 5, {7, 8})"
  using add_provider_refines_register
    [of sorted_list_of_set "set_routable (1 :: nat) (cache_new 5 [])"
      "\<lparr>pr_peer_id = 1, pr_subnet_ids = [7 :: nat, 8], pr_timestamp = Timestamp 5\<rparr>"]
  by (simp add: hash_order_sorted_list cache_inv_set_routable cache_inv_new)
    (simp add: cache_new_def register_apply directory_of_def less_timestamp_def)

text \<open>
  A cache large enough for all announced subnets, fed with a sequence of records after making
  each peer routable, lists for every subnet exactly the providers of the reference of the unit
  tests (\<open>build_providers\<close>), each once, provided no record carries the timestamp 0.
\<close>

theorem replay_matches_reference:
  assumes "hash_order ord" and "hash_order ord'"
    and "card (\<Union>r \<in> set rs. set (pr_subnet_ids r)) \<le> n"
    and "\<forall>r \<in> set rs. Timestamp 0 < pr_timestamp r"
  shows "set (providers_of_subnet ord' (replay ord rs (cache_new n [])) s) = build_providers rs s \<and>
    distinct (providers_of_subnet ord' (replay ord rs (cache_new n [])) s)"
proof -
  have inv: "cache_inv (replay ord rs (cache_new n []))"
    by (intro cache_inv_replay cache_inv_new assms(1))
  have "\<forall>r \<in> set rs. bot < pr_timestamp r"
    using assms(4) by (simp add: bot_timestamp_def)
  then show ?thesis
    by (simp add: providers_of_subnet_set [OF assms(2) inv] providers_replay [OF assms(1,3)])
qed

theorem replay_matches_reference_witness:
  "set (providers_of_subnet sorted_list_of_set (replay sorted_list_of_set
     [\<lparr>pr_peer_id = 3 :: nat, pr_subnet_ids = [7 :: nat, 8], pr_timestamp = Timestamp 5\<rparr>,
      \<lparr>pr_peer_id = 3, pr_subnet_ids = [9], pr_timestamp = Timestamp 4\<rparr>] (cache_new 5 [])) 8) = {3}"
  using replay_matches_reference
    [OF hash_order_sorted_list hash_order_sorted_list, of
     "[\<lparr>pr_peer_id = 3 :: nat, pr_subnet_ids = [7 :: nat, 8], pr_timestamp = Timestamp 5\<rparr>,
      \<lparr>pr_peer_id = 3, pr_subnet_ids = [9], pr_timestamp = Timestamp 4\<rparr>]" 5 8]
  by (simp add: less_timestamp_def build_providers_def max_timestamp_def)

text \<open>
  Pruning with a cutoff timestamp leaves the providers of the reference built only from the
  records at or after the cutoff, and returns each removed peer once.
\<close>

theorem prune_matches_reference:
  assumes "hash_order ord" and "hash_order ord'"
    and "card (\<Union>r \<in> set rs. set (pr_subnet_ids r)) \<le> n"
    and "\<forall>r \<in> set rs. Timestamp 0 < pr_timestamp r"
  shows "set_at (subnet_providers (snd (prune_providers ord' t (replay ord rs (cache_new n []))))) s =
      build_providers (filter (\<lambda>r. t \<le> pr_timestamp r) rs) s \<and>
    distinct (fst (prune_providers ord' t (replay ord rs (cache_new n []))))"
proof -
  have "\<forall>r \<in> set rs. bot < pr_timestamp r"
    using assms(4) by (simp add: bot_timestamp_def)
  moreover have "finite (dom (peer_timestamps (replay ord rs (cache_new n []))))"
    by (intro finite_timestamps cache_inv_replay cache_inv_new assms(1))
  then have "distinct (fst (prune_providers ord' t (replay ord rs (cache_new n []))))"
    using assms(2) by (simp add: prune_providers_def Let_def)
  ultimately show ?thesis
    using providers_pruned_replay [OF assms(1-3)] by blast
qed

theorem prune_matches_reference_witness:
  "set_at (subnet_providers (snd (prune_providers sorted_list_of_set (Timestamp 5)
     (replay sorted_list_of_set
       [\<lparr>pr_peer_id = 3 :: nat, pr_subnet_ids = [7 :: nat, 8], pr_timestamp = Timestamp 5\<rparr>,
        \<lparr>pr_peer_id = 4, pr_subnet_ids = [7], pr_timestamp = Timestamp 4\<rparr>] (cache_new 5 []))))) 7 = {3}"
  using prune_matches_reference
    [OF hash_order_sorted_list hash_order_sorted_list, of
     "[\<lparr>pr_peer_id = 3 :: nat, pr_subnet_ids = [7 :: nat, 8], pr_timestamp = Timestamp 5\<rparr>,
      \<lparr>pr_peer_id = 4, pr_subnet_ids = [7], pr_timestamp = Timestamp 4\<rparr>]" 5 "Timestamp 5" 7]
  by (simp add: less_timestamp_def less_eq_timestamp_def build_providers_def max_timestamp_def)

end
