(* ===== verification/Outbox.thy ===== *)
theory Outbox
  imports Prelude
begin

text \<open>
  What the three network behaviours of the resolver share
  (\<^verbatim>\<open>src/ipld/resolver/src/behaviour/{membership,discovery,content}.rs\<close>): the value returned from
  \<open>poll\<close>, and the queue of own events that each of them emits before polling its inner behaviour.
\<close>

datatype ('ev, 'act) poll_result = Generate_Event 'ev | Forward 'act | Pending | Panic string

text \<open>\<open>VecDeque::pop_front\<close> on the outbox field, given by its selector and its update.\<close>

definition pop_outbox ::
  "('s \<Rightarrow> 'ev list) \<Rightarrow> ('ev list \<Rightarrow> 's \<Rightarrow> 's) \<Rightarrow> 's \<Rightarrow> ('ev \<times> 's) option" where
  "pop_outbox get put s = (case get s of [] \<Rightarrow> None | ev # evs \<Rightarrow> Some (ev, put evs s))"

fun poll_many ::
  "('i \<Rightarrow> 's \<Rightarrow> ('ev, 'act) poll_result \<times> 's) \<Rightarrow> 'i list \<Rightarrow> 's \<Rightarrow>
     ('ev, 'act) poll_result list \<times> 's" where
  "poll_many poll [] s = ([], s)"
| "poll_many poll (i # is) s =
     (let (r, s') = poll i s; (rs, s'') = poll_many poll is s' in (r # rs, s''))"

text \<open>
  The contract of a behaviour with an outbox: the selector and the update form a lens, and a poll
  on a state with a waiting event returns the first one and removes it, whatever the inputs of the
  poll are.
\<close>

locale outbox_behaviour =
  fixes get :: "'s \<Rightarrow> 'ev list"
    and put :: "'ev list \<Rightarrow> 's \<Rightarrow> 's"
    and poll :: "'i \<Rightarrow> 's \<Rightarrow> ('ev, 'act) poll_result \<times> 's"
  assumes get_put: "get (put evs s) = evs"
    and put_get: "put (get s) s = s"
    and put_put: "put evs (put evs' s) = put evs s"
    and poll_waiting: "pop_outbox get put s = Some (ev, s') \<Longrightarrow> poll i s = (Generate_Event ev, s')"
begin

lemma poll_first: "get s = ev # evs \<Longrightarrow> poll i s = (Generate_Event ev, put evs s)"
  by (rule poll_waiting) (simp add: pop_outbox_def)

text \<open>As many polls as there are waiting events deliver them all, in order, and change nothing else.\<close>

lemma poll_many_waiting:
  "length is = length (get s) \<Longrightarrow> poll_many poll is s = (map Generate_Event (get s), put [] s)"
proof (induction "is" arbitrary: s)
  case Nil
  then show ?case
    using put_get [of s] by simp
next
  case (Cons i "is")
  then obtain ev evs where "get s = ev # evs"
    by (cases "get s") auto
  with Cons show ?case
    by (simp add: poll_first get_put put_put)
qed

end

end
