(* ===== verification/Network.thy ===== *)
theory Network
  imports Prelude Transitions
begin

text \<open>
  What the network behaviours of the resolver see of \<open>libp2p\<close>: multiaddresses as lists of protocols,
  the connection events of the swarm, the network configuration of
  \<^verbatim>\<open>src/ipld/resolver/src/behaviour/mod.rs\<close>, and the contract of a behaviour that follows which
  peers are connected.
\<close>

section \<open>Addresses and events\<close>

datatype protocol =
    Ip4 u32
  | Ip6 "128 word"
  | P2p "u8 list"
  | Tcp u16
  | Udp u16
  | Other_Protocol string

type_synonym multiaddr = "protocol list"

datatype connected_point = Dialer multiaddr | Listener multiaddr

datatype ('peer, 'ev) swarm_event =
    ConnectionEstablished 'peer connected_point nat
  | ConnectionClosed 'peer nat
  | Other_Swarm_Event 'ev

record 'key network_config =
  nc_local_key :: 'key
  nc_network_name :: string

section \<open>Connections\<close>

text \<open>
  The swarm reports with every event how many other connections the peer has; \<open>n\<close> counts the open
  connections of each peer. Between two events, the behaviour may be called in any other way.
\<close>

datatype ('peer, 'ev, 'call) network_label = Swarm "('peer, 'ev) swarm_event" | Call 'call

inductive network_step ::
  "(('peer, 'ev) swarm_event \<Rightarrow> 's \<Rightarrow> 's) \<Rightarrow> ('call \<Rightarrow> 's \<Rightarrow> 's) \<Rightarrow> 's \<times> ('peer \<Rightarrow> nat) \<Rightarrow>
     ('peer, 'ev, 'call) network_label \<Rightarrow> 's \<times> ('peer \<Rightarrow> nat) \<Rightarrow> bool" for react call where
  established: "network_step react call (s, n) (Swarm (ConnectionEstablished p ep (n p)))
     (react (ConnectionEstablished p ep (n p)) s, n(p := Suc (n p)))"
| closed: "n p = Suc k \<Longrightarrow> network_step react call (s, n) (Swarm (ConnectionClosed p k))
     (react (ConnectionClosed p k) s, n(p := k))"
| other: "network_step react call (s, n) (Swarm (Other_Swarm_Event ev))
     (react (Other_Swarm_Event ev) s, n)"
| called: "network_step react call (s, n) (Call c) (call c s, n)"

text \<open>
  The contract: \<open>tracks s C\<close> says that the state \<open>s\<close> reflects that exactly the peers \<open>C\<close> are
  connected. The first connection of a peer and the closing of the last one change it, everything
  else keeps it.
\<close>

locale connection_observer =
  fixes react :: "('peer, 'ev) swarm_event \<Rightarrow> 's \<Rightarrow> 's"
    and call :: "'call \<Rightarrow> 's \<Rightarrow> 's"
    and tracks :: "'s \<Rightarrow> 'peer set \<Rightarrow> bool"
  assumes first_connection: "tracks s C \<Longrightarrow> finite C \<Longrightarrow> p \<notin> C \<Longrightarrow>
      tracks (react (ConnectionEstablished p ep 0) s) (insert p C)"
    and more_connections: "tracks s C \<Longrightarrow> tracks (react (ConnectionEstablished p ep (Suc k)) s) C"
    and last_connection: "tracks s C \<Longrightarrow> finite C \<Longrightarrow> p \<in> C \<Longrightarrow>
      tracks (react (ConnectionClosed p 0) s) (C - {p})"
    and fewer_connections: "tracks s C \<Longrightarrow> tracks (react (ConnectionClosed p (Suc k)) s) C"
    and other_event: "tracks s C \<Longrightarrow> tracks (react (Other_Swarm_Event ev) s) C"
    and calls: "tracks s C \<Longrightarrow> tracks (call c s) C"
begin

lemma step_tracks:
  assumes "network_step react call (s, n) l (t, m)" and "tracks s {p. n p > 0}" and "finite {p. n p > 0}"
  shows "tracks t {p. m p > 0} \<and> finite {p. m p > 0}"
  using assms(1)
proof cases
  case (established p ep)
  have "{q. m q > 0} = insert p {q. n q > 0}"
    using established by auto
  with established assms(2,3) show ?thesis
    using first_connection [of s "{q. n q > 0}" p ep] more_connections [of s "{q. n q > 0}" p ep]
    by (cases "n p") (auto simp: insert_absorb)
next
  case (closed p k)
  have "{q. m q > 0} = (if k = 0 then {q. n q > 0} - {p} else {q. n q > 0})"
    using closed by auto
  with closed assms(2,3) show ?thesis
    using last_connection [of s "{q. n q > 0}" p] fewer_connections [of s "{q. n q > 0}" p]
    by (cases k) auto
qed (use assms(2,3) other_event calls in auto)

sublocale invariant_system "network_step react call" "\<lambda>_. True"
  "\<lambda>(s, n). tracks s {p. n p > 0} \<and> finite {p. n p > 0}"
  by unfold_locales (auto dest: step_tracks)

lemma runs_tracks:
  "runs (network_step react call) (s, \<lambda>_. 0) ls (t, n) \<Longrightarrow> tracks s {} \<Longrightarrow>
   tracks t {p. n p > 0} \<and> finite {p. n p > 0}"
  using runs_inv [of "(s, \<lambda>_. 0)" ls "(t, n)"] by (auto simp: list_all_iff)

end

lemma run_first_connection:
  "runs (network_step react call) (s, \<lambda>_. 0) [Swarm (ConnectionEstablished p ep 0)]
     (react (ConnectionEstablished p ep 0) s, (\<lambda>_. 0)(p := Suc 0))"
  by (rule runs_one) (rule established [where n = "\<lambda>_. 0"])

text \<open>A predicate that every event and every call keeps holds along every run.\<close>

lemma network_invariant:
  assumes "\<And>ev s. P s \<Longrightarrow> P (react ev s)" and "\<And>c s. P s \<Longrightarrow> P (call c s)"
  shows "invariant_system (network_step react call) (\<lambda>_. True) (\<lambda>(s, n). P s)"
proof
  fix s l t
  assume "network_step react call s l t" and "case s of (s, n) \<Rightarrow> P s"
  then show "case t of (s, n) \<Rightarrow> P s"
    by cases (use assms in auto)
qed

end
