(* ===== verification/Metrics.thy ===== *)
theory Metrics
  imports Prelude
begin

text \<open>
  The metrics of \<^verbatim>\<open>src/ipld/resolver/src/stats.rs\<close>: what the resolver counts and measures, under which
  names, and how they are registered with a Prometheus registry.

  The statics of the source are global to the process; every one of them is changed by the code of one
  component only, so each component keeps the values of its own metrics in its state. An \<open>IntCounter\<close>
  is a \<open>u64\<close> and an \<open>IntGauge\<close> an \<open>i64\<close>, both wrap around: a value is a 64-bit word. A histogram
  keeps its observations, before they are converted to floating point. The registry is a parameter.
\<close>

section \<open>The metrics and their names\<close>

datatype metric =
    PING_RTT
  | PING_TIMEOUT
  | PING_FAILURE
  | PING_SUCCESS
  | IDENTIFY_FAILURE
  | IDENTIFY_RECEIVED
  | DISCOVERY_BACKGROUND_LOOKUP
  | DISCOVERY_CONNECTED_PEERS
  | MEMBERSHIP_SKIPPED_PEERS
  | MEMBERSHIP_ROUTABLE_PEERS
  | MEMBERSHIP_PROVIDER_PEERS
  | MEMBERSHIP_UNKNOWN_TOPIC
  | MEMBERSHIP_INVALID_MESSAGE
  | MEMBERSHIP_PUBLISH_SUCCESS
  | MEMBERSHIP_PUBLISH_FAILURE
  | CONTENT_RESOLVE_RUNNING
  | CONTENT_RESOLVE_NO_PEERS
  | CONTENT_RESOLVE_SUCCESS
  | CONTENT_RESOLVE_FAILURE
  | CONTENT_RESOLVE_FALLBACK
  | CONTENT_RESOLVE_PEERS
  | CONTENT_CONNECTED_PEERS
  | CONTENT_RATE_LIMITED

text \<open>The name and the help text that a metric is made with.\<close>

fun metric_opts :: "metric \<Rightarrow> string \<times> string" where
  "metric_opts PING_RTT = (''ping_rtt'', ''Ping roundtrip time'')"
| "metric_opts PING_TIMEOUT = (''ping_timeouts'', ''Number of timed out pings'')"
| "metric_opts PING_FAILURE = (''ping_failure'', ''Number of failed pings'')"
| "metric_opts PING_SUCCESS = (''ping_success'', ''Number of successful pings'')"
| "metric_opts IDENTIFY_FAILURE = (''identify_failure'', ''Number of Identify errors'')"
| "metric_opts IDENTIFY_RECEIVED = (''identify_received'', ''Number of Identify infos received'')"
| "metric_opts DISCOVERY_BACKGROUND_LOOKUP =
     (''discovery_background_lookup'', ''Number of background lookups started'')"
| "metric_opts DISCOVERY_CONNECTED_PEERS = (''discovery_connected_peers'', ''Number of connections'')"
| "metric_opts MEMBERSHIP_SKIPPED_PEERS = (''membership_skipped_peers'', ''Number of providers skipped'')"
| "metric_opts MEMBERSHIP_ROUTABLE_PEERS = (''membership_routable_peers'', ''Number of routable peers'')"
| "metric_opts MEMBERSHIP_PROVIDER_PEERS = (''membership_provider_peers'', ''Number of unique providers'')"
| "metric_opts MEMBERSHIP_UNKNOWN_TOPIC =
     (''membership_unknown_topic'', ''Number of messages with unknown topic'')"
| "metric_opts MEMBERSHIP_INVALID_MESSAGE =
     (''membership_invalid_message'', ''Number of invalid messages received'')"
| "metric_opts MEMBERSHIP_PUBLISH_SUCCESS = (''membership_publish_total'', ''Number of published messages'')"
| "metric_opts MEMBERSHIP_PUBLISH_FAILURE =
     (''membership_publish_failure'', ''Number of failed publish attempts'')"
| "metric_opts CONTENT_RESOLVE_RUNNING =
     (''content_resolve_running'', ''Number of currently running content resolutions'')"
| "metric_opts CONTENT_RESOLVE_NO_PEERS =
     (''content_resolve_no_peers'', ''Number of resolutions with no known peers'')"
| "metric_opts CONTENT_RESOLVE_SUCCESS = (''content_resolve_success'', ''Number of successful resolutions'')"
| "metric_opts CONTENT_RESOLVE_FAILURE = (''content_resolve_success'', ''Number of failed resolutions'')"
| "metric_opts CONTENT_RESOLVE_FALLBACK =
     (''content_resolve_fallback'', ''Number of resolutions that fall back on secondary peers'')"
| "metric_opts CONTENT_RESOLVE_PEERS =
     (''content_resolve_peers'', ''Number of peers found for resolution from a subnet'')"
| "metric_opts CONTENT_CONNECTED_PEERS =
     (''content_connected_peers'', ''Number of connected peers in a resolution'')"
| "metric_opts CONTENT_RATE_LIMITED = (''content_rate_limited'', ''Number of rate limited requests'')"

text \<open>The macro \<open>metrics!\<close> registers them in the order in which it lists them, and stops at an error.\<close>

definition all_metrics :: "metric list" where
  "all_metrics =
     [PING_RTT, PING_TIMEOUT, PING_FAILURE, PING_SUCCESS, IDENTIFY_FAILURE, IDENTIFY_RECEIVED,
      DISCOVERY_BACKGROUND_LOOKUP, DISCOVERY_CONNECTED_PEERS, MEMBERSHIP_SKIPPED_PEERS,
      MEMBERSHIP_ROUTABLE_PEERS, MEMBERSHIP_PROVIDER_PEERS, MEMBERSHIP_UNKNOWN_TOPIC,
      MEMBERSHIP_INVALID_MESSAGE, MEMBERSHIP_PUBLISH_SUCCESS, MEMBERSHIP_PUBLISH_FAILURE,
      CONTENT_RESOLVE_RUNNING, CONTENT_RESOLVE_NO_PEERS, CONTENT_RESOLVE_SUCCESS,
      CONTENT_RESOLVE_FAILURE, CONTENT_RESOLVE_FALLBACK, CONTENT_RESOLVE_PEERS,
      CONTENT_CONNECTED_PEERS, CONTENT_RATE_LIMITED]"

definition register_metrics where
  "register_metrics register = each_op (\<lambda>mt. register (metric_opts mt)) all_metrics"

section \<open>Values\<close>

record metrics =
  mx_value :: "metric \<Rightarrow> u64"
  mx_observed :: "metric \<Rightarrow> nat list"

definition no_metrics :: metrics where
  "no_metrics = \<lparr>mx_value = (\<lambda>_. 0), mx_observed = (\<lambda>_. [])\<rparr>"

definition inc :: "metric \<Rightarrow> metrics \<Rightarrow> metrics" where
  "inc mt mx = mx\<lparr>mx_value := (mx_value mx)(mt := mx_value mx mt + 1)\<rparr>"

definition dec :: "metric \<Rightarrow> metrics \<Rightarrow> metrics" where
  "dec mt mx = mx\<lparr>mx_value := (mx_value mx)(mt := mx_value mx mt - 1)\<rparr>"

definition set_gauge :: "metric \<Rightarrow> u64 \<Rightarrow> metrics \<Rightarrow> metrics" where
  "set_gauge mt v mx = mx\<lparr>mx_value := (mx_value mx)(mt := v)\<rparr>"

definition observe :: "metric \<Rightarrow> nat \<Rightarrow> metrics \<Rightarrow> metrics" where
  "observe mt v mx = mx\<lparr>mx_observed := (mx_observed mx)(mt := mx_observed mx mt @ [v])\<rparr>"

lemma metrics_simps [simp]:
  "mx_value no_metrics mt = 0"
  "mx_value (inc m1 mx) mt = (if mt = m1 then mx_value mx mt + 1 else mx_value mx mt)"
  "mx_value (dec m1 mx) mt = (if mt = m1 then mx_value mx mt - 1 else mx_value mx mt)"
  "mx_value (set_gauge m1 v mx) mt = (if mt = m1 then v else mx_value mx mt)"
  "mx_value (observe m1 k mx) mt = mx_value mx mt"
  by (simp_all add: no_metrics_def inc_def dec_def set_gauge_def observe_def)

lemma mx_value_dec_power [simp]:
  "mx_value ((dec m1 ^^ k) mx) mt = (if mt = m1 then mx_value mx mt - of_nat k else mx_value mx mt)"
  by (induction k) auto

section \<open>Registration\<close>

text \<open>
  What the code relies on: a registry takes a metric exactly if it does not have one of that name yet,
  and is not changed otherwise. \<open>names r\<close> are the names in the registry \<open>r\<close>.
\<close>

definition registry_laws where
  "registry_laws register names \<longleftrightarrow>
     (\<forall>opts r. if fst opts \<in> names r then \<exists>e. register opts r = (Inl e, r)
        else \<exists>r'. register opts r = (Inr (), r') \<and> names r' = insert (fst opts) (names r))"

text \<open>
  Registering in order stops at the first name that is taken, by a metric from before or by one of the
  list itself.
\<close>

lemma register_each:
  assumes "registry_laws register names" and "distinct (map fst xs)" and "fst ` set xs \<inter> names r = {}"
  shows "\<exists>r'. each_op register xs r = (Inr (), r') \<and> names r' = names r \<union> fst ` set xs"
  using assms(2,3)
proof (induction xs arbitrary: r)
  case (Cons x xs)
  then obtain r1 where r1: "register x r = (Inr (), r1)" "names r1 = insert (fst x) (names r)"
    using assms(1) unfolding registry_laws_def by (metis Int_iff empty_iff image_eqI list.set_intros(1))
  moreover have "fst ` set xs \<inter> names r1 = {}"
    using Cons.prems r1(2) by auto
  ultimately show ?case
    using Cons.IH [of r1] Cons.prems by (auto simp: bind_op_def)
qed simp

lemma each_op_append:
  "each_op f (xs @ ys) s = bind_op (each_op f xs) (\<lambda>_. each_op f ys) s"
  by (induction xs arbitrary: s) (auto simp: bind_op_def split: sum.split prod.split)

lemma each_op_map: "each_op f (map g xs) s = each_op (\<lambda>x. f (g x)) xs s"
  by (induction xs arbitrary: s) (auto simp: bind_op_def split: sum.split prod.split)

text \<open>A registry for which the laws hold: the list of what was registered.\<close>

definition sample_register :: "string \<times> string \<Rightarrow> ((string \<times> string) list, string, unit) op" where
  "sample_register opts r =
     (if fst opts \<in> fst ` set r then (Inl ''Duplicate metrics collector registration attempted'', r)
      else (Inr (), r @ [opts]))"

lemma sample_registry_laws: "registry_laws sample_register (\<lambda>r. fst ` set r)"
  by (auto simp: registry_laws_def sample_register_def)

text \<open>The metrics before the one whose name is already taken.\<close>

definition first_metrics :: "metric list" where
  "first_metrics = takeWhile (\<lambda>mt. mt \<noteq> CONTENT_RESOLVE_FAILURE) all_metrics"

lemma first_metrics:
  "all_metrics = first_metrics @ CONTENT_RESOLVE_FAILURE # [CONTENT_RESOLVE_FALLBACK,
     CONTENT_RESOLVE_PEERS, CONTENT_CONNECTED_PEERS, CONTENT_RATE_LIMITED]"
  and distinct_first_metrics: "distinct (map (\<lambda>mt. fst (metric_opts mt)) first_metrics)"
  and failure_name_taken: "fst (metric_opts CONTENT_RESOLVE_FAILURE) \<in> (\<lambda>mt. fst (metric_opts mt)) ` set first_metrics"
  by (simp_all add: first_metrics_def all_metrics_def)

lemma register_metrics_stops:
  assumes "registry_laws register names" and "(\<lambda>mt. fst (metric_opts mt)) ` set first_metrics \<inter> names r = {}"
  shows "\<exists>e r'. register_metrics register r = (Inl e, r') \<and>
    names r' = names r \<union> (\<lambda>mt. fst (metric_opts mt)) ` set first_metrics"
proof -
  have "\<exists>r'. each_op register (map metric_opts first_metrics) r = (Inr (), r') \<and>
      names r' = names r \<union> fst ` set (map metric_opts first_metrics)"
    using assms distinct_first_metrics by (intro register_each) (auto simp: comp_def)
  then obtain r1 where r1: "each_op (\<lambda>mt. register (metric_opts mt)) first_metrics r = (Inr (), r1)"
    and names: "names r1 = names r \<union> (\<lambda>mt. fst (metric_opts mt)) ` set first_metrics"
    by (auto simp: each_op_map image_image)
  have "fst (metric_opts CONTENT_RESOLVE_FAILURE) \<in> names r1"
    using failure_name_taken names by auto
  then obtain e where "register (metric_opts CONTENT_RESOLVE_FAILURE) r1 = (Inl e, r1)"
    using assms(1) unfolding registry_laws_def by metis
  with r1 names show ?thesis
    by (simp add: register_metrics_def first_metrics(1) each_op_append bind_op_def)
qed

lemma register_metrics_fails:
  assumes "registry_laws register names"
  shows "\<exists>e r'. register_metrics register r = (Inl e, r')"
proof (cases "(\<lambda>mt. fst (metric_opts mt)) ` set first_metrics \<inter> names r = {}")
  case False
  then obtain mt where mt: "mt \<in> set all_metrics" "fst (metric_opts mt) \<in> names r"
    by (auto simp: first_metrics(1))
  have "isl (fst (each_op (\<lambda>mt. register (metric_opts mt)) ms r))" if "mt \<in> set ms" for ms
    using that mt(2)
  proof (induction ms arbitrary: r)
    case (Cons x xs)
    show ?case
    proof (cases "fst (metric_opts x) \<in> names r")
      case True
      then obtain e where "register (metric_opts x) r = (Inl e, r)"
        using assms unfolding registry_laws_def by metis
      then show ?thesis
        by (simp add: bind_op_def)
    next
      case False
      then obtain r' where "register (metric_opts x) r = (Inr (), r')" "names r' = insert (fst (metric_opts x)) (names r)"
        using assms unfolding registry_laws_def by metis
      moreover have "mt \<in> set xs"
        using Cons.prems False by auto
      ultimately show ?thesis
        using Cons.IH [of r'] Cons.prems(2) by (simp add: bind_op_def)
    qed
  qed simp
  from this [OF mt(1)] show ?thesis
    by (cases "register_metrics register r") (auto simp: register_metrics_def isl_def)
qed (use register_metrics_stops [OF assms] in blast)

end
