(* ===== verification/Membership.thy ===== *)
theory Membership
  imports Provider_Cache Outbox Network Metrics
begin

text \<open>
  The membership behaviour of \<^verbatim>\<open>src/ipld/resolver/src/behaviour/membership.rs\<close>: gossiping which
  subnets this agent provides data for, tracking the providers of every subnet from the records of
  others, and receiving votes and pre-emptively published data.

  Gossipsub, the timer of \<open>tokio\<close>, the envelopes of \<open>libp2p\<close> and the printing of subnet identifiers
  are parameters, collected in \<open>membership_env\<close>; the errors of these libraries are represented by
  their messages. An operation that reads the clock takes the sequence of its readings,
  \<open>clk 0\<close>, \<open>clk 1\<close>, \<open>\<dots>\<close>. Log output is left out.
\<close>

section \<open>Types\<close>

definition PUBSUB_MEMBERSHIP :: string where
  "PUBSUB_MEMBERSHIP = ''/ipc/membership''"

definition PUBSUB_VOTES :: string where
  "PUBSUB_VOTES = ''/ipc/ipld/votes''"

definition PUBSUB_PREEMPTIVE :: string where
  "PUBSUB_PREEMPTIVE = ''/ipc/ipld/pre-emptive''"

text \<open>Topics of gossipsub: identified by their name or by its hash.\<close>

datatype topic = Ident_Topic string | Sha256_Topic string

datatype ('sid, 'peer, 'cid, 'pub) membership_event =
    Updated 'peer "'sid provider_delta"
  | Removed 'peer
  | Skipped 'peer
  | ReceivedVote "('sid, 'pub, 'cid) vote_record"
  | ReceivedPreemptive 'sid bytes

record 'sid membership_config =
  mc_static_subnets :: "'sid list"
  mc_max_subnets :: nat
  mc_publish_interval :: duration
  mc_min_time_between_publish :: duration
  mc_max_provider_age :: duration

datatype config_error =
    InvalidNetwork string
  | InvalidGossipsubConfig string
  | Subscription string

record gossip_message =
  gm_topic :: string
  gm_data :: bytes

datatype 'peer gossip_event =
    Subscribed 'peer string
  | Unsubscribed 'peer string
  | GossipsubNotSupported 'peer
  | Message gossip_message

text \<open>What polling gossipsub may return when it is ready.\<close>

datatype ('peer, 'act) gossip_action = Gossip_Event "'peer gossip_event" | Gossip_Other 'act

record ('sid, 'peer, 'cid, 'pub, 'key, 'env, 'g, 'iv) membership_env =
  me_envelopes :: "('key, 'pub, 'env) envelope_api"
  me_provider_codec :: "('sid, 'peer) provider_record codec"
  me_vote_codec :: "('sid, 'pub, 'cid) vote_record codec"
  me_to_peer_id :: "'pub \<Rightarrow> 'peer"
  me_subnet_string :: "'sid \<Rightarrow> string"
  me_topic_hash :: "topic \<Rightarrow> string"
  me_gossipsub_config :: "(string, unit) result"
  me_gossipsub_new :: "'key \<Rightarrow> (string, 'g) result"
  me_with_peer_score :: "topic \<Rightarrow> 'g \<Rightarrow> (string, 'g) result"
  me_subscribe :: "topic \<Rightarrow> ('g, string, bool) op"
  me_unsubscribe :: "topic \<Rightarrow> ('g, string, bool) op"
  me_publish :: "topic \<Rightarrow> bytes \<Rightarrow> ('g, string, unit) op"
  me_interval :: "duration \<Rightarrow> 'iv"
  me_interval_after :: "duration \<Rightarrow> duration \<Rightarrow> 'iv"
  me_reset :: "'iv \<Rightarrow> 'iv"
  me_period :: "'iv \<Rightarrow> duration"
  me_poll_tick :: "'iv \<Rightarrow> bool \<times> 'iv"
  me_subnet_order :: "'sid hash_order"
  me_peer_order :: "'peer hash_order"

record ('sid, 'peer, 'cid, 'pub, 'key, 'g, 'iv) membership =
  m_inner :: 'g
  m_outbox :: "('sid, 'peer, 'cid, 'pub) membership_event list"
  m_local_key :: 'key
  m_network_name :: string
  m_membership_topic :: topic
  m_subnet_ids :: "'sid list"
  m_voting_topics :: "string set"
  m_preemptive_topics :: "string \<rightharpoonup> 'sid"
  m_provider_cache :: "('sid, 'peer) subnet_provider_cache"
  m_publish_interval :: 'iv
  m_min_time_between_publish :: duration
  m_last_publish_timestamp :: timestamp
  m_next_publish_timestamp :: timestamp
  m_max_provider_age :: duration
  m_metrics :: metrics

type_synonym clock = "nat \<Rightarrow> timestamp"

section \<open>Operations\<close>

definition preemptive_topic where
  "preemptive_topic env st s =
     Sha256_Topic (PUBSUB_PREEMPTIVE @ ''/'' @
       replace_char CHR ''/'' CHR ''_'' (m_network_name st) @ ''/'' @
       replace_char CHR ''/'' CHR ''_'' (me_subnet_string env s))"

definition voting_topic where
  "voting_topic env st s =
     Sha256_Topic (PUBSUB_VOTES @ ''/'' @
       replace_char CHR ''/'' CHR ''_'' (m_network_name st) @ ''/'' @
       replace_char CHR ''/'' CHR ''_'' (me_subnet_string env s))"

definition inner_op where
  "inner_op f st = (case f (m_inner st) of (r, g) \<Rightarrow> (r, st\<lparr>m_inner := g\<rparr>))"

definition preemptive_subscribe where
  "preemptive_subscribe env s st =
     (let topic = preemptive_topic env st s
      in bind_op (inner_op (me_subscribe env topic))
           (\<lambda>_ st. (Inr (), st\<lparr>m_preemptive_topics :=
                              (m_preemptive_topics st)(me_topic_hash env topic \<mapsto> s)\<rparr>)) st)"

definition preemptive_unsubscribe where
  "preemptive_unsubscribe env s st =
     (let topic = preemptive_topic env st s
      in bind_op (inner_op (me_unsubscribe env topic))
           (\<lambda>_ st. (Inr (), st\<lparr>m_preemptive_topics :=
                              (m_preemptive_topics st)(me_topic_hash env topic := None)\<rparr>)) st)"

definition voting_subscribe where
  "voting_subscribe env s st =
     (let topic = voting_topic env st s
      in bind_op (inner_op (me_subscribe env topic))
           (\<lambda>_ st. (Inr (), st\<lparr>m_voting_topics :=
                              insert (me_topic_hash env topic) (m_voting_topics st)\<rparr>)) st)"

definition voting_unsubscribe where
  "voting_unsubscribe env s st =
     (let topic = voting_topic env st s
      in bind_op (inner_op (me_unsubscribe env topic))
           (\<lambda>_ st. (Inr (), st\<lparr>m_voting_topics :=
                              m_voting_topics st - {me_topic_hash env topic}\<rparr>)) st)"

datatype membership_error = Gossip_Error string | Record_Error record_error

definition gossip_error where
  "gossip_error f s = (case f s of (Inl e, s') \<Rightarrow> (Inl (Gossip_Error e), s') | (Inr a, s') \<Rightarrow> (Inr a, s'))"

text \<open>Every attempt to publish is counted.\<close>

definition count_publish where
  "count_publish f st =
     (case f st of
        (Inl e, st) \<Rightarrow> (Inl e, st\<lparr>m_metrics := inc MEMBERSHIP_PUBLISH_FAILURE (m_metrics st)\<rparr>)
      | (Inr a, st) \<Rightarrow> (Inr a, st\<lparr>m_metrics := inc MEMBERSHIP_PUBLISH_SUCCESS (m_metrics st)\<rparr>))"

definition publish_membership where
  "publish_membership env clk st =
     (case provider_record_signed (me_envelopes env) (me_to_peer_id env) (me_provider_codec env)
             (clk 0) (m_local_key st) (m_subnet_ids st) of
        Inl e \<Rightarrow> (Inl (Record_Error e), st)
      | Inr rec \<Rightarrow>
          let data = into_protobuf_encoding (me_envelopes env) (sr_envelope rec)
          in (case count_publish (inner_op (me_publish env (m_membership_topic st) data)) st of
                (Inl e, st) \<Rightarrow> (Inl (Gossip_Error e), st)
              | (Inr _, st) \<Rightarrow>
                  (Inr (), st\<lparr>m_last_publish_timestamp := clk 1,
                             m_next_publish_timestamp :=
                               add_duration (clk 1) (me_period env (m_publish_interval st)),
                             m_publish_interval := me_reset env (m_publish_interval st)\<rparr>)))"

definition set_provided_subnets where
  "set_provided_subnets env clk ids st =
     (let old = m_subnet_ids st
      in bind_op (gossip_error (each_op (voting_unsubscribe env) (filter (\<lambda>s. s \<notin> set ids) old)))
           (\<lambda>_. bind_op (gossip_error (each_op (voting_subscribe env) (filter (\<lambda>s. s \<notin> set old) ids)))
              (\<lambda>_ st. publish_membership env clk (st\<lparr>m_subnet_ids := ids\<rparr>)))
           (st\<lparr>m_subnet_ids := []\<rparr>))"

definition add_provided_subnet where
  "add_provided_subnet env clk s st =
     (if s \<in> set (m_subnet_ids st) then (Inr (), st)
      else bind_op (gossip_error (voting_subscribe env s))
             (\<lambda>_ st. publish_membership env clk (st\<lparr>m_subnet_ids := m_subnet_ids st @ [s]\<rparr>)) st)"

definition remove_provided_subnet where
  "remove_provided_subnet env clk s st =
     (if s \<notin> set (m_subnet_ids st) then (Inr (), st)
      else bind_op (gossip_error (voting_unsubscribe env s))
             (\<lambda>_ st. publish_membership env clk
                      (st\<lparr>m_subnet_ids := filter (\<lambda>i. i \<noteq> s) (m_subnet_ids st)\<rparr>)) st)"

definition pin_subnet where
  "pin_subnet env s =
     bind_op (preemptive_subscribe env s)
       (\<lambda>_ st. (Inr (), st\<lparr>m_provider_cache := Provider_Cache.pin_subnet s (m_provider_cache st)\<rparr>))"

definition unpin_subnet where
  "unpin_subnet env s =
     bind_op (preemptive_unsubscribe env s)
       (\<lambda>_ st. (Inr (), st\<lparr>m_provider_cache := Provider_Cache.unpin_subnet s (m_provider_cache st)\<rparr>))"

definition publish_vote where
  "publish_vote env vote st =
     (let topic = voting_topic env st (vr_subnet_id (sr_record vote));
          data = into_protobuf_encoding (me_envelopes env) (sr_envelope vote)
      in gossip_error (count_publish (inner_op (me_publish env topic data))) st)"

definition publish_preemptive where
  "publish_preemptive env s data st =
     gossip_error (count_publish (inner_op (me_publish env (preemptive_topic env st s) data))) st"

definition publish_for_new_peer where
  "publish_for_new_peer env now st =
     (if m_subnet_ids st = [] then st
      else if m_last_publish_timestamp st > sub_duration now (m_min_time_between_publish st) then st
      else if m_next_publish_timestamp st \<le> add_duration now (m_min_time_between_publish st) then st
      else st\<lparr>m_next_publish_timestamp := add_duration now (m_min_time_between_publish st),
              m_publish_interval :=
                me_interval_after env (m_min_time_between_publish st)
                  (me_period env (m_publish_interval st))\<rparr>)"

definition set_routable where
  "set_routable env now p st =
     (let cache = Provider_Cache.set_routable p (m_provider_cache st);
          st = st\<lparr>m_provider_cache := cache,
                  m_metrics := set_gauge MEMBERSHIP_ROUTABLE_PEERS (of_nat (num_routable cache)) (m_metrics st)\<rparr>
      in publish_for_new_peer env now st)"

definition push_event where
  "push_event ev st = st\<lparr>m_outbox := m_outbox st @ [ev]\<rparr>"

definition set_unroutable where
  "set_unroutable p st =
     push_event (Removed p)
       (st\<lparr>m_provider_cache := Provider_Cache.set_unroutable p (m_provider_cache st)\<rparr>)"

definition providers_of_subnet where
  "providers_of_subnet env st s =
     Provider_Cache.providers_of_subnet (me_peer_order env) (m_provider_cache st) s"

definition handle_provider_record where
  "handle_provider_record env now r st =
     (case add_provider (me_subnet_order env) (m_provider_cache st) r of
        (d, c) \<Rightarrow>
          let st = st\<lparr>m_provider_cache := c\<rparr>
          in (case d of
                None \<Rightarrow> push_event (Skipped (pr_peer_id r))
                  (st\<lparr>m_metrics := inc MEMBERSHIP_SKIPPED_PEERS (m_metrics st)\<rparr>)
              | Some d \<Rightarrow>
                  if delta_is_empty d \<and> \<not> pd_is_new d then st
                  else let st = push_event (Updated (pr_peer_id r) d) st
                       in if pd_is_new d
                          then publish_for_new_peer env now
                            (st\<lparr>m_metrics := inc MEMBERSHIP_PROVIDER_PEERS (m_metrics st)\<rparr>)
                          else st))"

definition handle_vote_record where
  "handle_vote_record r st = push_event (ReceivedVote r) st"

definition handle_preemptive_data where
  "handle_preemptive_data s data st = push_event (ReceivedPreemptive s data) st"

definition handle_message where
  "handle_message env now msg st =
     (if gm_topic msg = me_topic_hash env (m_membership_topic st)
      then (case from_bytes (me_envelopes env) (provider_record_kind (me_to_peer_id env))
                  (me_provider_codec env) (gm_data msg) of
              Inr sr \<Rightarrow> handle_provider_record env now (sr_record sr) st
            | Inl _ \<Rightarrow> st\<lparr>m_metrics := inc MEMBERSHIP_INVALID_MESSAGE (m_metrics st)\<rparr>)
      else if gm_topic msg \<in> m_voting_topics st
      then (case from_bytes (me_envelopes env) vote_record_kind (me_vote_codec env) (gm_data msg) of
              Inr sr \<Rightarrow> handle_vote_record (sr_record sr) st
            | Inl _ \<Rightarrow> st\<lparr>m_metrics := inc MEMBERSHIP_INVALID_MESSAGE (m_metrics st)\<rparr>)
      else (case m_preemptive_topics st (gm_topic msg) of
              Some s \<Rightarrow> handle_preemptive_data s (gm_data msg) st
            | None \<Rightarrow> st\<lparr>m_metrics := inc MEMBERSHIP_UNKNOWN_TOPIC (m_metrics st)\<rparr>))"

definition handle_subscriber where
  "handle_subscriber env now topic st =
     (if topic = me_topic_hash env (m_membership_topic st) then publish_for_new_peer env now st
      else st)"

definition prune_membership where
  "prune_membership env now st =
     (case prune_providers (me_peer_order env) (sub_duration now (m_max_provider_age st))
             (m_provider_cache st) of
        (pruned, c) \<Rightarrow>
          fold (\<lambda>p st. push_event (Removed p)
                    (st\<lparr>m_metrics := dec MEMBERSHIP_PROVIDER_PEERS (m_metrics st)\<rparr>))
            pruned (st\<lparr>m_provider_cache := c\<rparr>))"

definition handle_gossip_event where
  "handle_gossip_event env now ev st =
     (case ev of
        Subscribed p topic \<Rightarrow> handle_subscriber env now topic st
      | Unsubscribed p topic \<Rightarrow> st
      | GossipsubNotSupported p \<Rightarrow> st
      | Message msg \<Rightarrow> handle_message env now msg st)"

text \<open>
  The loop of \<open>poll\<close> over what gossipsub has ready: the list ends where gossipsub returns \<open>Pending\<close>,
  and anything but an event of gossipsub is forwarded at once.
\<close>

fun poll_gossip where
  "poll_gossip env clk [] st = (Pending, st)"
| "poll_gossip env clk (Gossip_Event ev # acts) st =
     poll_gossip env (\<lambda>k. clk (Suc k)) acts (handle_gossip_event env (clk 0) ev st)"
| "poll_gossip env clk (Gossip_Other act # acts) st = (Forward act, st)"

definition poll where
  "poll env = (\<lambda>(clk, acts) st.
     case pop_outbox m_outbox (\<lambda>evs. m_outbox_update (\<lambda>_. evs)) st of
       Some (ev, st) \<Rightarrow> (Generate_Event ev, st)
     | None \<Rightarrow>
         let (ready, iv) = me_poll_tick env (m_publish_interval st);
             st = st\<lparr>m_publish_interval := iv\<rparr>;
             st = (if ready
                   then prune_membership env (clk 2) (snd (publish_membership env clk st))
                   else st)
         in poll_gossip env (\<lambda>k. clk (k + 3)) acts st)"

text \<open>Everything else is passed on to gossipsub.\<close>

definition on_swarm_event where
  "on_swarm_event inner_on_swarm_event ev st = st\<lparr>m_inner := inner_on_swarm_event ev (m_inner st)\<rparr>"

definition on_connection_handler_event where
  "on_connection_handler_event inner_on_handler_event p conn ev st =
     st\<lparr>m_inner := inner_on_handler_event p conn ev (m_inner st)\<rparr>"

definition initial_state where
  "initial_state env now nc mc topic g =
     \<lparr>m_inner = g, m_outbox = [], m_local_key = nc_local_key nc,
      m_network_name = nc_network_name nc, m_membership_topic = topic,
      m_subnet_ids = [], m_voting_topics = {}, m_preemptive_topics = Map.empty,
      m_provider_cache = cache_new (mc_max_subnets mc) [],
      m_publish_interval = me_reset env (me_interval env (mc_publish_interval mc)),
      m_min_time_between_publish = mc_min_time_between_publish mc,
      m_last_publish_timestamp = default_timestamp,
      m_next_publish_timestamp = add_duration now (mc_publish_interval mc),
      m_max_provider_age = mc_max_provider_age mc, m_metrics = no_metrics\<rparr>"

definition new where
  "new env now nc mc =
     (if nc_network_name nc = [] then Inl (InvalidNetwork (nc_network_name nc))
      else let topic = Ident_Topic (PUBSUB_MEMBERSHIP @ ''/'' @ nc_network_name nc)
           in bind_result
                (map_sum InvalidGossipsubConfig id
                  (bind_result (me_gossipsub_config env) (\<lambda>_.
                   bind_result (me_gossipsub_new env (nc_local_key nc)) (\<lambda>g.
                   me_with_peer_score env topic g)))) (\<lambda>g.
              (case me_subscribe env topic g of
                 (Inl e, _) \<Rightarrow> Inl (Subscription e)
               | (Inr _, g) \<Rightarrow>
                   (case each_op (pin_subnet env) (mc_static_subnets mc)
                           (initial_state env now nc mc topic g) of
                      (Inl e, _) \<Rightarrow> Inl (Subscription e)
                    | (Inr _, st) \<Rightarrow> Inr st))))"

section \<open>Histories and invariants\<close>

datatype ('sid, 'peer, 'cid, 'pub, 'env, 'act) membership_label =
    Set_Provided "'sid list"
  | Add_Provided 'sid
  | Remove_Provided 'sid
  | Pin 'sid
  | Unpin 'sid
  | Publish_Vote "(('sid, 'pub, 'cid) vote_record, 'env) signed_record"
  | Publish_Preemptive 'sid bytes
  | Mark_Routable 'peer
  | Mark_Unroutable 'peer
  | Poll "('peer, 'act) gossip_action list"

fun membership_apply where
  "membership_apply env clk (Set_Provided ids) st = snd (set_provided_subnets env clk ids st)"
| "membership_apply env clk (Add_Provided s) st = snd (add_provided_subnet env clk s st)"
| "membership_apply env clk (Remove_Provided s) st = snd (remove_provided_subnet env clk s st)"
| "membership_apply env clk (Pin s) st = snd (pin_subnet env s st)"
| "membership_apply env clk (Unpin s) st = snd (unpin_subnet env s st)"
| "membership_apply env clk (Publish_Vote v) st = snd (publish_vote env v st)"
| "membership_apply env clk (Publish_Preemptive s b) st = snd (publish_preemptive env s b st)"
| "membership_apply env clk (Mark_Routable p) st = set_routable env (clk 0) p st"
| "membership_apply env clk (Mark_Unroutable p) st = set_unroutable p st"
| "membership_apply env clk (Poll acts) st = snd (poll env (clk, acts) st)"

text \<open>Every step may read any times and visit the hash tables in any order.\<close>

definition with_orders where
  "with_orders env so po = env\<lparr>me_subnet_order := so, me_peer_order := po\<rparr>"

inductive membership_step for env where
  "hash_order so \<Longrightarrow> hash_order po \<Longrightarrow>
   membership_step env st l (membership_apply (with_orders env so po) clk l st)"

text \<open>
  The cache keeps its invariant, and a topic of pre-emptive data leads back to the pinned subnet it
  was derived from.
\<close>

definition membership_inv where
  "membership_inv env st \<longleftrightarrow>
     cache_inv (m_provider_cache st) \<and>
     (\<forall>t s. m_preemptive_topics st t = Some s \<longrightarrow>
        t = me_topic_hash env (preemptive_topic env st s) \<and>
        s \<in> pinned_subnets (m_provider_cache st))"

text \<open>
  The subscriptions agree with the configuration: votes are received exactly for the provided
  subnets, and pre-emptive data exactly for the pinned ones.
\<close>

definition topics_agree where
  "topics_agree env st \<longleftrightarrow>
     m_voting_topics st = (\<lambda>s. me_topic_hash env (voting_topic env st s)) ` set (m_subnet_ids st) \<and>
     (\<forall>t s. m_preemptive_topics st t = Some s \<longleftrightarrow>
        t = me_topic_hash env (preemptive_topic env st s) \<and>
        s \<in> pinned_subnets (m_provider_cache st))"

text \<open>
  What the agreement relies on: gossipsub accepts subscriptions, and different subnets have
  different topics.
\<close>

definition subscriptions_succeed where
  "subscriptions_succeed env \<longleftrightarrow>
     (\<forall>t g. \<not> isl (fst (me_subscribe env t g)) \<and> \<not> isl (fst (me_unsubscribe env t g)))"

definition topics_distinct where
  "topics_distinct env \<longleftrightarrow>
     inj (me_topic_hash env) \<and>
     inj (\<lambda>s. replace_char CHR ''/'' CHR ''_'' (me_subnet_string env s))"

text \<open>The envelope in \<open>bz\<close> opens under a payload type with a signing key.\<close>

definition opened_by where
  "opened_by api pt bz key \<longleftrightarrow>
     (\<exists>e payload. from_protobuf_encoding api bz = Inr e \<and>
        payload_and_signing_key api e DOMAIN_SEP (as_bytes pt) = Inr (payload, key))"

text \<open>Why a message may raise an event.\<close>

fun event_justified where
  "event_justified env st msg (Updated p d) \<longleftrightarrow>
     gm_topic msg = me_topic_hash env (m_membership_topic st) \<and>
     p \<in> routable_peers (m_provider_cache st) \<and>
     (\<exists>key. opened_by (me_envelopes env) ''/ipc/provider-record'' (gm_data msg) key \<and>
        p = me_to_peer_id env key)"
| "event_justified env st msg (Skipped p) \<longleftrightarrow>
     gm_topic msg = me_topic_hash env (m_membership_topic st) \<and>
     p \<notin> routable_peers (m_provider_cache st) \<and>
     (\<exists>key. opened_by (me_envelopes env) ''/ipc/provider-record'' (gm_data msg) key \<and>
        p = me_to_peer_id env key)"
| "event_justified env st msg (Removed p) \<longleftrightarrow> False"
| "event_justified env st msg (ReceivedVote v) \<longleftrightarrow>
     gm_topic msg \<in> m_voting_topics st \<and>
     opened_by (me_envelopes env) ''/ipc/vote-record'' (gm_data msg) (vr_public_key v)"
| "event_justified env st msg (ReceivedPreemptive s data) \<longleftrightarrow>
     m_preemptive_topics st (gm_topic msg) = Some s \<and> data = gm_data msg"

section \<open>An instance of the parameters\<close>

definition sample_env :: "(u8, u8, u8, u8, u8, bytes, unit, duration) membership_env" where
  "sample_env =
     \<lparr>me_envelopes = plain_envelopes, me_provider_codec = small_record_codec,
      me_vote_codec = empty_vote_codec, me_to_peer_id = (\<lambda>k. k),
      me_subnet_string = (\<lambda>s. replicate (unat s) CHR ''a''),
      me_topic_hash = (\<lambda>t. case t of Ident_Topic n \<Rightarrow> CHR ''i'' # n | Sha256_Topic n \<Rightarrow> CHR ''s'' # n),
      me_gossipsub_config = Inr (), me_gossipsub_new = (\<lambda>_. Inr ()),
      me_with_peer_score = (\<lambda>_ g. Inr g),
      me_subscribe = (\<lambda>_ g. (Inr True, g)), me_unsubscribe = (\<lambda>_ g. (Inr True, g)),
      me_publish = (\<lambda>_ _ g. (Inr (), g)),
      me_interval = (\<lambda>d. d), me_interval_after = (\<lambda>_ d. d), me_reset = (\<lambda>iv. iv),
      me_period = (\<lambda>iv. iv), me_poll_tick = (\<lambda>iv. (False, iv)),
      me_subnet_order = sorted_list_of_set, me_peer_order = sorted_list_of_set\<rparr>"

definition sample_config :: "u8 membership_config" where
  "sample_config = \<lparr>mc_static_subnets = [3], mc_max_subnets = 2, mc_publish_interval = from_secs 60,
     mc_min_time_between_publish = from_secs 5, mc_max_provider_age = from_secs 300\<rparr>"

definition sample_network :: "u8 network_config" where
  "sample_network = \<lparr>nc_local_key = 7, nc_network_name = ''testnet''\<rparr>"

definition sample_state :: "(u8, u8, u8, u8, u8, unit, duration) membership" where
  "sample_state =
     (case new sample_env (Timestamp 100) sample_network sample_config of Inr st \<Rightarrow> st)"

section \<open>What the operations leave alone\<close>

lemma publish_membership_frame [simp]:
  "m_network_name (snd (publish_membership env clk st)) = m_network_name st"
  "m_subnet_ids (snd (publish_membership env clk st)) = m_subnet_ids st"
  "m_voting_topics (snd (publish_membership env clk st)) = m_voting_topics st"
  "m_preemptive_topics (snd (publish_membership env clk st)) = m_preemptive_topics st"
  "m_provider_cache (snd (publish_membership env clk st)) = m_provider_cache st"
  "m_outbox (snd (publish_membership env clk st)) = m_outbox st"
  "m_membership_topic (snd (publish_membership env clk st)) = m_membership_topic st"
  by (auto simp: publish_membership_def count_publish_def inner_op_def Let_def split: sum.splits prod.splits)

lemma publish_for_new_peer_frame [simp]:
  "m_network_name (publish_for_new_peer env now st) = m_network_name st"
  "m_subnet_ids (publish_for_new_peer env now st) = m_subnet_ids st"
  "m_voting_topics (publish_for_new_peer env now st) = m_voting_topics st"
  "m_preemptive_topics (publish_for_new_peer env now st) = m_preemptive_topics st"
  "m_provider_cache (publish_for_new_peer env now st) = m_provider_cache st"
  "m_outbox (publish_for_new_peer env now st) = m_outbox st"
  "m_membership_topic (publish_for_new_peer env now st) = m_membership_topic st"
  by (simp_all add: publish_for_new_peer_def)

lemma push_event_frame [simp]:
  "m_network_name (push_event ev st) = m_network_name st"
  "m_subnet_ids (push_event ev st) = m_subnet_ids st"
  "m_voting_topics (push_event ev st) = m_voting_topics st"
  "m_preemptive_topics (push_event ev st) = m_preemptive_topics st"
  "m_provider_cache (push_event ev st) = m_provider_cache st"
  "m_outbox (push_event ev st) = m_outbox st @ [ev]"
  "m_membership_topic (push_event ev st) = m_membership_topic st"
  by (simp_all add: push_event_def)

lemma topic_cong:
  "m_network_name st = m_network_name st' \<Longrightarrow> voting_topic env st s = voting_topic env st' s"
  "m_network_name st = m_network_name st' \<Longrightarrow> preemptive_topic env st s = preemptive_topic env st' s"
  by (simp_all add: voting_topic_def preemptive_topic_def)

lemma with_orders_simps [simp]:
  "me_topic_hash (with_orders env so po) = me_topic_hash env"
  "me_subscribe (with_orders env so po) = me_subscribe env"
  "me_unsubscribe (with_orders env so po) = me_unsubscribe env"
  "me_subnet_order (with_orders env so po) = so"
  "me_peer_order (with_orders env so po) = po"
  "voting_topic (with_orders env so po) = voting_topic env"
  "preemptive_topic (with_orders env so po) = preemptive_topic env"
  by (simp_all add: with_orders_def voting_topic_def preemptive_topic_def fun_eq_iff)

text \<open>
  The handlers of gossip events and the scheduled work of \<open>poll\<close> change nothing but the cache, the
  outbox and the publishing schedule: \<open>same_topics\<close> collects the fields they keep.
\<close>

definition same_topics where
  "same_topics st st' \<longleftrightarrow>
     m_network_name st' = m_network_name st \<and> m_subnet_ids st' = m_subnet_ids st \<and>
     m_voting_topics st' = m_voting_topics st \<and>
     m_preemptive_topics st' = m_preemptive_topics st \<and>
     pinned_subnets (m_provider_cache st') = pinned_subnets (m_provider_cache st)"

lemma same_topics_refl [intro!, simp]: "same_topics st st"
  by (simp add: same_topics_def)

lemma same_topics_trans: "same_topics st st' \<Longrightarrow> same_topics st' st'' \<Longrightarrow> same_topics st st''"
  by (simp add: same_topics_def)

lemma pinned_add_provider:
  "add_provider ord c r = (d, c') \<Longrightarrow> pinned_subnets c' = pinned_subnets c"
  by (metis cache_config_add_provider(2) snd_conv)

lemma same_topics_handle_provider_record [intro!]:
  "same_topics st (handle_provider_record env now r st)"
  by (auto simp: handle_provider_record_def same_topics_def Let_def pinned_add_provider
      split: prod.splits option.splits)

lemma same_topics_handle_message [intro!]: "same_topics st (handle_message env now msg st)"
  by (auto simp: handle_message_def handle_vote_record_def handle_preemptive_data_def
      split: sum.splits option.splits) (auto simp: same_topics_def)

lemma same_topics_handle_gossip_event [intro!]:
  "same_topics st (handle_gossip_event env now ev st)"
  by (cases ev) (auto simp: handle_gossip_event_def handle_subscriber_def, auto simp: same_topics_def)

lemma same_topics_poll_gossip [intro!]: "same_topics st (snd (poll_gossip env clk acts st))"
  by (induction env clk acts st rule: poll_gossip.induct) (auto intro: same_topics_trans)

lemma fold_push_event [simp]:
  "fold (\<lambda>p st. push_event (Removed p) (st\<lparr>m_metrics := dec mt (m_metrics st)\<rparr>)) ps st =
     st\<lparr>m_outbox := m_outbox st @ map Removed ps, m_metrics := (dec mt ^^ length ps) (m_metrics st)\<rparr>"
  by (induction ps arbitrary: st) (simp_all add: push_event_def funpow_swap1)

lemma same_topics_prune_membership [intro!]: "same_topics st (prune_membership env now st)"
  by (auto simp: prune_membership_def same_topics_def prune_providers_def Let_def)

lemma same_topics_poll [intro!]: "same_topics st (snd (poll env (clk, acts) st))"
proof -
  have "same_topics st (prune_membership env (clk 2) (snd (publish_membership env clk
      (st\<lparr>m_publish_interval := iv\<rparr>))))" for iv
    by (rule same_topics_trans [OF _ same_topics_prune_membership]) (simp add: same_topics_def)
  moreover have "same_topics st (st\<lparr>m_publish_interval := iv\<rparr>)"
    "same_topics st (st\<lparr>m_outbox := evs\<rparr>)" for iv evs
    by (simp_all add: same_topics_def)
  ultimately show ?thesis
    by (auto simp: poll_def pop_outbox_def Let_def split: list.splits prod.splits
        intro: same_topics_trans [OF _ same_topics_poll_gossip])
qed

section \<open>Subscriptions\<close>

lemma topic_updates [simp]:
  "voting_topic env (st\<lparr>m_inner := g\<rparr>) s = voting_topic env st s"
  "voting_topic env (st\<lparr>m_voting_topics := V\<rparr>) s = voting_topic env st s"
  "voting_topic env (st\<lparr>m_subnet_ids := ids\<rparr>) s = voting_topic env st s"
  "preemptive_topic env (st\<lparr>m_inner := g\<rparr>) s = preemptive_topic env st s"
  "preemptive_topic env (st\<lparr>m_preemptive_topics := M\<rparr>) s = preemptive_topic env st s"
  "preemptive_topic env (st\<lparr>m_provider_cache := c\<rparr>) s = preemptive_topic env st s"
  by (simp_all add: voting_topic_def preemptive_topic_def)

lemma voting_subscribe_cases:
  "voting_subscribe env s st =
     (case me_subscribe env (voting_topic env st s) (m_inner st) of
        (Inl e, g) \<Rightarrow> (Inl e, st\<lparr>m_inner := g\<rparr>)
      | (Inr _, g) \<Rightarrow> (Inr (), st\<lparr>m_inner := g, m_voting_topics :=
          insert (me_topic_hash env (voting_topic env st s)) (m_voting_topics st)\<rparr>))"
  by (simp add: voting_subscribe_def inner_op_def bind_op_def Let_def split: prod.splits sum.splits)

lemma voting_unsubscribe_cases:
  "voting_unsubscribe env s st =
     (case me_unsubscribe env (voting_topic env st s) (m_inner st) of
        (Inl e, g) \<Rightarrow> (Inl e, st\<lparr>m_inner := g\<rparr>)
      | (Inr _, g) \<Rightarrow> (Inr (), st\<lparr>m_inner := g, m_voting_topics :=
          m_voting_topics st - {me_topic_hash env (voting_topic env st s)}\<rparr>))"
  by (simp add: voting_unsubscribe_def inner_op_def bind_op_def Let_def split: prod.splits sum.splits)

lemma pin_subnet_cases:
  "pin_subnet env s st =
     (case me_subscribe env (preemptive_topic env st s) (m_inner st) of
        (Inl e, g) \<Rightarrow> (Inl e, st\<lparr>m_inner := g\<rparr>)
      | (Inr _, g) \<Rightarrow> (Inr (), st\<lparr>m_inner := g,
          m_preemptive_topics :=
            (m_preemptive_topics st)(me_topic_hash env (preemptive_topic env st s) \<mapsto> s),
          m_provider_cache := Provider_Cache.pin_subnet s (m_provider_cache st)\<rparr>))"
  "unpin_subnet env s st =
     (case me_unsubscribe env (preemptive_topic env st s) (m_inner st) of
        (Inl e, g) \<Rightarrow> (Inl e, st\<lparr>m_inner := g\<rparr>)
      | (Inr _, g) \<Rightarrow> (Inr (), st\<lparr>m_inner := g,
          m_preemptive_topics :=
            (m_preemptive_topics st)(me_topic_hash env (preemptive_topic env st s) := None),
          m_provider_cache := Provider_Cache.unpin_subnet s (m_provider_cache st)\<rparr>))"
  by (simp_all add: pin_subnet_def unpin_subnet_def
      preemptive_subscribe_def preemptive_unsubscribe_def inner_op_def bind_op_def Let_def
      split: prod.splits sum.splits)

lemmas subscription_cases = voting_subscribe_cases voting_unsubscribe_cases pin_subnet_cases

lemma snd_gossip_error [simp]: "snd (gossip_error f st) = snd (f st)"
  by (simp add: gossip_error_def split: prod.splits sum.splits)

lemma gossip_error_Inr [simp]: "gossip_error f st = (Inr a, st') \<longleftrightarrow> f st = (Inr a, st')"
  by (auto simp: gossip_error_def split: prod.splits sum.splits)

text \<open>The fields that only pinning and the cache handlers change.\<close>

definition same_pins where
  "same_pins st st' \<longleftrightarrow>
     m_network_name st' = m_network_name st \<and> m_preemptive_topics st' = m_preemptive_topics st \<and>
     m_provider_cache st' = m_provider_cache st \<and> m_outbox st' = m_outbox st"

lemma same_pins_publish_membership:
  "same_pins st st' \<Longrightarrow> same_pins st (snd (publish_membership env clk st'))"
  by (simp add: same_pins_def)

lemma same_pins_voting:
  "same_pins st st' \<Longrightarrow> same_pins st (snd (voting_subscribe env s st'))"
  "same_pins st st' \<Longrightarrow> same_pins st (snd (voting_unsubscribe env s st'))"
  by (auto simp: same_pins_def subscription_cases split: prod.splits sum.splits)

lemma same_pins_subnet_ids [simp]:
  "same_pins st (st'\<lparr>m_subnet_ids := ids\<rparr>) \<longleftrightarrow> same_pins st st'"
  by (simp add: same_pins_def)

lemma same_pins_refl [intro!, simp]: "same_pins st st"
  by (simp add: same_pins_def)

lemmas same_pins_intros = bind_op_keeps [where P = "same_pins _"] same_pins_publish_membership
  each_op_keeps [where P = "same_pins _"] same_pins_voting

lemma same_pins_provided:
  "same_pins st (snd (set_provided_subnets env clk ids st))"
  "same_pins st (snd (add_provided_subnet env clk s st))"
  "same_pins st (snd (remove_provided_subnet env clk s st))"
  unfolding set_provided_subnets_def add_provided_subnet_def remove_provided_subnet_def Let_def
  by (auto intro!: same_pins_intros)

lemma each_voting_unsubscribe:
  "each_op (voting_unsubscribe env) xs st = (Inr (), st') \<Longrightarrow>
   \<exists>g. st' = st\<lparr>m_inner := g, m_voting_topics :=
             m_voting_topics st - (\<lambda>s. me_topic_hash env (voting_topic env st s)) ` set xs\<rparr>"
proof (induction xs arbitrary: st)
  case (Cons s xs)
  then obtain u where "voting_unsubscribe env s st = (Inr (), u)"
    and u: "each_op (voting_unsubscribe env) xs u = (Inr (), st')"
    by auto
  then obtain g where "u = st\<lparr>m_inner := g, m_voting_topics :=
      m_voting_topics st - {me_topic_hash env (voting_topic env st s)}\<rparr>"
    by (auto simp: subscription_cases split: prod.splits sum.splits)
  with Cons.IH [OF u] show ?case
    by (auto simp flip: Diff_insert2)
qed (auto intro: exI [of _ "m_inner st'"])

lemma each_voting_subscribe:
  "each_op (voting_subscribe env) xs st = (Inr (), st') \<Longrightarrow>
   \<exists>g. st' = st\<lparr>m_inner := g, m_voting_topics :=
             m_voting_topics st \<union> (\<lambda>s. me_topic_hash env (voting_topic env st s)) ` set xs\<rparr>"
proof (induction xs arbitrary: st)
  case (Cons s xs)
  then obtain u where "voting_subscribe env s st = (Inr (), u)"
    and u: "each_op (voting_subscribe env) xs u = (Inr (), st')"
    by auto
  then obtain g where "u = st\<lparr>m_inner := g, m_voting_topics :=
      insert (me_topic_hash env (voting_topic env st s)) (m_voting_topics st)\<rparr>"
    by (auto simp: subscription_cases split: prod.splits sum.splits)
  with Cons.IH [OF u] show ?case
    by auto
qed (auto intro: exI [of _ "m_inner st'"])

lemma each_op_succeeds: "(\<And>x u. \<not> isl (fst (f x u))) \<Longrightarrow> \<exists>t. each_op f xs s = (Inr (), t)"
proof (induction xs arbitrary: s)
  case (Cons x xs)
  obtain u where "f x s = (Inr (), u)"
    using Cons.prems [of x s] by (cases "f x s"; cases "fst (f x s)") auto
  with Cons show ?case
    by simp
qed simp

lemma voting_succeeds:
  assumes "subscriptions_succeed env"
  shows "\<not> isl (fst (voting_subscribe env s st))" and "\<not> isl (fst (voting_unsubscribe env s st))"
proof -
  have "\<not> isl (fst (me_subscribe env t g))" "\<not> isl (fst (me_unsubscribe env t g))" for t g
    using assms by (simp_all add: subscriptions_succeed_def)
  from this(1) [of "voting_topic env st s" "m_inner st"] this(2) [of "voting_topic env st s" "m_inner st"]
  show "\<not> isl (fst (voting_subscribe env s st))" "\<not> isl (fst (voting_unsubscribe env s st))"
    by (auto simp: subscription_cases split: prod.splits sum.splits)
qed

lemma voting_topic_eq_iff:
  "topics_distinct env \<Longrightarrow>
   me_topic_hash env (voting_topic env st s) = me_topic_hash env (voting_topic env st s') \<longleftrightarrow> s = s'"
  "topics_distinct env \<Longrightarrow>
   me_topic_hash env (preemptive_topic env st s) = me_topic_hash env (preemptive_topic env st s') \<longleftrightarrow>
   s = s'"
  by (auto simp: topics_distinct_def voting_topic_def preemptive_topic_def inj_def)

section \<open>Preservation of the invariants\<close>

lemma same_topics_cong:
  "same_topics st st' \<Longrightarrow> voting_topic env st' s = voting_topic env st s"
  "same_topics st st' \<Longrightarrow> preemptive_topic env st' s = preemptive_topic env st s"
  by (simp_all add: same_topics_def voting_topic_def preemptive_topic_def)

lemma membership_inv_same_topics:
  "same_topics st st' \<Longrightarrow> membership_inv env st \<Longrightarrow> cache_inv (m_provider_cache st') \<Longrightarrow>
   membership_inv env st'"
  by (simp add: membership_inv_def same_topics_cong) (simp add: same_topics_def)

lemma topics_agree_same_topics:
  "same_topics st st' \<Longrightarrow> topics_agree env st \<Longrightarrow> topics_agree env st'"
  by (simp add: topics_agree_def same_topics_cong) (simp add: same_topics_def)

lemma membership_inv_same_pins:
  "same_pins st st' \<Longrightarrow> membership_inv env st \<Longrightarrow> membership_inv env st'"
  by (simp add: membership_inv_def same_pins_def preemptive_topic_def)

lemma cache_inv_handle_provider_record:
  assumes "hash_order (me_subnet_order env)" and "cache_inv (m_provider_cache st)"
  shows "cache_inv (m_provider_cache (handle_provider_record env now r st))"
  using cache_inv_add_provider [OF assms, of r]
  by (auto simp: handle_provider_record_def Let_def split: prod.splits option.splits)

lemma cache_inv_handle_gossip_event:
  assumes "hash_order (me_subnet_order env)" and "cache_inv (m_provider_cache st)"
  shows "cache_inv (m_provider_cache (handle_gossip_event env now ev st))"
  using assms(2) cache_inv_handle_provider_record [OF assms]
  by (cases ev) (simp_all add: handle_gossip_event_def handle_subscriber_def handle_message_def
      handle_vote_record_def handle_preemptive_data_def split: sum.split option.split)

lemma cache_inv_poll_gossip:
  "hash_order (me_subnet_order env) \<Longrightarrow> cache_inv (m_provider_cache st) \<Longrightarrow>
   cache_inv (m_provider_cache (snd (poll_gossip env clk acts st)))"
  by (induction env clk acts st rule: poll_gossip.induct) (simp_all add: cache_inv_handle_gossip_event)

lemma m_provider_cache_prune:
  "m_provider_cache (prune_membership env now st) =
     snd (prune_providers (me_peer_order env) (sub_duration now (m_max_provider_age st))
       (m_provider_cache st))"
  by (simp add: prune_membership_def split: prod.split)

lemma cache_inv_poll:
  assumes "hash_order (me_subnet_order env)" and "cache_inv (m_provider_cache st)"
  shows "cache_inv (m_provider_cache (snd (poll env (clk, acts) st)))"
  using assms
  by (simp add: poll_def pop_outbox_def Let_def cache_inv_poll_gossip m_provider_cache_prune
      cache_inv_prune_providers split: list.split prod.split)

lemma membership_inv_pin:
  assumes "membership_inv env st"
  shows "membership_inv env (snd (pin_subnet env s st))"
    and "membership_inv env (snd (unpin_subnet env s st))"
  using assms
  by (auto simp: membership_inv_def subscription_cases Provider_Cache.pin_subnet_def
      Provider_Cache.unpin_subnet_def cache_inv_def split: prod.splits sum.splits if_splits)

lemma inner_op_frame [simp]:
  "m_network_name (snd (inner_op f st)) = m_network_name st"
  "m_preemptive_topics (snd (inner_op f st)) = m_preemptive_topics st"
  "m_provider_cache (snd (inner_op f st)) = m_provider_cache st"
  "m_outbox (snd (inner_op f st)) = m_outbox st"
  "m_voting_topics (snd (inner_op f st)) = m_voting_topics st"
  "m_subnet_ids (snd (inner_op f st)) = m_subnet_ids st"
  by (simp_all add: inner_op_def split: prod.splits)

lemma count_publish_frame [simp]:
  "m_network_name (snd (count_publish f st)) = m_network_name (snd (f st))"
  "m_preemptive_topics (snd (count_publish f st)) = m_preemptive_topics (snd (f st))"
  "m_provider_cache (snd (count_publish f st)) = m_provider_cache (snd (f st))"
  "m_outbox (snd (count_publish f st)) = m_outbox (snd (f st))"
  "m_voting_topics (snd (count_publish f st)) = m_voting_topics (snd (f st))"
  "m_subnet_ids (snd (count_publish f st)) = m_subnet_ids (snd (f st))"
  by (simp_all add: count_publish_def split: prod.splits sum.splits)

lemma same_topics_publish [intro!]:
  "same_topics st (snd (publish_vote env v st))"
  "same_topics st (snd (publish_preemptive env s b st))"
  by (simp_all add: same_topics_def publish_vote_def publish_preemptive_def Let_def)

lemma set_routable_frame [simp]:
  "m_provider_cache (set_routable env now p st) = Provider_Cache.set_routable p (m_provider_cache st)"
  "m_provider_cache (set_unroutable p st) = Provider_Cache.set_unroutable p (m_provider_cache st)"
  "m_outbox (set_unroutable p st) = m_outbox st @ [Removed p]"
  by (simp_all add: set_routable_def set_unroutable_def Let_def)

lemma same_topics_set_routable [intro!]:
  "same_topics st (set_routable env now p st)" "same_topics st (set_unroutable p st)"
  by (simp_all add: same_topics_def set_routable_def set_unroutable_def Let_def)

lemma membership_inv_apply:
  assumes "hash_order (me_subnet_order env)" and "membership_inv env st"
  shows "membership_inv env (membership_apply env clk l st)"
proof -
  note keep = membership_inv_same_topics [OF _ assms(2)]
  from assms(2) have inv: "cache_inv (m_provider_cache st)"
    by (simp add: membership_inv_def)
  show ?thesis
  proof (cases l)
    case (Poll acts)
    then show ?thesis
      by (simp, intro keep [OF same_topics_poll] cache_inv_poll assms(1) inv)
  next
    case (Publish_Vote v)
    with inv show ?thesis
      by (simp, intro keep [OF same_topics_publish(1)]) (simp add: publish_vote_def Let_def)
  next
    case (Publish_Preemptive s b)
    with inv show ?thesis
      by (simp, intro keep [OF same_topics_publish(2)]) (simp add: publish_preemptive_def)
  next
    case (Mark_Routable p)
    with inv show ?thesis
      by (simp, intro keep [OF same_topics_set_routable(1)]) auto
  next
    case (Mark_Unroutable p)
    with inv show ?thesis
      by (simp, intro keep [OF same_topics_set_routable(2)]) auto
  qed (use assms(2) in \<open>simp_all add: membership_inv_pin
      membership_inv_same_pins [OF same_pins_provided(1)]
      membership_inv_same_pins [OF same_pins_provided(2)]
      membership_inv_same_pins [OF same_pins_provided(3)]\<close>)
qed

lemma membership_inv_with_orders [simp]:
  "membership_inv (with_orders env so po) = membership_inv env"
  "topics_agree (with_orders env so po) = topics_agree env"
  "topics_distinct (with_orders env so po) = topics_distinct env"
  "subscriptions_succeed (with_orders env so po) = subscriptions_succeed env"
  by (simp_all add: fun_eq_iff membership_inv_def topics_agree_def topics_distinct_def
      subscriptions_succeed_def) (simp add: with_orders_def)

interpretation membership: invariant_system "membership_step env" "\<lambda>_. True" "membership_inv env"
  for env
proof unfold_locales
  fix st l st'
  assume "membership_step env st l st'" and "membership_inv env st"
  then show "membership_inv env st'"
    using membership_inv_apply [of "with_orders env _ _" st] by cases simp
qed

section \<open>Agreement of the subscriptions\<close>

lemma topics_agree_publish_membership [simp]:
  "topics_agree env (snd (publish_membership env clk st)) \<longleftrightarrow> topics_agree env st"
  by (simp add: topics_agree_def voting_topic_def preemptive_topic_def)

lemma image_diff_inj: "inj f \<Longrightarrow> f ` A - f ` (A - B) \<union> f ` (B - A) = f ` B"
  by (auto simp: inj_def)

lemma topics_agree_set_provided:
  assumes "subscriptions_succeed env" and "topics_distinct env" and "topics_agree env st"
  shows "topics_agree env (snd (set_provided_subnets env clk ids st))"
proof -
  let ?h = "\<lambda>s. me_topic_hash env (voting_topic env st s)"
  let ?old = "m_subnet_ids st"
  let ?rem = "filter (\<lambda>s. s \<notin> set ids) ?old" and ?add = "filter (\<lambda>s. s \<notin> set ?old) ids"
  obtain st1 where st1: "each_op (voting_unsubscribe env) ?rem (st\<lparr>m_subnet_ids := []\<rparr>) = (Inr (), st1)"
    using each_op_succeeds [of "voting_unsubscribe env", OF voting_succeeds(2) [OF assms(1)]] by blast
  obtain st2 where st2: "each_op (voting_subscribe env) ?add st1 = (Inr (), st2)"
    using each_op_succeeds [of "voting_subscribe env", OF voting_succeeds(1) [OF assms(1)]] by blast
  from each_voting_unsubscribe [OF st1] obtain g1 where g1: "st1 = st\<lparr>m_subnet_ids := [],
      m_inner := g1, m_voting_topics := m_voting_topics st - ?h ` set ?rem\<rparr>"
    by auto
  from each_voting_subscribe [OF st2] obtain g2 where "st2 = st\<lparr>m_subnet_ids := [], m_inner := g2,
      m_voting_topics := m_voting_topics st - ?h ` set ?rem \<union> ?h ` set ?add\<rparr>"
    by (auto simp: g1)
  moreover have "inj ?h"
    by (rule injI) (simp add: voting_topic_eq_iff [OF assms(2)])
  then have "?h ` set ?old - ?h ` (set ?old - set ids) \<union> ?h ` (set ids - set ?old) = ?h ` set ids"
    by (rule image_diff_inj)
  moreover have "snd (set_provided_subnets env clk ids st) =
      snd (publish_membership env clk (st2\<lparr>m_subnet_ids := ids\<rparr>))"
    using st1 st2 by (simp add: set_provided_subnets_def Let_def bind_op_def gossip_error_def)
  ultimately show ?thesis
    using assms(3) by (simp add: topics_agree_def set_diff_eq preemptive_topic_def voting_topic_def)
qed

lemma topics_agree_add_provided:
  assumes "subscriptions_succeed env" and "topics_agree env st"
  shows "topics_agree env (snd (add_provided_subnet env clk s st))"
proof (cases "s \<in> set (m_subnet_ids st)")
  case False
  obtain b g where "me_subscribe env (voting_topic env st s) (m_inner st) = (Inr b, g)"
    using assms(1) unfolding subscriptions_succeed_def
    by (metis (no_types, opaque_lifting) isl_def sum.exhaust_sel prod.collapse)
  then show ?thesis
    using False assms(2)
    by (simp add: add_provided_subnet_def bind_op_def gossip_error_def subscription_cases)
      (simp add: topics_agree_def preemptive_topic_def voting_topic_def)
qed (simp add: add_provided_subnet_def assms(2))

lemma topics_agree_remove_provided:
  assumes "subscriptions_succeed env" and "topics_distinct env" and "topics_agree env st"
  shows "topics_agree env (snd (remove_provided_subnet env clk s st))"
proof (cases "s \<in> set (m_subnet_ids st)")
  case True
  obtain b g where "me_unsubscribe env (voting_topic env st s) (m_inner st) = (Inr b, g)"
    using assms(1) unfolding subscriptions_succeed_def
    by (metis (no_types, opaque_lifting) isl_def sum.exhaust_sel prod.collapse)
  then show ?thesis
    using True assms(3) voting_topic_eq_iff(1) [OF assms(2), of st]
    by (simp add: remove_provided_subnet_def bind_op_def gossip_error_def subscription_cases)
      (auto simp: topics_agree_def preemptive_topic_def voting_topic_def)
qed (simp add: remove_provided_subnet_def assms(3))

lemma topics_agree_pin:
  assumes "topics_distinct env" and "topics_agree env st"
  shows "topics_agree env (snd (pin_subnet env s st))"
    and "topics_agree env (snd (unpin_subnet env s st))"
  using assms(2) voting_topic_eq_iff(2) [OF assms(1), of st]
  by (auto simp: topics_agree_def subscription_cases Provider_Cache.pin_subnet_def
      Provider_Cache.unpin_subnet_def voting_topic_def preemptive_topic_def
      split: prod.splits sum.splits)

lemma topics_agree_apply:
  assumes "subscriptions_succeed env" and "topics_distinct env" and "topics_agree env st"
  shows "topics_agree env (membership_apply env clk l st)"
  using assms topics_agree_same_topics [OF _ assms(3)]
  by (cases l) (auto simp: topics_agree_set_provided topics_agree_add_provided
      topics_agree_remove_provided topics_agree_pin)

interpretation subscribed: invariant_system "membership_step env"
  "\<lambda>_. subscriptions_succeed env \<and> topics_distinct env" "topics_agree env"
  for env
proof unfold_locales
  fix st l st'
  assume "membership_step env st l st'" "subscriptions_succeed env \<and> topics_distinct env"
    "topics_agree env st"
  then show "topics_agree env st'"
    using topics_agree_apply [of "with_orders env _ _" st] by cases simp
qed

text \<open>The constructor establishes both.\<close>

lemma new_cases:
  assumes "new env now nc mc = Inr st"
  obtains topic g where
    "each_op (pin_subnet env) (mc_static_subnets mc) (initial_state env now nc mc topic g) = (Inr (), st)"
proof -
  let ?topic = "Ident_Topic (PUBSUB_MEMBERSHIP @ CHR ''/'' # nc_network_name nc)"
  from assms obtain g0 where
    "(case me_subscribe env ?topic g0 of (Inl e, _) \<Rightarrow> Inl (Subscription e)
      | (Inr _, g) \<Rightarrow> (case each_op (pin_subnet env) (mc_static_subnets mc)
            (initial_state env now nc mc ?topic g) of
          (Inl e, _) \<Rightarrow> Inl (Subscription e) | (Inr _, st) \<Rightarrow> Inr st)) = Inr st"
    by (auto simp: new_def Let_def split: if_splits)
  then show ?thesis
    by (cases "me_subscribe env ?topic g0") (auto split: sum.splits prod.splits intro: that)
qed

lemma initial_state_inv:
  "membership_inv env (initial_state env now nc mc topic g)"
  "topics_agree env (initial_state env now nc mc topic g)"
  by (auto simp: membership_inv_def topics_agree_def initial_state_def) (simp add: cache_new_def)

lemma each_op_result_keeps:
  "each_op f xs s = (r, t) \<Longrightarrow> P s \<Longrightarrow> (\<And>x u. x \<in> set xs \<Longrightarrow> P u \<Longrightarrow> P (snd (f x u))) \<Longrightarrow> P t"
  using each_op_keeps [of P s xs f] by simp

lemma new_inv:
  assumes "new env now nc mc = Inr st"
  shows "membership_inv env st" and "topics_distinct env \<Longrightarrow> topics_agree env st"
proof -
  from assms obtain topic g where each:
    "each_op (pin_subnet env) (mc_static_subnets mc) (initial_state env now nc mc topic g) = (Inr (), st)"
    by (rule new_cases)
  from each show "membership_inv env st"
    by (rule each_op_result_keeps) (rule initial_state_inv membership_inv_pin; assumption?)+
  from each show "topics_agree env st" if "topics_distinct env"
    by (rule each_op_result_keeps) (simp_all add: initial_state_inv topics_agree_pin that)
qed

lemma add_provider_routable:
  "add_provider ord c r = (None, c') \<Longrightarrow> pr_peer_id r \<notin> routable_peers c"
  "add_provider ord c r = (Some d, c') \<Longrightarrow> pr_peer_id r \<in> routable_peers c"
  by (auto simp: add_provider_def is_routable_def Let_def split: prod.splits if_splits)

lemma sample_new: "new sample_env (Timestamp 100) sample_network sample_config = Inr sample_state"
  by (simp add: sample_state_def new_def sample_env_def sample_network_def Let_def sample_config_def
      pin_subnet_cases bind_op_def)

lemma sample_succeeds: "subscriptions_succeed sample_env"
  by (simp add: subscriptions_succeed_def sample_env_def)

lemma sample_distinct: "topics_distinct sample_env"
proof -
  have "inj (\<lambda>s :: u8. replace_char CHR ''/'' CHR ''_'' (replicate (unat s) CHR ''a''))"
    by (rule injI, drule arg_cong [where f = length]) (simp add: replace_char_def word_unat_eq_iff)
  then show ?thesis
    by (auto simp: topics_distinct_def sample_env_def inj_def split: topic.splits)
qed

lemma membership_step_one:
  "hash_order (me_subnet_order env) \<Longrightarrow> hash_order (me_peer_order env) \<Longrightarrow>
   runs (membership_step env) st [l] (membership_apply env clk l st)"
proof (rule runs_one)
  assume "hash_order (me_subnet_order env)" "hash_order (me_peer_order env)"
  from membership_step.intros [OF this, of env st l clk]
  show "membership_step env st l (membership_apply env clk l st)"
    by (simp add: with_orders_def)
qed

lemma sample_fields:
  "m_outbox sample_state = []"
  "m_next_publish_timestamp sample_state = Timestamp 160"
  "m_last_publish_timestamp sample_state = Timestamp 0"
  "m_min_time_between_publish sample_state = from_secs 5"
  "m_max_provider_age sample_state = from_secs 300"
  by (simp_all add: sample_state_def new_def sample_env_def sample_network_def Let_def sample_config_def
      pin_subnet_cases bind_op_def initial_state_def add_duration_def saturating_add_def bot_timestamp_def)

lemma sample_routable: "routable_peers (m_provider_cache sample_state) = {}"
  by (simp add: sample_state_def new_def sample_env_def sample_network_def Let_def sample_config_def
      pin_subnet_cases bind_op_def initial_state_def Provider_Cache.pin_subnet_def cache_new_def)

section \<open>Properties\<close>



text \<open>
  In every reachable state, whatever gossipsub answers, the provider cache has its invariant,
  and a topic of pre-emptive data belongs to a pinned subnet.
\<close>

theorem membership_reachable_inv:
  assumes "new env now nc mc = Inr st0" and "runs (membership_step env) st0 ls st"
  shows "cache_inv (m_provider_cache st) \<and>
    (\<forall>t s. m_preemptive_topics st t = Some s \<longrightarrow>
       t = me_topic_hash env (preemptive_topic env st s) \<and>
       s \<in> pinned_subnets (m_provider_cache st))"
  using membership.runs_inv [OF assms(2) _ new_inv(1) [OF assms(1)]]
  by (simp add: membership_inv_def list_all_iff)

theorem membership_reachable_inv_witness:
  "cache_inv (m_provider_cache
     (membership_apply sample_env (\<lambda>_. Timestamp 120) (Mark_Routable 9) sample_state))"
  using membership_reachable_inv
    [OF sample_new membership_step_one [of sample_env sample_state "Mark_Routable 9" "\<lambda>_. Timestamp 120"]]
  by (simp add: sample_env_def hash_order_sorted_list)

text \<open>
  C28. A message raises at most one event, and only a justified one: provider events speak about the
  signer of a record received on the membership topic, votes come from a subscribed voting topic
  and carry the key that signed them, pre-emptive data come from the topic of its subnet. A message
  that does not verify raises none.
\<close>

theorem handle_message_justified:
  "m_outbox (handle_message env now msg st) = m_outbox st \<or>
   (\<exists>ev. m_outbox (handle_message env now msg st) = m_outbox st @ [ev] \<and>
      event_justified env st msg ev)"
proof (cases "gm_topic msg = me_topic_hash env (m_membership_topic st)")
  case True
  show ?thesis
  proof (cases "from_bytes (me_envelopes env) (provider_record_kind (me_to_peer_id env))
      (me_provider_codec env) (gm_data msg)")
    case (Inr sr)
    then obtain key where "opened_by (me_envelopes env) ''/ipc/provider-record'' (gm_data msg) key"
      "pr_peer_id (sr_record sr) = me_to_peer_id env key"
      by (auto simp: from_bytes_Inr_iff opened_by_def provider_record_kind_def)
    with True Inr show ?thesis
      by (auto simp: handle_message_def handle_provider_record_def Let_def
          split: prod.split option.split dest: add_provider_routable)
  qed (simp add: handle_message_def True)
next
  case False
  then show ?thesis
    by (auto simp: handle_message_def handle_vote_record_def handle_preemptive_data_def
        from_bytes_Inr_iff opened_by_def vote_record_kind_def split: sum.split option.split)
qed

text \<open>
  What a provider record does: a peer that is not routable is skipped with an event that asks
  for its address, and counted as skipped; a record that is not newer than the last one of a known peer changes nothing;
  a newer one updates the cache and is announced exactly when it changed the subnets of the peer
  or the peer is new.
\<close>

theorem handle_provider_record_events:
  assumes "p = pr_peer_id r" and "c = m_provider_cache st"
    and "st' = handle_provider_record env now r st"
  shows "(p \<notin> routable_peers c \<longrightarrow>
       st' = st\<lparr>m_outbox := m_outbox st @ [Skipped p],
               m_metrics := inc MEMBERSHIP_SKIPPED_PEERS (m_metrics st)\<rparr>) \<and>
    (p \<in> routable_peers c \<and> has_timestamp c p \<and> \<not> known_timestamp c p < pr_timestamp r \<longrightarrow>
       st' = st) \<and>
    (p \<in> routable_peers c \<and> known_timestamp c p < pr_timestamp r \<longrightarrow>
       (\<exists>d. add_provider (me_subnet_order env) c r = (Some d, m_provider_cache st') \<and>
          m_outbox st' = m_outbox st @
            (if pd_is_new d \<or> pd_added d \<noteq> [] \<or> pd_removed d \<noteq> [] then [Updated p d] else [])))"
proof -
  have "has_timestamp c p \<Longrightarrow> (peer_timestamps c)(p \<mapsto> known_timestamp c p) = peer_timestamps c"
    by (auto simp: has_timestamp_def known_timestamp_def)
  moreover have "p \<in> routable_peers c \<Longrightarrow> \<exists>d c'. add_provider (me_subnet_order env) c r = (Some d, c')"
    using assms(1) add_provider_routable(1) [of "me_subnet_order env" c r]
    by (cases "add_provider (me_subnet_order env) c r"; cases "fst (add_provider (me_subnet_order env) c r)") auto
  ultimately show ?thesis
  proof (intro conjI impI)
    assume "p \<in> routable_peers c \<and> known_timestamp c p < pr_timestamp r"
    then obtain d c' where "add_provider (me_subnet_order env) c r = (Some d, c')"
      using \<open>p \<in> routable_peers c \<Longrightarrow> _\<close> by blast
    with assms show "\<exists>d. add_provider (me_subnet_order env) c r = (Some d, m_provider_cache st') \<and>
        m_outbox st' = m_outbox st @
          (if pd_is_new d \<or> pd_added d \<noteq> [] \<or> pd_removed d \<noteq> [] then [Updated p d] else [])"
      by (intro exI [of _ d]) (auto simp: handle_provider_record_def delta_is_empty_def Let_def)
  qed (use assms in \<open>auto simp: handle_provider_record_def add_provider_unroutable add_provider_stale
      push_event_def delta_is_empty_def Let_def\<close>)
qed

theorem handle_provider_record_events_witness:
  "handle_provider_record sample_env (Timestamp 120)
     \<lparr>pr_peer_id = 9, pr_subnet_ids = [3], pr_timestamp = Timestamp 110\<rparr> sample_state =
   sample_state\<lparr>m_outbox := m_outbox sample_state @ [Skipped 9],
     m_metrics := inc MEMBERSHIP_SKIPPED_PEERS (m_metrics sample_state)\<rparr>"
  using handle_provider_record_events [OF refl refl refl, where st = sample_state and
      env = sample_env and now = "Timestamp 120" and
      r = "\<lparr>pr_peer_id = 9, pr_subnet_ids = [3], pr_timestamp = Timestamp 110\<rparr>"]
  by (simp add: sample_routable)

text \<open>
  However many peers join, at whatever times, they never delay the next publication of the own
  record: the scheduled time only moves forward in the queue, and the time of the last publication
  is not touched.
\<close>

theorem publish_for_new_peer_never_delays:
  "m_next_publish_timestamp (fold (publish_for_new_peer env) nows st) \<le> m_next_publish_timestamp st \<and>
   m_last_publish_timestamp (fold (publish_for_new_peer env) nows st) = m_last_publish_timestamp st"
  by (rule fold_keeps) (auto simp: publish_for_new_peer_def)

text \<open>
  A new peer triggers a publication only if there is something to publish and the last one is at
  least the minimum time ago; it is then scheduled that minimum time ahead.
\<close>

theorem publish_for_new_peer_rate:
  assumes "publish_for_new_peer env now st \<noteq> st"
  shows "m_subnet_ids st \<noteq> [] \<and>
    m_last_publish_timestamp st \<le> sub_duration now (m_min_time_between_publish st) \<and>
    m_next_publish_timestamp (publish_for_new_peer env now st) =
      add_duration now (m_min_time_between_publish st) \<and>
    add_duration now (m_min_time_between_publish st) < m_next_publish_timestamp st"
  using assms by (auto simp: publish_for_new_peer_def not_less not_le split: if_splits)

theorem publish_for_new_peer_rate_witness:
  "m_next_publish_timestamp (publish_for_new_peer sample_env (Timestamp 120)
     (sample_state\<lparr>m_subnet_ids := [4]\<rparr>)) = Timestamp 125"
proof -
  let ?st = "sample_state\<lparr>m_subnet_ids := [4]\<rparr>"
  have "m_next_publish_timestamp (publish_for_new_peer sample_env (Timestamp 120) ?st) \<noteq>
      m_next_publish_timestamp ?st"
    by (simp add: sample_fields publish_for_new_peer_def sub_duration_def add_duration_def
        saturating_add_def saturating_sub_def less_eq_timestamp_def less_timestamp_def)
  then have "publish_for_new_peer sample_env (Timestamp 120) ?st \<noteq> ?st"
    by metis
  from publish_for_new_peer_rate [OF this] show ?thesis
    by (simp add: sample_fields add_duration_def saturating_add_def)
qed

text \<open>
  C38. The scheduled clean-up removes exactly the peers without a record since the cutoff, from the
  timestamps and from the providers of every subnet, and raises one \<open>Removed\<close> event for each.
\<close>

theorem prune_membership_exact:
  assumes "hash_order (me_peer_order env)" and "cache_inv (m_provider_cache st)"
    and "cutoff = sub_duration now (m_max_provider_age st)"
  shows "\<exists>ps. m_outbox (prune_membership env now st) = m_outbox st @ map Removed ps \<and> distinct ps \<and>
    set ps = {p. \<exists>t. peer_timestamps (m_provider_cache st) p = Some t \<and> t < cutoff} \<and>
    peer_timestamps (m_provider_cache (prune_membership env now st)) =
      peer_timestamps (m_provider_cache st) |` (- set ps) \<and>
    (\<forall>s. set_at (subnet_providers (m_provider_cache (prune_membership env now st))) s =
       set_at (subnet_providers (m_provider_cache st)) s - set ps)"
proof -
  let ?c = "m_provider_cache st"
  let ?ps = "fst (prune_providers (me_peer_order env) cutoff ?c)"
  have "set ?ps = {p. \<exists>t. peer_timestamps ?c p = Some t \<and> t < cutoff}"
    using set_fst_prune_providers [OF assms(1,2), of cutoff] by (auto simp: directory_of_def)
  moreover have "distinct ?ps"
    using assms(1) finite_timestamps [OF assms(2)] by (simp add: prune_providers_def Let_def)
  ultimately show ?thesis
    using assms(3)
    by (intro exI [of _ ?ps])
      (simp add: prune_membership_def prune_providers_def Let_def split: prod.split)
qed

theorem prune_membership_exact_witness:
  "m_outbox (prune_membership sample_env (Timestamp 1000)
     (sample_state\<lparr>m_provider_cache :=
        \<lparr>max_subnets = 2, pinned_subnets = {}, routable_peers = {8, 9}, subnet_providers = Map.empty,
         peer_timestamps = [8 \<mapsto> Timestamp 650, 9 \<mapsto> Timestamp 950]\<rparr>\<rparr>)) = [Removed 8]"
proof -
  let ?c = "\<lparr>max_subnets = 2, pinned_subnets = {}, routable_peers = {8, 9 :: u8},
    subnet_providers = Map.empty :: u8 \<rightharpoonup> u8 set,
    peer_timestamps = [8 \<mapsto> Timestamp 650, 9 \<mapsto> Timestamp 950]\<rparr>"
  let ?st = "sample_state\<lparr>m_provider_cache := ?c\<rparr>"
  have "hash_order (me_peer_order sample_env)"
    by (simp add: sample_env_def hash_order_sorted_list)
  moreover have "cache_inv (m_provider_cache ?st)"
    by (simp add: cache_inv_def)
  ultimately obtain ps where ps:
    "m_outbox (prune_membership sample_env (Timestamp 1000) ?st) = m_outbox ?st @ map Removed ps"
    "distinct ps" "set ps = {p. \<exists>t. peer_timestamps ?c p = Some t \<and> t < Timestamp 700}"
    using prune_membership_exact [OF _ _ refl, of sample_env ?st "Timestamp 1000"]
    by (auto simp: sample_fields sub_duration_def saturating_sub_def)
  from ps(3) have "set ps = {8}"
    by (auto simp: less_timestamp_def split: if_splits)
  with ps(2) have "ps = [8]"
    by (cases ps; cases "tl ps") auto
  with ps(1) show ?thesis
    by (simp add: sample_fields)
qed

text \<open>
  Topics separate networks, subnets and purposes: if network names and printed subnet identifiers
  do not contain an underscore, two voting topics, or two pre-emptive topics, are equal only for the
  same network and the same printed subnet, and no voting topic equals a pre-emptive one.
\<close>

theorem topics_separate:
  assumes "CHR ''_'' \<notin> set (m_network_name st)" and "CHR ''_'' \<notin> set (m_network_name st')"
    and "CHR ''_'' \<notin> set (me_subnet_string env s)" and "CHR ''_'' \<notin> set (me_subnet_string env s')"
  shows "(voting_topic env st s = voting_topic env st' s' \<longleftrightarrow>
      m_network_name st = m_network_name st' \<and> me_subnet_string env s = me_subnet_string env s') \<and>
    (preemptive_topic env st s = preemptive_topic env st' s' \<longleftrightarrow>
      m_network_name st = m_network_name st' \<and> me_subnet_string env s = me_subnet_string env s') \<and>
    voting_topic env st s \<noteq> preemptive_topic env st' s'"
proof -
  have sep: "CHR ''/'' \<notin> set (replace_char CHR ''/'' CHR ''_'' n)" for n
    by (rule replace_char_absent) simp
  have eq: "replace_char CHR ''/'' CHR ''_'' m = replace_char CHR ''/'' CHR ''_'' n \<longleftrightarrow> m = n"
    if "CHR ''_'' \<notin> set m" "CHR ''_'' \<notin> set n" for m n
    using replace_char_inj [OF that] by blast
  show ?thesis
    using eq [OF assms(1,2)] eq [OF assms(3,4)]
    by (simp add: voting_topic_def preemptive_topic_def append_sep_eq_iff [OF sep sep])
      (simp add: PUBSUB_VOTES_def PUBSUB_PREEMPTIVE_def)
qed

theorem topics_separate_witness:
  "voting_topic sample_env sample_state 3 \<noteq> voting_topic sample_env sample_state 4"
proof -
  have "m_network_name sample_state = ''testnet''"
    by (simp add: sample_state_def new_def sample_env_def sample_network_def Let_def sample_config_def
        pin_subnet_cases bind_op_def initial_state_def)
  with topics_separate [of sample_state sample_state sample_env 3 4] show ?thesis
    by (simp add: sample_env_def)
qed

text \<open>Replacing the slash by an underscore is not injective on all names.\<close>

lemma topics_collide:
  "voting_topic env (st\<lparr>m_network_name := ''a/b''\<rparr>) s = voting_topic env (st\<lparr>m_network_name := ''a_b''\<rparr>) s"
  by (simp add: voting_topic_def replace_char_def)

text \<open>
  When gossipsub refuses to unsubscribe from the first removed subnet, setting the provided
  subnets fails and leaves the agent without provided subnets, although it is still subscribed to
  the voting topics of the old ones.
\<close>

theorem set_provided_subnets_failure:
  assumes "m_subnet_ids st = s # ss" and "s \<notin> set ids"
    and "me_unsubscribe env (voting_topic env st s) (m_inner st) = (Inl e, g)"
  shows "set_provided_subnets env clk ids st =
    (Inl (Gossip_Error e), st\<lparr>m_inner := g, m_subnet_ids := []\<rparr>)"
  using assms
  by (simp add: set_provided_subnets_def Let_def gossip_error_def bind_op_def subscription_cases)

theorem set_provided_subnets_failure_witness:
  "m_subnet_ids (snd (set_provided_subnets (sample_env\<lparr>me_unsubscribe := (\<lambda>_ g. (Inl ''offline'', g))\<rparr>)
     (\<lambda>_. Timestamp 120) [5] (sample_state\<lparr>m_subnet_ids := [4]\<rparr>))) = []"
  by (subst set_provided_subnets_failure [where s = 4 and ss = "[]" and e = "''offline''" and g = "()"])
    (simp_all add: sample_env_def)

interpretation membership_outbox: outbox_behaviour
  m_outbox "\<lambda>evs. m_outbox_update (\<lambda>_. evs)" "poll env" for env
  by unfold_locales (auto simp: poll_def)

text \<open>
  Polls deliver the waiting events first, in the order in which they were raised: as many polls
  as there are waiting events return exactly those and change nothing but the outbox, whatever the
  timer and gossipsub have ready.
\<close>

theorem membership_poll_fifo:
  assumes "length is = length (m_outbox st)"
  shows "poll_many (poll env) is st = (map Generate_Event (m_outbox st), st\<lparr>m_outbox := []\<rparr>)"
  using membership_outbox.poll_many_waiting [OF assms] .

theorem membership_poll_fifo_witness:
  "poll_many (poll sample_env) [(\<lambda>_. Timestamp 1, []), (\<lambda>_. Timestamp 2, [])]
     (sample_state\<lparr>m_outbox := [Removed 8, Skipped 9]\<rparr>) =
   ([Generate_Event (Removed 8), Generate_Event (Skipped 9)], sample_state\<lparr>m_outbox := []\<rparr>)"
  using membership_poll_fifo [of "[(\<lambda>_. Timestamp 1, []), (\<lambda>_. Timestamp 2, [])]"
      "sample_state\<lparr>m_outbox := [Removed 8, Skipped 9]\<rparr>" sample_env]
  by simp

text \<open>
  An event raised while gossipsub is polled stays in the outbox when the poll returns \<open>Pending\<close>.
\<close>

lemma poll_pending_with_waiting_event:
  assumes "m_outbox st = []" and "me_poll_tick env (m_publish_interval st) = (False, iv)"
    and "gm_topic msg \<noteq> me_topic_hash env (m_membership_topic st)"
    and "gm_topic msg \<notin> m_voting_topics st" and "m_preemptive_topics st (gm_topic msg) = Some s"
  shows "poll env (clk, [Gossip_Event (Message msg)]) st =
    (Pending, st\<lparr>m_publish_interval := iv, m_outbox := [ReceivedPreemptive s (gm_data msg)]\<rparr>)"
  using assms
  by (simp add: poll_def pop_outbox_def handle_gossip_event_def handle_message_def
      handle_preemptive_data_def push_event_def)

end
