(* ===== verification/Discovery.thy ===== *)
theory Discovery
  imports Timestamps Outbox Network Metrics
begin

text \<open>
  The discovery behaviour of \<^verbatim>\<open>src/ipld/resolver/src/behaviour/discovery.rs\<close>: it keeps Kademlia
  supplied with addresses, looks up random peers until enough are connected, and reports which peers
  became routable.

  Kademlia, the timer and the parsing of peer identities are parameters, collected in
  \<open>discovery_env\<close>. \<open>num_connections\<close> is a machine word whose arithmetic wraps around. The panics of
  the code are explicit: an unwrapped multihash in \<open>new\<close> and the overflow of a doubled duration in
  \<open>poll\<close>.
\<close>

section \<open>Durations\<close>

text \<open>Multiplication of a duration by two, which panics on overflow, and the derived order.\<close>

definition duration_twice :: "duration \<Rightarrow> duration option" where
  "duration_twice d =
     (let nanos = 2 * unat (subsec_nanos d);
          secs = 2 * unat (as_secs_dur d) + nanos div 10 ^ 9
      in if secs < 2 ^ 64 then Some (Duration (of_nat secs) (of_nat (nanos mod 10 ^ 9))) else None)"

definition duration_min :: "duration \<Rightarrow> duration \<Rightarrow> duration" where
  "duration_min a b =
     (if as_secs_dur a < as_secs_dur b \<or>
         as_secs_dur a = as_secs_dur b \<and> subsec_nanos a \<le> subsec_nanos b then a else b)"

section \<open>Types\<close>

datatype 'peer discovery_event = Added 'peer "multiaddr list" | Removed 'peer

record discovery_config =
  dc_static_addresses :: "multiaddr list"
  dc_target_connections :: u64
  dc_enable_kademlia :: bool

datatype discovery_error =
    InvalidNetwork string
  | InvalidBootstrapAddress multiaddr
  | NoBootstrapAddress
  | Panicked string

record identify_info =
  listen_addrs :: "multiaddr list"
  protocols :: "string list"

datatype 'peer kad_event =
    UnroutablePeer 'peer
  | InboundRequest
  | BootstrapProgressed bool
  | QueryProgressed
  | RoutablePeer 'peer
  | PendingRoutablePeer 'peer multiaddr
  | RoutingUpdated 'peer "multiaddr list" "'peer option"

datatype ('peer, 'act) kad_action = Kad_Event "'peer kad_event" | Kad_Other 'act

record ('peer, 'key, 'k, 'iv, 'sev) discovery_env =
  de_local_peer_id :: "'key \<Rightarrow> 'peer"
  de_from_multihash :: "u8 list \<Rightarrow> 'peer option"
  de_kad_new :: "'peer \<Rightarrow> string \<Rightarrow> 'k"
  de_kad_add_address :: "'peer \<Rightarrow> multiaddr \<Rightarrow> 'k \<Rightarrow> 'k"
  de_kad_bootstrap :: "'k \<Rightarrow> (string, unit) result \<times> 'k"
  de_kad_closest_peers :: "'peer \<Rightarrow> 'k \<Rightarrow> 'k"
  de_kad_addresses :: "'k \<Rightarrow> 'peer \<Rightarrow> multiaddr list"
  de_kad_swarm_event :: "('peer, 'sev) swarm_event \<Rightarrow> 'k \<Rightarrow> 'k"
  de_interval :: "duration \<Rightarrow> 'iv"
  de_reset :: "'iv \<Rightarrow> 'iv"
  de_period :: "'iv \<Rightarrow> duration"
  de_poll_tick :: "'iv \<Rightarrow> bool \<times> 'iv"

text \<open>What the code relies on: resetting and polling a timer keep its period.\<close>

definition timer_laws where
  "timer_laws env \<longleftrightarrow>
     (\<forall>d. de_period env (de_interval env d) = d) \<and>
     (\<forall>iv. de_period env (de_reset env iv) = de_period env iv) \<and>
     (\<forall>iv. de_period env (snd (de_poll_tick env iv)) = de_period env iv)"

record ('peer, 'k, 'iv) discovery =
  d_peer_id :: 'peer
  d_static_addresses :: "('peer \<times> multiaddr) list"
  d_protocol_name :: string
  d_inner :: "'k option"
  d_num_connections :: u64
  d_target_connections :: u64
  d_lookup_interval :: 'iv
  d_bootstrap_buffer :: "('peer \<times> identify_info) list option"
  d_outbox :: "'peer discovery_event list"
  d_metrics :: metrics

section \<open>Operations\<close>

definition parse_static :: "(u8 list \<Rightarrow> 'peer option) \<Rightarrow> multiaddr \<Rightarrow>
    (discovery_error, 'peer \<times> multiaddr) result" where
  "parse_static from_multihash addr =
     (case rev addr of
        P2p mh # rest \<Rightarrow>
          (case from_multihash mh of
             None \<Rightarrow> Inl (Panicked ''from_multihash'')
           | Some p \<Rightarrow> Inr (p, rev rest))
      | _ \<Rightarrow> Inl (InvalidBootstrapAddress addr))"

definition new where
  "new env nc dc =
     (if nc_network_name nc = [] then Inl (InvalidNetwork (nc_network_name nc))
      else
        bind_result (collect_results (parse_static (de_from_multihash env))
            (dc_static_addresses dc)) (\<lambda>statics.
        let protocol_name = ''/ipc/'' @ nc_network_name nc @ ''/kad/1.0.0'';
            local_peer = de_local_peer_id env (nc_local_key nc);
            finish = (\<lambda>inner buffer outbox.
              Inr \<lparr>d_peer_id = local_peer, d_static_addresses = statics,
                   d_protocol_name = protocol_name, d_inner = inner, d_num_connections = 0,
                   d_target_connections = dc_target_connections dc,
                   d_lookup_interval = de_interval env (from_secs 1),
                   d_bootstrap_buffer = buffer, d_outbox = outbox, d_metrics = no_metrics\<rparr>)
        in if dc_enable_kademlia dc
           then let k = de_kad_new env local_peer protocol_name
                in if statics \<noteq> []
                   then let k = fold (\<lambda>(p, a). de_kad_add_address env p a) statics k
                        in (case de_kad_bootstrap env k of
                              (Inl _, _) \<Rightarrow> Inl NoBootstrapAddress
                            | (Inr _, k) \<Rightarrow> finish (Some k) (Some []) [])
                   else finish (Some k) None []
           else finish None None (map (\<lambda>(p, a). Added p [a]) statics)))"

definition addresses_of_peer where
  "addresses_of_peer env st p =
     map snd (filter (\<lambda>(q, a). q = p) (d_static_addresses st)) @
     (case d_inner st of None \<Rightarrow> [] | Some k \<Rightarrow> de_kad_addresses env k p)"

definition background_lookup where
  "background_lookup env p st =
     (if addresses_of_peer env st p = []
      then (case d_inner st of
              None \<Rightarrow> st
            | Some k \<Rightarrow>
                st\<lparr>d_inner := Some (de_kad_closest_peers env p k),
                   d_metrics := inc DISCOVERY_BACKGROUND_LOOKUP (d_metrics st)\<rparr>)
      else st)"

definition is_static where
  "is_static st p \<longleftrightarrow> list_ex (\<lambda>(q, a). q = p) (d_static_addresses st)"

definition add_address where
  "add_address env p addr st = st\<lparr>d_inner := map_option (de_kad_add_address env p addr) (d_inner st)\<rparr>"

definition add_identified where
  "add_identified env p info st =
     (if d_protocol_name st \<in> set (protocols info)
      then (case d_bootstrap_buffer st of
              Some buffer \<Rightarrow>
                if length buffer < unat (d_target_connections st) \<and> p \<notin> fst ` set buffer
                then st\<lparr>d_bootstrap_buffer := Some (buffer @ [(p, info)])\<rparr>
                else st
            | None \<Rightarrow> fold (add_address env p) (listen_addrs info) st)
      else st)"

definition on_swarm_event where
  "on_swarm_event env ev st =
     (let st = (case ev of
                  ConnectionEstablished p ep other_established \<Rightarrow>
                    if other_established = 0
                    then st\<lparr>d_metrics := inc DISCOVERY_CONNECTED_PEERS (d_metrics st),
                            d_num_connections := d_num_connections st + 1\<rparr> else st
                | ConnectionClosed p remaining_established \<Rightarrow>
                    if remaining_established = 0
                    then st\<lparr>d_metrics := dec DISCOVERY_CONNECTED_PEERS (d_metrics st),
                            d_num_connections := d_num_connections st - 1\<rparr> else st
                | Other_Swarm_Event _ \<Rightarrow> st)
      in st\<lparr>d_inner := map_option (de_kad_swarm_event env ev) (d_inner st)\<rparr>)"

text \<open>What a connection handler reports is for Kademlia.\<close>

definition on_connection_handler_event where
  "on_connection_handler_event inner_on_handler_event p conn ev st =
     st\<lparr>d_inner := map_option (inner_on_handler_event p conn ev) (d_inner st)\<rparr>"

definition push_event where
  "push_event ev st = st\<lparr>d_outbox := d_outbox st @ [ev]\<rparr>"

definition handle_kad_event where
  "handle_kad_event env ev st =
     (case ev of
        BootstrapProgressed True \<Rightarrow>
          (case d_bootstrap_buffer st of
             Some buffer \<Rightarrow>
               fold (\<lambda>(p, info). add_identified env p info) buffer (st\<lparr>d_bootstrap_buffer := None\<rparr>)
           | None \<Rightarrow> st)
      | PendingRoutablePeer p addr \<Rightarrow> push_event (Added p [addr]) st
      | RoutingUpdated p addrs old_peer \<Rightarrow>
          push_event (Added p addrs)
            (case old_peer of
               None \<Rightarrow> st
             | Some q \<Rightarrow> if is_static st q then push_event (Removed q) st else st)
      | _ \<Rightarrow> st)"

fun poll_kad ::
  "_ \<Rightarrow> ('peer, 'act) kad_action list \<Rightarrow> _ \<Rightarrow> ('peer discovery_event, 'act) poll_result \<times> _" where
  "poll_kad env [] st = (Pending, st)"
| "poll_kad env (Kad_Event ev # acts) st = poll_kad env acts (handle_kad_event env ev st)"
| "poll_kad env (Kad_Other act # acts) st = (Forward act, st)"

definition periodic_lookup where
  "periodic_lookup env random st =
     (if d_num_connections st < d_target_connections st
      then st\<lparr>d_inner := map_option (de_kad_closest_peers env random) (d_inner st)\<rparr> else st)"

definition poll where
  "poll env = (\<lambda>(random, acts) st.
     case pop_outbox d_outbox (\<lambda>evs. d_outbox_update (\<lambda>_. evs)) st of
       Some (ev, st) \<Rightarrow> (Generate_Event ev, st)
     | None \<Rightarrow>
         let (ready, iv) = de_poll_tick env (d_lookup_interval st);
             st = st\<lparr>d_lookup_interval := iv\<rparr>
         in if \<not> ready then poll_kad env acts st
            else let st = periodic_lookup env random st
                 in (case duration_twice (de_period env iv) of
                       None \<Rightarrow> (Panic ''duration overflow'', st)
                     | Some d \<Rightarrow>
                         poll_kad env acts
                           (st\<lparr>d_lookup_interval :=
                                de_reset env (de_interval env (duration_min d (from_secs 60)))\<rparr>)))"

section \<open>Histories\<close>

datatype ('peer, 'act) discovery_call =
    Background_Lookup 'peer
  | Add_Identified 'peer identify_info
  | Add_Address 'peer multiaddr
  | Poll_Discovery 'peer "('peer, 'act) kad_action list"

fun discovery_apply where
  "discovery_apply env (Background_Lookup p) st = background_lookup env p st"
| "discovery_apply env (Add_Identified p info) st = add_identified env p info st"
| "discovery_apply env (Add_Address p addr) st = add_address env p addr st"
| "discovery_apply env (Poll_Discovery random acts) st = snd (poll env (random, acts) st)"

text \<open>
  The buffer of the bootstrap phase is bounded, has one entry per peer, and only holds peers that
  speak the protocol of the network.
\<close>

definition buffer_inv where
  "buffer_inv st \<longleftrightarrow>
     (\<forall>buffer. d_bootstrap_buffer st = Some buffer \<longrightarrow>
        distinct (map fst buffer) \<and> length buffer \<le> unat (d_target_connections st) \<and>
        (\<forall>(p, info) \<in> set buffer. d_protocol_name st \<in> set (protocols info)))"

text \<open>The period of the random lookups: powers of two of a second, up to a minute.\<close>

definition interval_inv where
  "interval_inv env st \<longleftrightarrow>
     (\<exists>k. de_period env (d_lookup_interval st) = from_secs (of_nat (min (2 ^ k) 60)))"

definition discovery_inv where
  "discovery_inv env st \<longleftrightarrow> buffer_inv st \<and> interval_inv env st"

text \<open>The metric that shows the number of connected peers.\<close>

definition connected_gauge where
  "connected_gauge st = mx_value (d_metrics st) DISCOVERY_CONNECTED_PEERS"

text \<open>What the handlers keep: \<open>same_counters\<close> collects the fields that only few operations change.\<close>

definition same_counters where
  "same_counters st st' \<longleftrightarrow>
     d_num_connections st' = d_num_connections st \<and> connected_gauge st' = connected_gauge st \<and>
     d_target_connections st' = d_target_connections st \<and>
     d_protocol_name st' = d_protocol_name st \<and> d_lookup_interval st' = d_lookup_interval st"

text \<open>The word \<open>num_connections\<close> counts the connected peers, modulo its width, and so does the metric.\<close>

definition counts_connections where
  "counts_connections st C \<longleftrightarrow>
     d_num_connections st = of_nat (card C) \<and> connected_gauge st = of_nat (card C)"

text \<open>An instance of the parameters: Kademlia as the list of the known addresses.\<close>

definition sample_discovery_env ::
  "(u8, u8, (u8 \<times> multiaddr) list, duration, unit) discovery_env" where
  "sample_discovery_env =
     \<lparr>de_local_peer_id = (\<lambda>k. k), de_from_multihash = (\<lambda>mh. Some (of_nat (length mh))),
      de_kad_new = (\<lambda>_ _. []), de_kad_add_address = (\<lambda>p a k. (p, a) # k),
      de_kad_bootstrap = (\<lambda>k. (Inr (), k)), de_kad_closest_peers = (\<lambda>_ k. k),
      de_kad_addresses = (\<lambda>k p. map snd (filter (\<lambda>(q, a). q = p) k)),
      de_kad_swarm_event = (\<lambda>_ k. k), de_interval = (\<lambda>d. d), de_reset = (\<lambda>iv. iv),
      de_period = (\<lambda>iv. iv), de_poll_tick = (\<lambda>iv. (True, iv))\<rparr>"

definition sample_discovery :: "(u8, (u8 \<times> multiaddr) list, duration) discovery" where
  "sample_discovery =
     (case new sample_discovery_env \<lparr>nc_local_key = 1, nc_network_name = ''testnet''\<rparr>
        \<lparr>dc_static_addresses = [[Ip4 7, Tcp 1, P2p [1, 2, 3]]], dc_target_connections = 2,
         dc_enable_kademlia = True\<rparr> of Inr st \<Rightarrow> st)"

section \<open>Lemmas\<close>

lemma add_address_frame [simp]:
  "d_num_connections (add_address env p a st) = d_num_connections st"
  "d_bootstrap_buffer (add_address env p a st) = d_bootstrap_buffer st"
  "d_target_connections (add_address env p a st) = d_target_connections st"
  "d_protocol_name (add_address env p a st) = d_protocol_name st"
  "d_lookup_interval (add_address env p a st) = d_lookup_interval st"
  "d_outbox (add_address env p a st) = d_outbox st"
  "connected_gauge (add_address env p a st) = connected_gauge st"
  by (simp_all add: add_address_def connected_gauge_def)

lemma fold_add_address:
  "fold (add_address env p) addrs st =
     st\<lparr>d_inner := map_option (fold (de_kad_add_address env p) addrs) (d_inner st)\<rparr>"
  by (induction addrs arbitrary: st)
    (auto simp: add_address_def option.map_id0 option.map_comp comp_def)

lemma same_counters_refl [intro!, simp]: "same_counters st st"
  by (simp add: same_counters_def)

lemma same_counters_trans: "same_counters st u \<Longrightarrow> same_counters u v \<Longrightarrow> same_counters st v"
  by (simp add: same_counters_def)

lemma same_counters_add_identified [intro!]: "same_counters st (add_identified env p info st)"
  by (simp add: add_identified_def same_counters_def fold_add_address connected_gauge_def split: option.splits)

lemma same_counters_fold [intro!]:
  "same_counters st u \<Longrightarrow> same_counters st (fold (\<lambda>(p, info). add_identified env p info) buf u)"
  by (rule fold_keeps) (auto intro: same_counters_trans)

lemma same_counters_handle_kad_event [intro!]: "same_counters st (handle_kad_event env ev st)"
  by (auto simp: handle_kad_event_def push_event_def split: kad_event.splits option.splits bool.splits)
    (auto simp: same_counters_def connected_gauge_def)

lemma same_counters_poll_kad: "same_counters st (snd (poll_kad env acts st))"
  by (induction env acts st rule: poll_kad.induct) (auto intro: same_counters_trans)

lemma buffer_inv_add_identified [intro!]: "buffer_inv st \<Longrightarrow> buffer_inv (add_identified env p info st)"
  by (auto simp: add_identified_def buffer_inv_def fold_add_address image_iff split: option.splits if_splits)

lemma buffer_inv_handle_kad_event [intro!]: "buffer_inv st \<Longrightarrow> buffer_inv (handle_kad_event env ev st)"
proof -
  assume inv: "buffer_inv st"
  have "buffer_inv (fold (\<lambda>(p, info). add_identified env p info) buf (st\<lparr>d_bootstrap_buffer := None\<rparr>))" for buf
    by (rule fold_keeps [where P = buffer_inv]) (auto simp: buffer_inv_def [of "st\<lparr>d_bootstrap_buffer := None\<rparr>"])
  with inv show ?thesis
    by (auto simp: handle_kad_event_def split: kad_event.splits option.splits bool.splits)
      (auto simp: buffer_inv_def push_event_def)
qed

lemma buffer_inv_poll_kad: "buffer_inv st \<Longrightarrow> buffer_inv (snd (poll_kad env acts st))"
  by (induction env acts st rule: poll_kad.induct) auto

lemma duration_twice_secs: "m \<le> 60 \<Longrightarrow> duration_twice (from_secs (of_nat m)) = Some (from_secs (of_nat (2 * m)))"
  by (simp add: duration_twice_def from_secs_def Let_def unat_of_nat_small)

lemma duration_min_secs:
  "m \<le> 120 \<Longrightarrow> duration_min (from_secs (of_nat m)) (from_secs 60) = from_secs (of_nat (min m 60))"
  by (auto simp: duration_min_def from_secs_def word_less_nat_alt word_unat_eq_iff unat_of_nat_small min_def)

lemma next_period:
  assumes "p = from_secs (of_nat (min (2 ^ k) 60))"
  obtains d where "duration_twice p = Some d"
    and "duration_min d (from_secs 60) = from_secs (of_nat (min (2 ^ Suc k) 60))"
proof
  show "duration_twice p = Some (from_secs (of_nat (2 * min (2 ^ k) 60)))"
    unfolding assms by (rule duration_twice_secs) simp
  have "min (2 * min (2 ^ k) 60) 60 = min (2 ^ Suc k) (60 :: nat)"
    by auto
  then show "duration_min (from_secs (of_nat (2 * min (2 ^ k) 60))) (from_secs 60) =
      from_secs (of_nat (min (2 ^ Suc k) 60))"
    using duration_min_secs [of "2 * min (2 ^ k) 60"] by simp
qed

lemma poll_cases:
  assumes "timer_laws env" and "interval_inv env st"
  obtains ev where "poll env (random, acts) st = (Generate_Event ev, st\<lparr>d_outbox := tl (d_outbox st)\<rparr>)"
  | st' where "poll env (random, acts) st = poll_kad env acts st'"
    and "interval_inv env st'" and "d_num_connections st' = d_num_connections st"
    and "d_bootstrap_buffer st' = d_bootstrap_buffer st"
    and "d_target_connections st' = d_target_connections st"
    and "d_protocol_name st' = d_protocol_name st"
proof (cases "d_outbox st")
  case (Cons ev evs)
  then show ?thesis
    by (intro that(1)) (simp add: poll_def pop_outbox_def)
next
  case Nil
  obtain ready iv where tick: "de_poll_tick env (d_lookup_interval st) = (ready, iv)"
    by fastforce
  obtain k where k: "de_period env (d_lookup_interval st) = from_secs (of_nat (min (2 ^ k) 60))"
    using assms(2) by (auto simp: interval_inv_def)
  have "de_period env (snd (de_poll_tick env (d_lookup_interval st))) = de_period env (d_lookup_interval st)"
    using assms(1) by (simp add: timer_laws_def)
  with tick k have iv: "de_period env iv = from_secs (of_nat (min (2 ^ k) 60))"
    by simp
  show ?thesis
  proof (cases ready)
    case False
    with Nil tick iv show ?thesis
      by (intro that(2) [of "st\<lparr>d_lookup_interval := iv\<rparr>"])
        (auto simp: poll_def pop_outbox_def interval_inv_def)
  next
    case True
    from iv obtain d where d: "duration_twice (de_period env iv) = Some d"
      "duration_min d (from_secs 60) = from_secs (of_nat (min (2 ^ Suc k) 60))"
      by (rule next_period)
    let ?st = "(periodic_lookup env random (st\<lparr>d_lookup_interval := iv\<rparr>))
      \<lparr>d_lookup_interval := de_reset env (de_interval env (duration_min d (from_secs 60)))\<rparr>"
    have "interval_inv env ?st"
      using assms(1) d(2) by (auto simp: interval_inv_def timer_laws_def simp del: power_Suc)
    with Nil tick True d(1) show ?thesis
      by (intro that(2) [of ?st]) (auto simp: poll_def pop_outbox_def periodic_lookup_def)
  qed
qed

lemma poll_kad_no_panic: "fst (poll_kad env acts st) \<noteq> Panic msg"
  by (induction env acts st rule: poll_kad.induct) auto

lemma interval_inv_same_counters: "same_counters st st' \<Longrightarrow> interval_inv env st \<Longrightarrow> interval_inv env st'"
  by (simp add: same_counters_def interval_inv_def)

lemma discovery_inv_poll:
  assumes "timer_laws env" and "discovery_inv env st"
  shows "discovery_inv env (snd (poll env (random, acts) st))"
    and "d_num_connections (snd (poll env (random, acts) st)) = d_num_connections st"
    and "fst (poll env (random, acts) st) \<noteq> Panic msg"
proof -
  from assms(2) have inv: "interval_inv env st" "buffer_inv st"
    by (simp_all add: discovery_inv_def)
  have "discovery_inv env (snd (poll env (random, acts) st)) \<and>
      d_num_connections (snd (poll env (random, acts) st)) = d_num_connections st \<and>
      fst (poll env (random, acts) st) \<noteq> Panic msg"
  proof (cases rule: poll_cases [OF assms(1) inv(1), of random acts])
    case (1 ev)
    with inv show ?thesis
      by (simp add: discovery_inv_def interval_inv_def buffer_inv_def)
  next
    case (2 st')
    with inv(2) have "buffer_inv st'"
      by (simp add: buffer_inv_def)
    from buffer_inv_poll_kad [OF this, of env acts] 2 show ?thesis
      using same_counters_poll_kad [of st' env acts]
        interval_inv_same_counters [OF same_counters_poll_kad 2(2), of env acts] poll_kad_no_panic
      by (simp add: discovery_inv_def same_counters_def)
  qed
  then show "discovery_inv env (snd (poll env (random, acts) st))"
    "d_num_connections (snd (poll env (random, acts) st)) = d_num_connections st"
    "fst (poll env (random, acts) st) \<noteq> Panic msg"
    by blast+
qed

lemma discovery_inv_frame:
  "discovery_inv env st \<Longrightarrow> discovery_inv env (background_lookup env p st)"
  "discovery_inv env st \<Longrightarrow> discovery_inv env (add_address env p a st)"
  "discovery_inv env st \<Longrightarrow> discovery_inv env (on_swarm_event env ev st)"
  by (auto simp: discovery_inv_def interval_inv_def buffer_inv_def background_lookup_def add_address_def
      on_swarm_event_def Let_def split: swarm_event.splits option.splits)

lemma discovery_inv_add_identified:
  "discovery_inv env st \<Longrightarrow> discovery_inv env (add_identified env p info st)"
  using interval_inv_same_counters [OF same_counters_add_identified]
  by (auto simp: discovery_inv_def)

lemma discovery_inv_apply:
  "timer_laws env \<Longrightarrow> discovery_inv env st \<Longrightarrow> discovery_inv env (discovery_apply env c st)"
  by (cases c) (simp_all add: discovery_inv_poll discovery_inv_frame discovery_inv_add_identified)

lemma of_nat_card_remove:
  "finite C \<Longrightarrow> C \<noteq> {} \<Longrightarrow> (of_nat (card C - Suc 0) :: u64) = of_nat (card C) - 1"
  by (simp add: of_nat_diff card_gt_0_iff Suc_le_eq)

lemma num_connections_poll_kad [simp]:
  "d_num_connections (snd (poll_kad env acts st)) = d_num_connections st"
  "connected_gauge (snd (poll_kad env acts st)) = connected_gauge st"
  using same_counters_poll_kad [of st env acts] by (simp_all add: same_counters_def)

lemma connected_gauge_upd [simp]:
  "connected_gauge (st\<lparr>d_inner := k\<rparr>) = connected_gauge st"
  "connected_gauge (st\<lparr>d_lookup_interval := iv\<rparr>) = connected_gauge st"
  "connected_gauge (st\<lparr>d_outbox := evs\<rparr>) = connected_gauge st"
  by (simp_all add: connected_gauge_def)

lemma num_connections_poll:
  "d_num_connections (snd (poll env (random, acts) st)) = d_num_connections st"
  "connected_gauge (snd (poll env (random, acts) st)) = connected_gauge st"
  by (simp_all add: poll_def pop_outbox_def Let_def periodic_lookup_def
      split: list.splits prod.splits option.splits)

lemma num_connections_background_lookup [simp]:
  "d_num_connections (background_lookup env p st) = d_num_connections st"
  "connected_gauge (background_lookup env p st) = connected_gauge st"
  by (simp_all add: background_lookup_def connected_gauge_def split: option.split)

lemma num_connections_apply [simp]:
  "d_num_connections (discovery_apply env c st) = d_num_connections st"
  "connected_gauge (discovery_apply env c st) = connected_gauge st"
  using same_counters_add_identified [of st env]
  by (cases c; simp add: num_connections_poll same_counters_def)+

interpretation discovery_connections: connection_observer
  "on_swarm_event env" "discovery_apply env" counts_connections for env
proof unfold_locales
  show "counts_connections (discovery_apply env c st) C" if "counts_connections st C" for st C c
    using that by (simp add: counts_connections_def)
qed (auto simp: counts_connections_def connected_gauge_def on_swarm_event_def, metis empty_iff of_nat_card_remove)

interpretation discovery_outbox: outbox_behaviour
  d_outbox "\<lambda>evs. d_outbox_update (\<lambda>_. evs)" "poll env" for env
  by unfold_locales (auto simp: poll_def)

lemma new_state:
  assumes "new env nc dc = Inr st" and "timer_laws env"
  shows "discovery_inv env st" and "counts_connections st {}"
  using assms
  by (auto simp: new_def Let_def counts_connections_def connected_gauge_def discovery_inv_def buffer_inv_def interval_inv_def
      timer_laws_def intro!: exI [of _ 0] split: if_splits prod.splits sum.splits)

lemma discovery_reachable:
  assumes "new env nc dc = Inr st0" and "timer_laws env"
    and "runs (network_step (on_swarm_event env) (discovery_apply env)) (st0, n0) ls (st, n)"
  shows "discovery_inv env st"
proof -
  from network_invariant [of "discovery_inv env", OF discovery_inv_frame(3) discovery_inv_apply [OF assms(2)]]
  show ?thesis
    using invariant_system.runs_inv [OF _ assms(3)] new_state(1) [OF assms(1,2)]
    by (fastforce simp: list_all_iff)
qed

lemma sample_timer_laws: "timer_laws sample_discovery_env"
  by (simp add: timer_laws_def sample_discovery_env_def)

lemma sample_discovery_new:
  "new sample_discovery_env \<lparr>nc_local_key = 1, nc_network_name = ''testnet''\<rparr>
     \<lparr>dc_static_addresses = [[Ip4 7, Tcp 1, P2p [1, 2, 3]]], dc_target_connections = 2,
      dc_enable_kademlia = True\<rparr> = Inr sample_discovery"
  by (simp add: sample_discovery_def new_def sample_discovery_env_def parse_static_def Let_def)

section \<open>Properties\<close>

text \<open>
  C32. While the agent is bootstrapping, self-reported addresses of other peers never reach the
  routing table; when the bootstrap ends, the addresses of all buffered peers are added, in the order
  in which the peers reported, and from then on addresses are added at once. A peer that does not
  speak the protocol of the network is ignored.
\<close>

theorem bootstrap_protects_routing_table:
  assumes "buffer_inv st" and "d_bootstrap_buffer st = Some buffer"
  shows "d_inner (add_identified env p info st) = d_inner st \<and>
    handle_kad_event env (BootstrapProgressed True) st =
      st\<lparr>d_bootstrap_buffer := None,
         d_inner := map_option
           (fold (\<lambda>(q, a). de_kad_add_address env q a)
             (concat (map (\<lambda>(q, i). map (Pair q) (listen_addrs i)) buffer))) (d_inner st)\<rparr>"
proof
  show "d_inner (add_identified env p info st) = d_inner st"
    using assms(2) by (simp add: add_identified_def)
  have proto: "\<forall>(q, i) \<in> set buffer. d_protocol_name st \<in> set (protocols i)"
    using assms by (simp add: buffer_inv_def)
  have "fold (\<lambda>(q, i). add_identified env q i) buffer (st\<lparr>d_bootstrap_buffer := None, d_inner := k\<rparr>) =
      st\<lparr>d_bootstrap_buffer := None,
         d_inner := map_option
           (fold (\<lambda>(q, a). de_kad_add_address env q a)
             (concat (map (\<lambda>(q, i). map (Pair q) (listen_addrs i)) buffer))) k\<rparr>" for k
    using proto
    by (induction buffer arbitrary: k)
      (auto simp: add_identified_def fold_add_address fold_map comp_def option.map_id0 option.map_comp)
  from this [of "d_inner st"] show "handle_kad_event env (BootstrapProgressed True) st =
      st\<lparr>d_bootstrap_buffer := None,
         d_inner := map_option
           (fold (\<lambda>(q, a). de_kad_add_address env q a)
             (concat (map (\<lambda>(q, i). map (Pair q) (listen_addrs i)) buffer))) (d_inner st)\<rparr>"
    using assms(2) by (simp add: handle_kad_event_def)
qed

theorem bootstrap_protects_routing_table_witness:
  "d_inner (handle_kad_event sample_discovery_env (BootstrapProgressed True)
     (sample_discovery\<lparr>d_bootstrap_buffer := Some
        [(5, \<lparr>listen_addrs = [[Ip4 9]], protocols = [''/ipc/testnet/kad/1.0.0'']\<rparr>)]\<rparr>)) =
   Some [(5, [Ip4 9]), (3, [Ip4 7, Tcp 1])]"
proof -
  let ?b = "[(5, \<lparr>listen_addrs = [[Ip4 9]], protocols = [''/ipc/testnet/kad/1.0.0'']\<rparr>)]"
  let ?st = "sample_discovery\<lparr>d_bootstrap_buffer := Some ?b\<rparr>"
  have "buffer_inv ?st"
    by (simp add: buffer_inv_def sample_discovery_def new_def sample_discovery_env_def parse_static_def
        Let_def)
  from bootstrap_protects_routing_table [OF this, of ?b sample_discovery_env] show ?thesis
    by (simp add: sample_discovery_def new_def sample_discovery_env_def parse_static_def Let_def)
qed

text \<open>
  C33. In every reachable state the bootstrap buffer holds at most as many entries as there are target
  connections, one per peer; the period of the random lookups is a power of two of a second capped
  at a minute, and polling never panics.
\<close>

theorem discovery_reachable_inv:
  assumes "new env nc dc = Inr st0" and "timer_laws env"
    and "runs (network_step (on_swarm_event env) (discovery_apply env)) (st0, \<lambda>_. 0) ls (st, n)"
  shows "(\<forall>buffer. d_bootstrap_buffer st = Some buffer \<longrightarrow>
      distinct (map fst buffer) \<and> length buffer \<le> unat (d_target_connections st)) \<and>
    (\<exists>k. de_period env (d_lookup_interval st) = from_secs (of_nat (min (2 ^ k) 60))) \<and>
    fst (poll env (random, acts) st) \<noteq> Panic msg"
  using discovery_reachable [OF assms] discovery_inv_poll(3) [OF assms(2) discovery_reachable [OF assms]]
  by (simp add: discovery_inv_def buffer_inv_def interval_inv_def)

theorem discovery_reachable_inv_witness:
  "\<exists>k. de_period sample_discovery_env (d_lookup_interval
     (discovery_apply sample_discovery_env (Poll_Discovery 4 [] :: (u8, unit) discovery_call)
        sample_discovery)) = from_secs (of_nat (min (2 ^ k) 60))"
proof -
  have "runs (network_step (on_swarm_event sample_discovery_env) (discovery_apply sample_discovery_env))
      (sample_discovery, \<lambda>_. 0) [Call (Poll_Discovery 4 [] :: (u8, unit) discovery_call)]
      (discovery_apply sample_discovery_env (Poll_Discovery 4 [] :: (u8, unit) discovery_call)
        sample_discovery, \<lambda>_. 0)"
    by (rule runs_one) (rule called)
  from discovery_reachable_inv [OF sample_discovery_new sample_timer_laws this] show ?thesis
    by blast
qed

text \<open>
  The counter of connections is the number of connected peers, the metric shows the same number,
  and random lookups happen exactly while fewer peers than the target are connected.
\<close>

theorem num_connections_counts_peers:
  assumes "new env nc dc = Inr st0" and "timer_laws env"
    and "runs (network_step (on_swarm_event env) (discovery_apply env)) (st0, \<lambda>_. 0) ls (st, n)"
    and "card {p. n p > 0} < 2 ^ 64"
  shows "unat (d_num_connections st) = card {p. n p > 0} \<and> finite {p. n p > 0} \<and>
    unat (mx_value (d_metrics st) DISCOVERY_CONNECTED_PEERS) = card {p. n p > 0} \<and>
    periodic_lookup env random st =
      (if card {p. n p > 0} < unat (d_target_connections st)
       then st\<lparr>d_inner := map_option (de_kad_closest_peers env random) (d_inner st)\<rparr> else st)"
  using discovery_connections.runs_tracks [OF assms(3) new_state(2) [OF assms(1,2)]] assms(4)
  by (auto simp: counts_connections_def connected_gauge_def periodic_lookup_def unat_of_nat_small word_less_nat_alt)

theorem num_connections_counts_peers_witness:
  "unat (d_num_connections (on_swarm_event sample_discovery_env
     (ConnectionEstablished 4 (Dialer []) 0) sample_discovery)) = 1"
proof -
  have "runs (network_step (on_swarm_event sample_discovery_env) (discovery_apply sample_discovery_env))
      (sample_discovery, \<lambda>_. 0)
      [Swarm (ConnectionEstablished 4 (Dialer []) 0) :: (u8, unit, (u8, unit) discovery_call) network_label]
      (on_swarm_event sample_discovery_env (ConnectionEstablished 4 (Dialer []) 0) sample_discovery,
       (\<lambda>_. 0)(4 := Suc 0))"
    by (rule run_first_connection)
  from num_connections_counts_peers [OF sample_discovery_new sample_timer_laws this] show ?thesis
    by simp
qed

text \<open>
  What a change of the routing table reports: the peer that was added, with its addresses, and
  before it the peer that was evicted to make room, but only if that peer was configured statically.
  The eviction of any other peer is not reported.
\<close>

theorem routing_update_events:
  "d_outbox (handle_kad_event env (RoutingUpdated p addrs old) st) =
     d_outbox st @
     (case old of None \<Rightarrow> [] | Some q \<Rightarrow> if q \<in> fst ` set (d_static_addresses st) then [Removed q] else []) @
     [Added p addrs]"
proof -
  have "is_static st q \<longleftrightarrow> q \<in> fst ` set (d_static_addresses st)" for q
    by (force simp: is_static_def list_ex_iff)
  then show ?thesis
    by (auto simp: handle_kad_event_def push_event_def split: option.splits)
qed

end
