(* ===== verification/Content.thy ===== *)
theory Content
  imports Timestamps Outbox Network Metrics
begin

text \<open>
  The content behaviour of \<^verbatim>\<open>src/ipld/resolver/src/behaviour/content.rs\<close> with the rate limiter of
  \<^verbatim>\<open>src/ipld/resolver/src/limiter.rs\<close>: it forwards requests for blocks to Bitswap, and limits the
  number of bytes that a remote address may consume.

  Bitswap, the cell rate algorithm and the expiring cache are other crates: they are the parameters
  collected in \<open>content_env\<close>. A multiaddress is the list of its protocols.
\<close>

section \<open>Rate limiter\<close>

record ('lim, 'gcra, 'inst, 'k, 'tc) limiter_api =
  la_rate_limit :: "u32 \<Rightarrow> duration \<Rightarrow> 'lim"
  la_cache_new :: "duration \<Rightarrow> 'tc"
  la_cache_get :: "'tc \<Rightarrow> 'k \<Rightarrow> 'gcra option"
  la_cache_set :: "'k \<Rightarrow> 'gcra \<Rightarrow> 'tc \<Rightarrow> 'tc"
  la_default :: 'gcra
  la_check_and_modify :: "'lim \<Rightarrow> 'inst \<Rightarrow> u32 \<Rightarrow> 'gcra \<Rightarrow> bool \<times> 'gcra"

text \<open>What the isolation of addresses relies on: the cache keeps its keys apart.\<close>

definition cache_laws :: "('lim, 'gcra, 'inst, 'k, 'tc) limiter_api \<Rightarrow> bool" where
  "cache_laws la \<longleftrightarrow>
     (\<forall>k v tc. la_cache_get la (la_cache_set la k v tc) k = Some v) \<and>
     (\<forall>k k' v tc. k' \<noteq> k \<longrightarrow> la_cache_get la (la_cache_set la k v tc) k' = la_cache_get la tc k')"

definition add_at ::
  "('lim, 'gcra, 'inst, 'k, 'tc) limiter_api \<Rightarrow> 'lim \<Rightarrow> 'k \<Rightarrow> u32 \<Rightarrow> 'inst \<Rightarrow> 'tc \<Rightarrow> bool \<times> 'tc" where
  "add_at la limit key cost at cache =
     (let state = (case la_cache_get la cache key of None \<Rightarrow> la_default la | Some s \<Rightarrow> s);
          (ok, state') = la_check_and_modify la limit at cost state
      in (ok, la_cache_set la key state' cache))"

section \<open>Addresses\<close>

text \<open>The loop pops protocols from the end: its argument is the reversed address.\<close>

fun keep_loop :: "protocol list \<Rightarrow> protocol list \<Rightarrow> protocol list" where
  "keep_loop [] keep = keep"
| "keep_loop (proto # rest) keep =
     (case proto of
        Ip4 _ \<Rightarrow> [proto]
      | Ip6 _ \<Rightarrow> [proto]
      | P2p _ \<Rightarrow> keep_loop rest keep
      | Tcp _ \<Rightarrow> keep_loop rest keep
      | Udp _ \<Rightarrow> keep_loop rest keep
      | _ \<Rightarrow> keep_loop rest (keep @ [proto]))"

definition select_non_ephemeral :: "multiaddr \<Rightarrow> multiaddr" where
  "select_non_ephemeral addr = rev (keep_loop (rev addr) [])"

section \<open>The behaviour\<close>

datatype ('peer, 'q, 'rx, 'tx) content_event =
    Complete 'q "(string, unit) result"
  | BitswapForward 'peer 'rx 'tx

record content_config =
  cc_rate_limit_bytes :: u32
  cc_rate_limit_period :: duration

datatype ('cid, 'tx, 'ev) handler_event =
    Request nat 'cid 'tx
  | Other_Handler_Event 'ev

datatype ('q, 'act) bitswap_action =
    Bitswap_Progress 'q nat
  | Bitswap_Complete 'q "(string, unit) result"
  | Bitswap_Other 'act

record ('peer, 'cid, 'q, 'tx, 'b, 'sev, 'hev, 'lim, 'gcra, 'inst, 'tc) content_env =
  ce_limiter :: "('lim, 'gcra, 'inst, multiaddr, 'tc) limiter_api"
  ce_cid_bytes :: "'cid \<Rightarrow> u8 list"
  ce_bitswap_new :: 'b
  ce_sync :: "'cid \<Rightarrow> 'peer list \<Rightarrow> 'b \<Rightarrow> 'q \<times> 'b"
  ce_inner_swarm_event :: "('peer, 'sev) swarm_event \<Rightarrow> 'b \<Rightarrow> 'b"
  ce_inner_handler_event :: "'peer \<Rightarrow> nat \<Rightarrow> ('cid, 'tx, 'hev) handler_event \<Rightarrow> 'b \<Rightarrow> 'b"

record ('peer, 'q, 'rx, 'tx, 'b, 'lim, 'tc) content =
  c_inner :: 'b
  c_peer_addresses :: "'peer \<rightharpoonup> multiaddr"
  c_rate_limiter :: 'tc
  c_rate_limit_period :: duration
  c_rate_limit :: "'lim option"
  c_outbox :: "('peer, 'q, 'rx, 'tx) content_event list"
  c_metrics :: metrics

definition make_rate_limit ::
  "('lim, 'gcra, 'inst, 'k, 'tc) limiter_api \<Rightarrow> u32 \<Rightarrow> duration \<Rightarrow> 'lim option" where
  "make_rate_limit la bs period =
     (if bs = 0 \<or> is_zero period then None else Some (la_rate_limit la bs period))"

definition content_new where
  "content_new env config =
     \<lparr>c_inner = ce_bitswap_new env, c_peer_addresses = Map.empty,
      c_rate_limiter = la_cache_new (ce_limiter env) (cc_rate_limit_period config),
      c_rate_limit_period = cc_rate_limit_period config,
      c_rate_limit = make_rate_limit (ce_limiter env) (cc_rate_limit_bytes config)
        (cc_rate_limit_period config),
      c_outbox = [], c_metrics = no_metrics\<rparr>"

text \<open>Bitswap registers metrics of its own.\<close>

definition content_register_metrics where
  "content_register_metrics inner_register_metrics st = inner_register_metrics (c_inner st)"

definition resolve where
  "resolve env cid peers st =
     (let st = st\<lparr>c_metrics := inc CONTENT_RESOLVE_RUNNING (c_metrics st)\<rparr>;
          (q, b) = ce_sync env cid peers (c_inner st)
      in (q, st\<lparr>c_inner := b\<rparr>))"

text \<open>\<open>usize::try_into::<u32>().unwrap_or(u32::MAX)\<close>.\<close>

definition clamp_u32 :: "nat \<Rightarrow> u32" where
  "clamp_u32 n = (if n < 2 ^ 32 then of_nat n else - 1)"

definition charge where
  "charge env now p n st =
     (case c_rate_limit st of
        None \<Rightarrow> (True, st)
      | Some limit \<Rightarrow>
          (case c_peer_addresses st p of
             None \<Rightarrow> (True, st)
           | Some addr \<Rightarrow>
               let (ok, tc) = add_at (ce_limiter env) limit addr (clamp_u32 n) now (c_rate_limiter st)
               in (ok, st\<lparr>c_rate_limiter := tc\<rparr>)))"

definition check_rate_limit where
  "check_rate_limit env now p cid st = charge env now p (length (ce_cid_bytes env cid)) st"

definition rate_limit_used where
  "rate_limit_used env now p n st = snd (charge env now p n st)"

definition update_rate_limit where
  "update_rate_limit env bs st =
     st\<lparr>c_rate_limit := make_rate_limit (ce_limiter env) bs (c_rate_limit_period st)\<rparr>"

definition on_swarm_event where
  "on_swarm_event env ev st =
     (let st = (case ev of
                  ConnectionEstablished p endpoint other_established \<Rightarrow>
                    if other_established = 0
                    then st\<lparr>c_peer_addresses := (c_peer_addresses st)(p \<mapsto>
                              (case endpoint of
                                 Dialer addr \<Rightarrow> addr
                               | Listener addr \<Rightarrow> select_non_ephemeral addr))\<rparr>
                    else st
                | ConnectionClosed p remaining_established \<Rightarrow>
                    if remaining_established = 0
                    then st\<lparr>c_peer_addresses := (c_peer_addresses st)(p := None)\<rparr>
                    else st
                | Other_Swarm_Event _ \<Rightarrow> st)
      in st\<lparr>c_inner := ce_inner_swarm_event env ev (c_inner st)\<rparr>)"

text \<open>
  The pair \<open>(tx, rx)\<close> is the fresh channel that is put between Bitswap and the handler.
\<close>

definition on_connection_handler_event where
  "on_connection_handler_event env now chan p conn ev st =
     (case (ev, c_rate_limit st) of
        (Request rid cid sender, Some _) \<Rightarrow>
          let (ok, st) = check_rate_limit env now p cid st
          in if \<not> ok then st\<lparr>c_metrics := inc CONTENT_RATE_LIMITED (c_metrics st)\<rparr>
             else let (tx, rx) = chan
                  in st\<lparr>c_inner := ce_inner_handler_event env p conn (Request rid cid tx) (c_inner st),
                        c_outbox := c_outbox st @ [BitswapForward p rx sender]\<rparr>
      | _ \<Rightarrow> st\<lparr>c_inner := ce_inner_handler_event env p conn ev (c_inner st)\<rparr>)"

text \<open>The loop of \<open>poll\<close> over what Bitswap has ready; the list ends where it returns \<open>Pending\<close>.\<close>

fun poll_bitswap where
  "poll_bitswap [] st = (Pending, st)"
| "poll_bitswap (Bitswap_Progress q n # acts) st = poll_bitswap acts st"
| "poll_bitswap (Bitswap_Complete q r # acts) st = (Generate_Event (Complete q r), st\<lparr>c_metrics := dec CONTENT_RESOLVE_RUNNING (c_metrics st)\<rparr>)"
| "poll_bitswap (Bitswap_Other act # acts) st = (Forward act, st)"

definition content_poll where
  "content_poll acts st =
     (case pop_outbox c_outbox (\<lambda>evs. c_outbox_update (\<lambda>_. evs)) st of
        Some (ev, st) \<Rightarrow> (Generate_Event ev, st)
      | None \<Rightarrow> poll_bitswap acts st)"

section \<open>Histories\<close>

text \<open>The ways in which the behaviour is called besides the events of the swarm.\<close>

datatype ('peer, 'cid, 'q, 'rx, 'tx, 'hev, 'inst, 'act) content_call =
    Handler_Event 'inst "'tx \<times> 'rx" 'peer nat "('cid, 'tx, 'hev) handler_event"
  | Limit_Used 'inst 'peer nat
  | Update_Limit u32
  | Resolve 'cid "'peer list"
  | Poll_Content "('q, 'act) bitswap_action list"

fun content_apply where
  "content_apply env (Handler_Event now chan p conn ev) st =
     on_connection_handler_event env now chan p conn ev st"
| "content_apply env (Limit_Used now p k) st = rate_limit_used env now p k st"
| "content_apply env (Update_Limit bs) st = update_rate_limit env bs st"
| "content_apply env (Resolve cid peers) st = snd (resolve env cid peers st)"
| "content_apply env (Poll_Content acts) st = snd (content_poll acts st)"

text \<open>The durable parts of an address.\<close>

fun is_ip :: "protocol \<Rightarrow> bool" where
  "is_ip (Ip4 _) = True" | "is_ip (Ip6 _) = True" | "is_ip _ = False"

fun is_ephemeral :: "protocol \<Rightarrow> bool" where
  "is_ephemeral (P2p _) = True" | "is_ephemeral (Tcp _) = True" | "is_ephemeral (Udp _) = True"
| "is_ephemeral _ = False"

text \<open>An instance of the parameters: a map as the cache, and a fixed budget of bytes per address.\<close>

definition budget_limiter :: "(u32, nat, unit, multiaddr, multiaddr \<rightharpoonup> nat) limiter_api" where
  "budget_limiter =
     \<lparr>la_rate_limit = (\<lambda>bs _. bs), la_cache_new = (\<lambda>_. Map.empty), la_cache_get = (\<lambda>tc k. tc k),
      la_cache_set = (\<lambda>k v tc. tc(k \<mapsto> v)), la_default = 0,
      la_check_and_modify = (\<lambda>limit _ cost used.
        if used + unat cost \<le> unat limit then (True, used + unat cost) else (False, used))\<rparr>"

definition sample_content_env ::
  "(u8, nat, nat, nat, nat list, unit, unit, u32, nat, unit, multiaddr \<rightharpoonup> nat) content_env" where
  "sample_content_env =
     \<lparr>ce_limiter = budget_limiter, ce_cid_bytes = (\<lambda>c. replicate c 0), ce_bitswap_new = [],
      ce_sync = (\<lambda>c ps b. (length b, c # b)), ce_inner_swarm_event = (\<lambda>_ b. b),
      ce_inner_handler_event = (\<lambda>_ _ ev b. case ev of Request _ c _ \<Rightarrow> c # b | _ \<Rightarrow> b)\<rparr>"

definition sample_content ::
  "(u8, nat, nat, nat, nat list, u32, multiaddr \<rightharpoonup> nat) content" where
  "sample_content = content_new sample_content_env
     \<lparr>cc_rate_limit_bytes = 5, cc_rate_limit_period = from_secs 60\<rparr>"

section \<open>Lemmas\<close>

lemma keep_loop_eq:
  "keep_loop ps keep =
     (case find is_ip ps of Some p \<Rightarrow> [p] | None \<Rightarrow> keep @ filter (\<lambda>p. \<not> is_ephemeral p) ps)"
  by (induction ps keep rule: keep_loop.induct) (auto split: protocol.splits option.splits)

lemma find_rev_last:
  "find P (rev xs) = (if filter P xs = [] then None else Some (last (filter P xs)))"
  by (induction xs rule: rev_induct) auto

lemma select_non_ephemeral_eq:
  "select_non_ephemeral addr =
     (if filter is_ip addr = [] then filter (\<lambda>p. \<not> is_ephemeral p) addr
      else [last (filter is_ip addr)])"
  by (simp add: select_non_ephemeral_def keep_loop_eq find_rev_last rev_filter)

lemma c_peer_addresses_frame [simp]:
  "c_peer_addresses (snd (charge env now p k st)) = c_peer_addresses st"
  "c_peer_addresses (update_rate_limit env bs st) = c_peer_addresses st"
  "c_peer_addresses (snd (resolve env cid peers st)) = c_peer_addresses st"
  "c_peer_addresses (rate_limit_used env now p k st) = c_peer_addresses st"
  by (simp_all add: charge_def update_rate_limit_def resolve_def rate_limit_used_def Let_def
      split: option.splits prod.splits)

lemma c_peer_addresses_handler [simp]:
  "c_peer_addresses (on_connection_handler_event env now chan p conn ev st) = c_peer_addresses st"
  by (auto simp: on_connection_handler_event_def check_rate_limit_def charge_def Let_def
      split: handler_event.splits option.splits prod.splits)

lemma c_frame_poll_bitswap [simp]:
  "c_peer_addresses (snd (poll_bitswap acts st)) = c_peer_addresses st"
  "c_inner (snd (poll_bitswap acts st)) = c_inner st"
  by (induction acts st rule: poll_bitswap.induct) simp_all

lemma c_peer_addresses_poll [simp]: "c_peer_addresses (snd (content_poll acts st)) = c_peer_addresses st"
  by (simp add: content_poll_def pop_outbox_def split: list.splits)

lemma c_peer_addresses_call [simp]: "c_peer_addresses (content_apply env c st) = c_peer_addresses st"
  by (cases c) simp_all

interpretation content_connections: connection_observer "on_swarm_event env" "content_apply env"
  "\<lambda>st C. dom (c_peer_addresses st) = C" for env
  by unfold_locales (auto simp: on_swarm_event_def)

interpretation content_outbox: outbox_behaviour
  c_outbox "\<lambda>evs. c_outbox_update (\<lambda>_. evs)" content_poll
  by unfold_locales (auto simp: content_poll_def)

lemma budget_limiter_laws: "cache_laws budget_limiter"
  by (simp add: cache_laws_def budget_limiter_def)

lemma add_at_other_key:
  "cache_laws la \<Longrightarrow> k' \<noteq> k \<Longrightarrow>
   la_cache_get la (snd (add_at la limit k cost at tc)) k' = la_cache_get la tc k'"
  by (simp add: add_at_def cache_laws_def Let_def split: prod.split)

section \<open>Properties\<close>

text \<open>
  The key of the rate limit: of an address that contains IP parts exactly the last one is kept,
  otherwise everything but ports and peer identities, in order. Connections from another port or
  under another identity share their budget.
\<close>

theorem select_non_ephemeral_key:
  "select_non_ephemeral addr =
     (if filter is_ip addr = [] then filter (\<lambda>p. \<not> is_ephemeral p) addr
      else [last (filter is_ip addr)]) \<and>
   select_non_ephemeral (select_non_ephemeral addr) = select_non_ephemeral addr \<and>
   select_non_ephemeral (addr @ [Tcp port, P2p peer]) = select_non_ephemeral addr"
proof -
  have ip: "is_ip p \<Longrightarrow> \<not> is_ephemeral p" for p
    by (cases p) auto
  then have "filter (\<lambda>p. \<not> is_ephemeral p \<and> is_ip p) addr = filter is_ip addr"
    by (intro filter_cong) auto
  moreover have "is_ip (last (filter is_ip addr))" if "filter is_ip addr \<noteq> []"
    using last_in_set [OF that] by simp
  ultimately show ?thesis
    using ip by (auto simp: select_non_ephemeral_eq)
qed

text \<open>
  In every state the behaviour can reach, it remembers an address for exactly the connected
  peers.
\<close>

theorem addresses_of_connected_peers:
  assumes "runs (network_step (on_swarm_event env) (content_apply env))
    (content_new env config, \<lambda>_. 0) ls (st, n)"
  shows "dom (c_peer_addresses st) = {p. n p > 0}"
  using content_connections.runs_tracks [OF assms] by (simp add: content_new_def)

theorem addresses_of_connected_peers_witness:
  "dom (c_peer_addresses (on_swarm_event sample_content_env
     (ConnectionEstablished 4 (Listener [Ip4 1, Tcp 9]) 0) sample_content)) = {4}"
proof -
  let ?ev = "ConnectionEstablished 4 (Listener [Ip4 1, Tcp 9]) 0"
  have "runs (network_step (on_swarm_event sample_content_env) (content_apply sample_content_env))
      (sample_content, \<lambda>_. 0)
      [Swarm ?ev :: (u8, unit, (u8, nat, nat, nat, nat, unit, unit, unit) content_call) network_label]
      (on_swarm_event sample_content_env ?ev sample_content, (\<lambda>_. 0)(4 := Suc 0))"
    by (rule run_first_connection)
  from addresses_of_connected_peers [OF this [unfolded sample_content_def]] show ?thesis
    by (simp add: sample_content_def)
qed



text \<open>
  Peers cannot exhaust each other's budget: a request of a peer, or the size of a response to it,
  is charged to the address the peer is connected from, and the recorded consumption of every other
  address stays as it was. A peer without a known address is charged nothing.
\<close>

theorem charge_isolated:
  assumes "cache_laws (ce_limiter env)" and "c_peer_addresses st p \<noteq> Some addr"
  shows "la_cache_get (ce_limiter env) (c_rate_limiter (rate_limit_used env now p k st)) addr =
      la_cache_get (ce_limiter env) (c_rate_limiter st) addr \<and>
    la_cache_get (ce_limiter env) (c_rate_limiter (snd (check_rate_limit env now p cid st))) addr =
      la_cache_get (ce_limiter env) (c_rate_limiter st) addr"
proof -
  have "la_cache_get (ce_limiter env) (c_rate_limiter (snd (charge env now p k st))) addr =
      la_cache_get (ce_limiter env) (c_rate_limiter st) addr" for k
    using add_at_other_key [OF assms(1)] assms(2)
    by (auto simp: charge_def Let_def split_beta split: option.split)
  then show ?thesis
    by (simp add: rate_limit_used_def check_rate_limit_def)
qed

theorem charge_isolated_witness:
  "c_rate_limiter (rate_limit_used sample_content_env () 4 3
     (sample_content\<lparr>c_peer_addresses := [4 \<mapsto> [Ip4 1]], c_rate_limiter := [[Ip4 2] \<mapsto> 1]\<rparr>)) [Ip4 2] = Some 1"
  using charge_isolated [of sample_content_env
      "sample_content\<lparr>c_peer_addresses := [4 \<mapsto> [Ip4 1]], c_rate_limiter := [[Ip4 2] \<mapsto> 1]\<rparr>"
      4 "[Ip4 2]" "()" 3] budget_limiter_laws
  by (simp add: sample_content_env_def budget_limiter_def)

end
