(* ===== verification/Service.thy ===== *)
theory Service
  imports Membership Discovery Content "HOL-Library.Multiset"
begin

text \<open>
  The service of \<^verbatim>\<open>src/ipld/resolver/src/service.rs\<close>, which drives the behaviours, answers the
  requests of the clients of \<^verbatim>\<open>client.rs\<close> and matches finished queries to the channels that wait for
  them.

  The state is composed of the states of the behaviours; what the service sends to the outside is
  collected in its state: the events broadcast to subscribers, the results sent through response
  channels, the banned peers, and the forwarding tasks it spawns. Whether somebody still listens to a
  channel only affects log output. The swarm, the Bloom filter and the random shuffle are parameters.
\<close>

section \<open>Types\<close>

datatype 'sid resolve_error = NoKnownPeers 'sid | ResolveFailed string

record ('cid, 'sid, 'peer, 'ch) query =
  q_cid :: 'cid
  q_subnet_id :: 'sid
  q_fallback_peer_ids :: "'peer list"
  q_response_channel :: 'ch

datatype ('sid, 'peer, 'cid, 'vote, 'ch) request =
    SetProvidedSubnets "'sid list"
  | AddProvidedSubnet 'sid
  | RemoveProvidedSubnet 'sid
  | PublishVote 'vote
  | PublishPreemptive 'sid bytes
  | PinSubnet 'sid
  | UnpinSubnet 'sid
  | Resolve 'cid 'sid 'ch
  | RateLimitUsed 'peer nat
  | UpdateRateLimit u32

datatype ('sid, 'vote) service_event = Vote_Received 'vote | Preemptive_Received 'sid bytes

datatype ping_result = Ping_Success duration | Pong | Ping_Timeout | Ping_Other string | Ping_Unsupported

datatype 'peer identify_event = Identify_Error 'peer string | Identify_Received 'peer identify_info
  | Identify_Other

datatype ('ping, 'identify, 'disc, 'memb, 'cont) behaviour_event =
    Ping_Event 'ping ping_result
  | Identify_Event 'identify
  | Discovery_Event 'disc
  | Membership_Event 'memb
  | Content_Event 'cont

text \<open>
  What the handling of one input reads from its surroundings: the clocks, the shuffle of the random
  number generator, and which peers the swarm is connected with.
\<close>

record ('peer, 'inst) readings =
  rd_clock :: clock
  rd_instant :: 'inst
  rd_shuffle :: "'peer list \<Rightarrow> 'peer list"
  rd_connected :: "'peer \<Rightarrow> bool"

record ('menv, 'denv, 'cenv, 'peer, 'bf) service_env =
  se_membership :: 'menv
  se_discovery :: 'denv
  se_content :: 'cenv
  se_filter_insert :: "'peer \<Rightarrow> 'bf \<Rightarrow> bool \<times> 'bf"

record ('m, 'd, 'c, 'q, 'query, 'bf, 'peer, 'ev, 'resp, 'fwd) service =
  sv_membership :: 'm
  sv_discovery :: 'd
  sv_content :: 'c
  sv_queries :: "'q \<rightharpoonup> 'query"
  sv_background_lookup_filter :: 'bf
  sv_max_peers_per_query :: nat
  sv_banned :: "'peer list"
  sv_events :: "'ev list"
  sv_responses :: "'resp list"
  sv_forwards :: "'fwd list"
  sv_metrics :: metrics

definition count_metric where
  "count_metric mt sv = sv\<lparr>sv_metrics := inc mt (sv_metrics sv)\<rparr>"

definition measure_metric where
  "measure_metric mt v sv = sv\<lparr>sv_metrics := observe mt v (sv_metrics sv)\<rparr>"

section \<open>Queries\<close>

definition send_resolve_result where
  "send_resolve_result ch res sv = sv\<lparr>sv_responses := sv_responses sv @ [(ch, res)]\<rparr>"

definition split_peers_for_query where
  "split_peers_for_query sv peers =
     (let size = min (sv_max_peers_per_query sv) (length peers)
      in (take size peers, drop size peers))"

definition content_resolve where
  "content_resolve env cid peers sv =
     (let (q, c) = resolve (se_content env) cid peers (sv_content sv) in (q, sv\<lparr>sv_content := c\<rparr>))"

definition start_query where
  "start_query env rd cid sid ch sv =
     (let peers = Membership.providers_of_subnet (se_membership env) (sv_membership sv) sid;
          sv = measure_metric CONTENT_RESOLVE_PEERS (length peers) sv
      in if peers = []
         then send_resolve_result ch (Inl (NoKnownPeers sid)) (count_metric CONTENT_RESOLVE_NO_PEERS sv)
         else let peers = rd_shuffle rd peers;
                  (connected, known) = partition (rd_connected rd) peers;
                  sv = measure_metric CONTENT_CONNECTED_PEERS (length connected) sv;
                  (peers, fallback) = split_peers_for_query sv (connected @ known);
                  query = \<lparr>q_cid = cid, q_subnet_id = sid, q_fallback_peer_ids = fallback,
                           q_response_channel = ch\<rparr>;
                  (q, sv) = content_resolve env cid peers sv
              in sv\<lparr>sv_queries := (sv_queries sv)(q \<mapsto> query)\<rparr>)"

definition resolve_query where
  "resolve_query env query result sv =
     (case result of
        Inr _ \<Rightarrow> send_resolve_result (q_response_channel query) (Inr ()) (count_metric CONTENT_RESOLVE_SUCCESS sv)
      | Inl e \<Rightarrow>
          if q_fallback_peer_ids query = []
          then send_resolve_result (q_response_channel query) (Inl (ResolveFailed e))
                 (count_metric CONTENT_RESOLVE_FAILURE sv)
          else let sv = count_metric CONTENT_RESOLVE_FALLBACK sv;
                   (peers, fallback) = split_peers_for_query sv (q_fallback_peer_ids query);
                   (q, sv) = content_resolve env (q_cid query) peers sv
               in sv\<lparr>sv_queries := (sv_queries sv)(q \<mapsto> query\<lparr>q_fallback_peer_ids := fallback\<rparr>)\<rparr>)"

section \<open>Handlers\<close>

definition as_millis :: "duration \<Rightarrow> nat" where
  "as_millis d = unat (as_secs_dur d) * 1000 + unat (subsec_nanos d) div 1000000"

definition handle_ping_event where
  "handle_ping_event p result sv =
     (case result of
        Ping_Success rtt \<Rightarrow> measure_metric PING_RTT (as_millis rtt) (count_metric PING_SUCCESS sv)
      | Pong \<Rightarrow> sv
      | Ping_Timeout \<Rightarrow> count_metric PING_TIMEOUT sv
      | Ping_Other e \<Rightarrow> count_metric PING_FAILURE sv
      | Ping_Unsupported \<Rightarrow> sv\<lparr>sv_banned := sv_banned sv @ [p]\<rparr>)"

definition handle_identify_event where
  "handle_identify_event env ev sv =
     (case ev of
        Identify_Error p e \<Rightarrow> count_metric IDENTIFY_FAILURE sv
      | Identify_Received p info \<Rightarrow>
          let sv = count_metric IDENTIFY_RECEIVED sv
          in sv\<lparr>sv_discovery := add_identified (se_discovery env) p info (sv_discovery sv)\<rparr>
      | Identify_Other \<Rightarrow> sv)"

definition handle_discovery_event where
  "handle_discovery_event env rd ev sv =
     (case ev of
        Added p addrs \<Rightarrow>
          sv\<lparr>sv_membership := Membership.set_routable (se_membership env) (rd_clock rd 0) p (sv_membership sv)\<rparr>
      | Discovery.Removed p \<Rightarrow>
          sv\<lparr>sv_membership := Membership.set_unroutable p (sv_membership sv)\<rparr>)"

definition handle_membership_event where
  "handle_membership_event env ev sv =
     (case ev of
        Skipped p \<Rightarrow>
          let (inserted, bf) = se_filter_insert env p (sv_background_lookup_filter sv);
              sv = sv\<lparr>sv_background_lookup_filter := bf\<rparr>
          in if inserted
             then sv\<lparr>sv_discovery := background_lookup (se_discovery env) p (sv_discovery sv)\<rparr> else sv
      | Updated p d \<Rightarrow> sv
      | Membership.Removed p \<Rightarrow> sv
      | ReceivedVote v \<Rightarrow> sv\<lparr>sv_events := sv_events sv @ [Vote_Received v]\<rparr>
      | ReceivedPreemptive sid data \<Rightarrow> sv\<lparr>sv_events := sv_events sv @ [Preemptive_Received sid data]\<rparr>)"

definition handle_content_event where
  "handle_content_event env ev sv =
     (case ev of
        Complete q result \<Rightarrow>
          (case sv_queries sv q of
             Some query \<Rightarrow> resolve_query env query result (sv\<lparr>sv_queries := (sv_queries sv)(q := None)\<rparr>)
           | None \<Rightarrow> sv)
      | BitswapForward p rx tx \<Rightarrow> sv\<lparr>sv_forwards := sv_forwards sv @ [(p, rx, tx)]\<rparr>)"

definition handle_behaviour_event where
  "handle_behaviour_event env rd ev sv =
     (case ev of
        Ping_Event p result \<Rightarrow> handle_ping_event p result sv
      | Identify_Event e \<Rightarrow> handle_identify_event env e sv
      | Discovery_Event e \<Rightarrow> handle_discovery_event env rd e sv
      | Membership_Event e \<Rightarrow> handle_membership_event env e sv
      | Content_Event e \<Rightarrow> handle_content_event env e sv)"

definition on_membership where
  "on_membership f sv = sv\<lparr>sv_membership := snd (f (sv_membership sv))\<rparr>"

definition handle_request where
  "handle_request env rd req sv =
     (let me = se_membership env; clk = rd_clock rd
      in case req of
           SetProvidedSubnets ids \<Rightarrow> on_membership (set_provided_subnets me clk ids) sv
         | AddProvidedSubnet sid \<Rightarrow> on_membership (add_provided_subnet me clk sid) sv
         | RemoveProvidedSubnet sid \<Rightarrow> on_membership (remove_provided_subnet me clk sid) sv
         | PublishVote vote \<Rightarrow> on_membership (publish_vote me vote) sv
         | PublishPreemptive sid data \<Rightarrow> on_membership (publish_preemptive me sid data) sv
         | PinSubnet sid \<Rightarrow> on_membership (Membership.pin_subnet me sid) sv
         | UnpinSubnet sid \<Rightarrow> on_membership (Membership.unpin_subnet me sid) sv
         | Resolve cid sid ch \<Rightarrow> start_query env rd cid sid ch sv
         | RateLimitUsed p n \<Rightarrow>
             sv\<lparr>sv_content := rate_limit_used (se_content env) (rd_instant rd) p n (sv_content sv)\<rparr>
         | UpdateRateLimit bs \<Rightarrow>
             sv\<lparr>sv_content := update_rate_limit (se_content env) bs (sv_content sv)\<rparr>)"

text \<open>
  The task spawned for a forwarded request: it waits for the response of Bitswap (\<open>None\<close> if Bitswap
  drops the channel), charges the size of a block to the peer, and passes the response on.
\<close>

datatype bitswap_response = Have bool | Block bytes

definition forward_task where
  "forward_task = (\<lambda>(p, rx, tx) res.
     case res of
       None \<Rightarrow> ([], [])
     | Some r \<Rightarrow> ((case r of Block bz \<Rightarrow> [RateLimitUsed p (length bz)] | Have _ \<Rightarrow> []), [(tx, r)]))"

text \<open>
  The main loop consumes events of the swarm and requests in whatever order they arrive, until one of
  the two sources is closed. While the swarm prepares its next event it drives the behaviours: an
  input comes with the change \<open>adv\<close> that this made to their states.
\<close>

datatype ('bev, 'req) service_input =
    Behaviour_Input 'bev
  | Other_Swarm_Input
  | Swarm_Closed
  | Request_Input 'req
  | Requests_Closed

definition advance where
  "advance adv sv =
     (case adv (sv_membership sv, sv_discovery sv, sv_content sv) of
        (m, d, c) \<Rightarrow> sv\<lparr>sv_membership := m, sv_discovery := d, sv_content := c\<rparr>)"

fun run where
  "run env [] sv = sv"
| "run env ((rd, adv, Behaviour_Input ev) # ins) sv =
     run env ins (handle_behaviour_event env rd ev (advance adv sv))"
| "run env ((rd, adv, Other_Swarm_Input) # ins) sv = run env ins (advance adv sv)"
| "run env ((rd, adv, Swarm_Closed) # ins) sv = advance adv sv"
| "run env ((rd, adv, Request_Input req) # ins) sv =
     run env ins (handle_request env rd req (advance adv sv))"
| "run env ((rd, adv, Requests_Closed) # ins) sv = advance adv sv"

section \<open>Client\<close>

text \<open>
  A client puts its requests into the queue of the service, unless the service has stopped.
\<close>

definition send_request where
  "send_request req = (\<lambda>(closed, queue).
     if closed then (Inl ''disconnected'', (closed, queue)) else (Inr (), (closed, queue @ [req])))"

definition client_set_provided_subnets where
  "client_set_provided_subnets ids = send_request (SetProvidedSubnets ids)"

definition client_add_provided_subnet where
  "client_add_provided_subnet sid = send_request (AddProvidedSubnet sid)"

definition client_remove_provided_subnet where
  "client_remove_provided_subnet sid = send_request (RemoveProvidedSubnet sid)"

definition client_pin_subnet where
  "client_pin_subnet sid = send_request (PinSubnet sid)"

definition client_unpin_subnet where
  "client_unpin_subnet sid = send_request (UnpinSubnet sid)"

definition client_update_rate_limit where
  "client_update_rate_limit bs = send_request (UpdateRateLimit bs)"

definition client_publish_vote where
  "client_publish_vote vote = send_request (PublishVote vote)"

definition client_publish_preemptive where
  "client_publish_preemptive sid data = send_request (PublishPreemptive sid data)"

text \<open>
  \<open>resolve\<close> sends the request with a fresh channel \<open>tx\<close>; what it returns once the service has
  answered is the first result sent through that channel.
\<close>

definition client_resolve where
  "client_resolve tx cid sid = send_request (Resolve cid sid tx)"

definition client_await where
  "client_await tx responses = map_option snd (find (\<lambda>(ch, res). ch = tx) responses)"

section \<open>Accounting of response channels\<close>

text \<open>
  What the matching of queries relies on: the identifiers of Bitswap queries are not reused.
  \<open>issued b\<close> is the set of identifiers that the Bitswap state \<open>b\<close> has given out.
\<close>

definition query_ids_fresh where
  "query_ids_fresh env issued \<longleftrightarrow>
     (\<forall>cid peers b q b'. ce_sync (se_content env) cid peers b = (q, b') \<longrightarrow>
        q \<notin> issued b \<and> issued b' = insert q (issued b))"

definition keeps_issued where
  "keeps_issued issued adv \<longleftrightarrow>
     (\<forall>m d c m' d' c'. adv (m, d, c) = (m', d', c') \<longrightarrow> issued (c_inner c') = issued (c_inner c))"

definition pending where
  "pending sv =
     image_mset (\<lambda>q. q_response_channel (the (sv_queries sv q))) (mset_set (dom (sv_queries sv)))"

definition responded where
  "responded sv = mset (map fst (sv_responses sv))"

text \<open>The channels of the requests that the loop has processed.\<close>

fun accepted where
  "accepted [] = []"
| "accepted ((rd, adv, Behaviour_Input ev) # ins) = accepted ins"
| "accepted ((rd, adv, Other_Swarm_Input) # ins) = accepted ins"
| "accepted ((rd, adv, Swarm_Closed) # ins) = []"
| "accepted ((rd, adv, Request_Input req) # ins) =
     (case req of Resolve cid sid ch \<Rightarrow> [ch] | _ \<Rightarrow> []) @ accepted ins"
| "accepted ((rd, adv, Requests_Closed) # ins) = []"

definition queries_inv where
  "queries_inv issued sv \<longleftrightarrow>
     finite (dom (sv_queries sv)) \<and> dom (sv_queries sv) \<subseteq> issued (c_inner (sv_content sv))"

lemma count_metric_frame [simp]:
  "sv_membership (count_metric mt sv) = sv_membership sv"
  "sv_discovery (count_metric mt sv) = sv_discovery sv"
  "sv_content (count_metric mt sv) = sv_content sv"
  "sv_queries (count_metric mt sv) = sv_queries sv"
  "sv_responses (count_metric mt sv) = sv_responses sv"
  "sv_max_peers_per_query (count_metric mt sv) = sv_max_peers_per_query sv"
  "sv_banned (count_metric mt sv) = sv_banned sv"
  "sv_metrics (count_metric mt sv) = inc mt (sv_metrics sv)"
  by (simp_all add: count_metric_def)

lemma measure_metric_frame [simp]:
  "sv_membership (measure_metric mt v sv) = sv_membership sv"
  "sv_discovery (measure_metric mt v sv) = sv_discovery sv"
  "sv_content (measure_metric mt v sv) = sv_content sv"
  "sv_queries (measure_metric mt v sv) = sv_queries sv"
  "sv_responses (measure_metric mt v sv) = sv_responses sv"
  "sv_max_peers_per_query (measure_metric mt v sv) = sv_max_peers_per_query sv"
  "sv_banned (measure_metric mt v sv) = sv_banned sv"
  "sv_metrics (measure_metric mt v sv) = observe mt v (sv_metrics sv)"
  by (simp_all add: measure_metric_def)

lemma queries_inv_count [simp]:
  "queries_inv issued (count_metric mt sv) \<longleftrightarrow> queries_inv issued sv"
  "queries_inv issued (measure_metric mt v sv) \<longleftrightarrow> queries_inv issued sv"
  by (simp_all add: queries_inv_def)

lemma pending_count [simp]:
  "pending (count_metric mt sv) = pending sv" "pending (measure_metric mt v sv) = pending sv"
  "responded (count_metric mt sv) = responded sv" "responded (measure_metric mt v sv) = responded sv"
  by (simp_all add: pending_def responded_def)

lemma pending_upd:
  assumes "finite (dom (sv_queries sv))" and "q \<notin> dom (sv_queries sv)"
  shows "pending (sv\<lparr>sv_queries := (sv_queries sv)(q \<mapsto> query)\<rparr>) =
    add_mset (q_response_channel query) (pending sv)"
proof -
  have "image_mset (\<lambda>q'. q_response_channel (the (((sv_queries sv)(q \<mapsto> query)) q'))) (mset_set (dom (sv_queries sv))) =
      image_mset (\<lambda>q. q_response_channel (the (sv_queries sv q))) (mset_set (dom (sv_queries sv)))"
    using assms by (intro image_mset_cong) auto
  with assms show ?thesis
    by (simp add: pending_def)
qed

lemma pending_remove:
  assumes "finite (dom (sv_queries sv))" and "sv_queries sv q = Some query"
  shows "pending sv = add_mset (q_response_channel query)
    (pending (sv\<lparr>sv_queries := (sv_queries sv)(q := None)\<rparr>))"
proof -
  let ?sv = "sv\<lparr>sv_queries := (sv_queries sv)(q := None)\<rparr>"
  have "sv = ?sv\<lparr>sv_queries := (sv_queries ?sv)(q \<mapsto> query)\<rparr>"
    using assms(2) by (simp add: fun_upd_idem)
  then show ?thesis
    using pending_upd [of ?sv q query] assms(1) by simp
qed

lemma accounted_insert_query:
  assumes "query_ids_fresh env issued" and "queries_inv issued sv"
    and "content_resolve env cid peers sv = (q, sv')"
  shows "queries_inv issued (sv'\<lparr>sv_queries := (sv_queries sv')(q \<mapsto> query)\<rparr>) \<and>
    pending (sv'\<lparr>sv_queries := (sv_queries sv')(q \<mapsto> query)\<rparr>) =
      add_mset (q_response_channel query) (pending sv) \<and>
    responded (sv'\<lparr>sv_queries := (sv_queries sv')(q \<mapsto> query)\<rparr>) = responded sv"
proof -
  obtain b where b: "ce_sync (se_content env) cid peers (c_inner (sv_content sv)) = (q, b)"
    and sv': "sv' = sv\<lparr>sv_content := (sv_content sv)\<lparr>c_inner := b,
        c_metrics := inc CONTENT_RESOLVE_RUNNING (c_metrics (sv_content sv))\<rparr>\<rparr>"
    using assms(3) by (auto simp: content_resolve_def resolve_def Let_def split: prod.splits)
  then have q: "q \<notin> issued (c_inner (sv_content sv))" "issued b = insert q (issued (c_inner (sv_content sv)))"
    using assms(1) unfolding query_ids_fresh_def by blast+
  moreover have "pending sv' = pending sv"
    by (simp add: sv' pending_def)
  ultimately show ?thesis
    using assms(2) pending_upd [of sv' q query]
    by (auto simp: queries_inv_def sv' responded_def)
qed

text \<open>
  \<open>accounts n issued sv sv'\<close>: from \<open>sv\<close> to \<open>sv'\<close> the channels that wait for an answer or have got one
  grew by \<open>n\<close>.
\<close>

definition accounts where
  "accounts n issued sv sv' \<longleftrightarrow>
     queries_inv issued sv' \<and> pending sv' + responded sv' = n + (pending sv + responded sv)"

lemma accounts_counted [simp]:
  "accounts n issued (count_metric mt sv) sv' \<longleftrightarrow> accounts n issued sv sv'"
  "accounts n issued (measure_metric mt v sv) sv' \<longleftrightarrow> accounts n issued sv sv'"
  by (simp_all add: accounts_def)

lemma accounts_send_resolve_result:
  "queries_inv issued sv \<Longrightarrow> accounts {#ch#} issued sv (send_resolve_result ch res sv)"
  by (simp add: accounts_def send_resolve_result_def queries_inv_def pending_def responded_def)

lemma accounts_insert_query:
  assumes "query_ids_fresh env issued" and "queries_inv issued sv"
    and "content_resolve env cid peers sv = (q, sv')"
  shows "accounts {#q_response_channel query#} issued sv (sv'\<lparr>sv_queries := (sv_queries sv')(q \<mapsto> query)\<rparr>)"
  using accounted_insert_query [OF assms] by (simp add: accounts_def)

lemma accounts_start_query:
  assumes "query_ids_fresh env issued" and "queries_inv issued sv"
  shows "accounts {#ch#} issued sv (start_query env rd cid sid ch sv)"
proof -
  have insert: "accounts {#ch#} issued sv (sv'\<lparr>sv_queries := (sv_queries sv')(q \<mapsto>
      \<lparr>q_cid = cid', q_subnet_id = sid', q_fallback_peer_ids = ps, q_response_channel = ch\<rparr>)\<rparr>)"
    if "content_resolve env cid peers (measure_metric m1 k (measure_metric m2 l sv)) = (q, sv')"
    for peers m1 k m2 l q sv' cid' sid' ps
    using accounts_insert_query [OF assms(1) _ that, of "\<lparr>q_cid = cid', q_subnet_id = sid',
        q_fallback_peer_ids = ps, q_response_channel = ch\<rparr>"] assms(2) by simp
  have send: "accounts {#ch#} issued sv (send_resolve_result ch res (count_metric m1 (measure_metric m2 l sv)))"
    for res m1 m2 l
    using accounts_send_resolve_result [of issued "count_metric m1 (measure_metric m2 l sv)"] assms(2) by simp
  show ?thesis
    by (auto simp: start_query_def Let_def send split: prod.splits intro: insert)
qed

lemma accounts_resolve_query:
  assumes "query_ids_fresh env issued" and "queries_inv issued sv"
  shows "accounts {#q_response_channel query#} issued sv (resolve_query env query result sv)"
proof -
  have insert: "accounts {#q_response_channel query#} issued sv
      (sv'\<lparr>sv_queries := (sv_queries sv')(q \<mapsto> query\<lparr>q_fallback_peer_ids := ps\<rparr>)\<rparr>)"
    if "content_resolve env cid peers (count_metric mt sv) = (q, sv')" for cid peers mt q sv' ps
    using accounts_insert_query [OF assms(1) _ that, of "query\<lparr>q_fallback_peer_ids := ps\<rparr>"] assms(2) by simp
  have send: "accounts {#ch#} issued sv (send_resolve_result ch res (count_metric mt sv))" for ch res mt
    using accounts_send_resolve_result [of issued "count_metric mt sv"] assms(2) by simp
  show ?thesis
    by (auto simp: resolve_query_def Let_def send split: prod.splits sum.splits intro: insert)
qed

lemma accounts_content_event:
  assumes "query_ids_fresh env issued" and "queries_inv issued sv"
  shows "accounts {#} issued sv (handle_content_event env ev sv)"
proof (cases ev)
  case (Complete q result)
  show ?thesis
  proof (cases "sv_queries sv q")
    case (Some query)
    let ?sv = "sv\<lparr>sv_queries := (sv_queries sv)(q := None)\<rparr>"
    have "queries_inv issued ?sv"
      using assms(2) by (auto simp: queries_inv_def)
    from accounts_resolve_query [OF assms(1) this, of query result]
    show ?thesis
      using pending_remove [OF _ Some] assms(2)
      by (simp add: handle_content_event_def Complete Some accounts_def queries_inv_def responded_def)
  qed (use assms(2) Complete in \<open>simp add: handle_content_event_def accounts_def\<close>)
next
  case (BitswapForward p rx tx)
  with assms(2) show ?thesis
    by (simp add: handle_content_event_def accounts_def queries_inv_def pending_def responded_def)
qed

text \<open>Operations that leave the queries, the responses and the issued identifiers alone.\<close>

definition same_queries where
  "same_queries issued sv sv' \<longleftrightarrow>
     sv_queries sv' = sv_queries sv \<and> sv_responses sv' = sv_responses sv \<and>
     issued (c_inner (sv_content sv')) = issued (c_inner (sv_content sv))"

lemma same_queries_accounts: "queries_inv issued sv \<Longrightarrow> same_queries issued sv sv' \<Longrightarrow> accounts {#} issued sv sv'"
  by (simp add: accounts_def same_queries_def queries_inv_def pending_def responded_def)

lemma c_inner_frame [simp]:
  "c_inner (rate_limit_used env now p k st) = c_inner st"
  "c_inner (update_rate_limit env bs st) = c_inner st"
  by (simp_all add: rate_limit_used_def charge_def update_rate_limit_def Let_def split: option.splits prod.splits)

lemma accounts_behaviour_event:
  assumes "query_ids_fresh env issued" and "queries_inv issued sv"
  shows "accounts {#} issued sv (handle_behaviour_event env rd ev sv)"
proof (cases ev)
  case (Content_Event e)
  with accounts_content_event [OF assms] show ?thesis
    by (simp add: handle_behaviour_event_def)
qed (use assms(2) in \<open>auto simp: handle_behaviour_event_def handle_ping_event_def handle_identify_event_def
    handle_discovery_event_def handle_membership_event_def Let_def same_queries_def
    intro!: same_queries_accounts split: ping_result.splits identify_event.splits discovery_event.splits
      membership_event.splits prod.splits\<close>)

lemma accounts_request:
  assumes "query_ids_fresh env issued" and "queries_inv issued sv"
  shows "accounts (case req of Resolve cid sid ch \<Rightarrow> {#ch#} | _ \<Rightarrow> {#}) issued sv (handle_request env rd req sv)"
  using accounts_start_query [OF assms] assms(2)
  by (cases req) (auto simp: handle_request_def on_membership_def Let_def same_queries_def
      intro!: same_queries_accounts)

lemma accounts_advance:
  "keeps_issued issued adv \<Longrightarrow> queries_inv issued sv \<Longrightarrow> accounts {#} issued sv (advance adv sv)"
  by (rule same_queries_accounts)
    (auto simp: advance_def keeps_issued_def same_queries_def split: prod.splits)

lemma accounts_trans: "accounts n issued sv u \<Longrightarrow> accounts m issued u v \<Longrightarrow> accounts (n + m) issued sv v"
  by (simp add: accounts_def ac_simps)

lemma accounts_inv: "accounts n issued sv u \<Longrightarrow> queries_inv issued u"
  by (simp add: accounts_def)

lemma accounts_run:
  assumes "query_ids_fresh env issued" and "queries_inv issued sv"
    and "\<forall>(rd, adv, inp) \<in> set ins. keeps_issued issued adv"
  shows "accounts (mset (accepted ins)) issued sv (run env ins sv)"
  using assms(2,3)
proof (induction ins arbitrary: sv)
  case (Cons i ins)
  obtain rd adv inp where i: "i = (rd, adv, inp)"
    by (cases i)
  let ?adv = "advance adv sv"
  have adv: "accounts {#} issued sv ?adv"
    using Cons.prems i by (intro accounts_advance) auto
  note inv = accounts_inv [OF adv]
  have "\<forall>(rd, adv, inp) \<in> set ins. keeps_issued issued adv"
    using Cons.prems(2) by simp
  note IH = Cons.IH [OF accounts_inv this]
  show ?case
  proof (cases inp)
    case (Behaviour_Input ev)
    have step: "accounts {#} issued ?adv (handle_behaviour_event env rd ev ?adv)"
      by (rule accounts_behaviour_event [OF assms(1) inv])
    from accounts_trans [OF adv accounts_trans [OF step IH [OF step]]] show ?thesis
      by (simp add: i Behaviour_Input)
  next
    case Other_Swarm_Input
    from accounts_trans [OF adv IH [OF adv]] show ?thesis
      by (simp add: i Other_Swarm_Input)
  next
    case (Request_Input req)
    have step: "accounts (case req of Resolve cid sid ch \<Rightarrow> {#ch#} | _ \<Rightarrow> {#}) issued ?adv
        (handle_request env rd req ?adv)"
      by (rule accounts_request [OF assms(1) inv])
    from accounts_trans [OF adv accounts_trans [OF step IH [OF step]]] show ?thesis
      by (auto simp: i Request_Input split: request.splits)
  qed (use adv in \<open>simp_all add: i\<close>)
qed (simp add: accounts_def)

section \<open>Retries\<close>

text \<open>A failed attempt of the query \<open>q\<close> that leads to another attempt \<open>q'\<close>.\<close>

definition retry where
  "retry env = (\<lambda>(sv, q) (sv', q').
     \<exists>query e. sv_queries sv q = Some query \<and> q_fallback_peer_ids query \<noteq> [] \<and>
       sv' = handle_content_event env (Complete q (Inl e)) sv \<and>
       q' = fst (ce_sync (se_content env) (q_cid query)
              (take (sv_max_peers_per_query sv) (q_fallback_peer_ids query)) (c_inner (sv_content sv))))"

lemma split_peers_for_query_eq:
  "split_peers_for_query sv peers =
     (take (sv_max_peers_per_query sv) peers, drop (sv_max_peers_per_query sv) peers)"
  by (simp add: split_peers_for_query_def Let_def min_def)

lemma retry_step:
  assumes "retry env (sv, q) (sv', q')" and "sv_queries sv q = Some query"
  shows "sv_queries sv' q' = Some (query\<lparr>q_fallback_peer_ids :=
      drop (sv_max_peers_per_query sv) (q_fallback_peer_ids query)\<rparr>)"
    and "sv_max_peers_per_query sv' = sv_max_peers_per_query sv"
    and "q_fallback_peer_ids query \<noteq> []"
  using assms
  by (auto simp: retry_def handle_content_event_def resolve_query_def split_peers_for_query_eq Let_def
      content_resolve_def resolve_def split: prod.splits)

lemma retry_power:
  assumes "(retry env ^^ n) (sv, q) (sv', q')" and "sv_queries sv q = Some query"
    and "m = sv_max_peers_per_query sv"
  shows "sv_queries sv' q' = Some (query\<lparr>q_fallback_peer_ids := drop (n * m) (q_fallback_peer_ids query)\<rparr>) \<and>
    sv_max_peers_per_query sv' = m \<and> (n > 0 \<longrightarrow> (n - 1) * m < length (q_fallback_peer_ids query))"
  using assms
proof (induction n arbitrary: sv' q')
  case (Suc n)
  then obtain u p where u: "(retry env ^^ n) (sv, q) (u, p)" "retry env (u, p) (sv', q')"
    by auto
  from Suc.IH [OF u(1) Suc.prems(2,3)]
  have IH: "sv_queries u p = Some (query\<lparr>q_fallback_peer_ids := drop (n * m) (q_fallback_peer_ids query)\<rparr>)"
    "sv_max_peers_per_query u = m"
    by simp_all
  from retry_step [OF u(2) IH(1)] IH(2) show ?case
    by (simp add: add.commute)
qed simp

definition sample_service_env where
  "sample_service_env =
     \<lparr>se_membership = sample_env, se_discovery = sample_discovery_env, se_content = sample_content_env,
      se_filter_insert = (\<lambda>(p :: u8) bf. (p \<notin> bf, insert p bf))\<rparr>"

definition sample_service where
  "sample_service =
     \<lparr>sv_membership = sample_state\<lparr>m_provider_cache :=
        \<lparr>max_subnets = 2, pinned_subnets = {}, routable_peers = {8, 9}, subnet_providers = [3 \<mapsto> {8, 9}],
         peer_timestamps = [8 \<mapsto> Timestamp 650, 9 \<mapsto> Timestamp 950]\<rparr>\<rparr>,
      sv_discovery = sample_discovery, sv_content = sample_content, sv_queries = (Map.empty :: nat \<rightharpoonup> (nat, u8, u8, nat) query),
      sv_background_lookup_filter = {} :: u8 set, sv_max_peers_per_query = 1, sv_banned = [] :: u8 list,
      sv_events = [] :: (u8, (u8, u8, u8) vote_record) service_event list,
      sv_responses = [] :: (nat \<times> (u8 resolve_error, unit) result) list,
      sv_forwards = [] :: (u8 \<times> nat \<times> nat) list, sv_metrics = no_metrics\<rparr>"

type_synonym sample_behaviours =
  "(u8, u8, u8, u8, u8, unit, duration) membership \<times> (u8, (u8 \<times> multiaddr) list, duration) discovery \<times>
   (u8, nat, nat, nat, nat list, u32, multiaddr \<rightharpoonup> nat) content"

type_synonym sample_input =
  "((u8, u8 identify_event, u8 discovery_event, (u8, u8, u8, u8) membership_event,
     (u8, nat, nat, nat) content_event) behaviour_event,
    (u8, u8, nat, ((u8, u8, u8) vote_record, bytes) signed_record, nat) request) service_input"

definition sample_readings :: "(u8, unit) readings" where
  "sample_readings = \<lparr>rd_clock = (\<lambda>_. Timestamp 1), rd_instant = (), rd_shuffle = (\<lambda>ps. ps),
     rd_connected = (\<lambda>p. p = 9)\<rparr>"

definition sample_inputs ::
  "((u8, unit) readings \<times> (sample_behaviours \<Rightarrow> sample_behaviours) \<times> sample_input) list" where
  "sample_inputs =
     [(sample_readings, \<lambda>s. s, Request_Input (Resolve 7 3 5)),
      (sample_readings, \<lambda>s. s, Request_Input (Resolve 7 4 6)),
      (sample_readings, \<lambda>s. s, Behaviour_Input (Content_Event (Complete 0 (Inl ''timeout''))))]"

lemma advance_id [simp]: "advance (\<lambda>s. s) sv = sv"
  by (simp add: advance_def)

lemma sample_ids_fresh: "query_ids_fresh sample_service_env (\<lambda>b. {..<length b})"
  by (auto simp: query_ids_fresh_def sample_service_env_def sample_content_env_def)

section \<open>Properties\<close>

text \<open>
  C11. No request for content is lost or answered twice: after any sequence of inputs, in any order of
  requests, finished and failed attempts, the channels of the accepted requests are exactly the
  channels that were answered once together with those of the queries still running, provided Bitswap
  does not reuse query identifiers.
\<close>

theorem requests_answered_once:
  assumes "query_ids_fresh env issued" and "\<forall>(rd, adv, inp) \<in> set ins. keeps_issued issued adv"
    and "sv_queries sv0 = Map.empty" and "sv_responses sv0 = []"
  shows "mset (accepted ins) = pending (run env ins sv0) + responded (run env ins sv0)"
proof -
  have "queries_inv issued sv0"
    by (simp add: queries_inv_def assms(3))
  from accounts_run [OF assms(1) this assms(2)] assms(3,4) show ?thesis
    by (simp add: accounts_def pending_def [of sv0] responded_def [of sv0])
qed

theorem requests_answered_once_witness:
  "{#5, 6 :: nat#} = pending (run sample_service_env sample_inputs sample_service) +
     responded (run sample_service_env sample_inputs sample_service)"
proof -
  have "mset (accepted sample_inputs) = pending (run sample_service_env sample_inputs sample_service) +
     responded (run sample_service_env sample_inputs sample_service)"
    by (rule requests_answered_once [OF sample_ids_fresh])
      (simp_all add: sample_inputs_def keeps_issued_def sample_service_def)
  then show ?thesis
    by (simp add: sample_inputs_def)
qed



end
