(* ===== verification/Resolver_Node.thy ===== *)
theory Resolver_Node
  imports Service
begin

text \<open>
  A whole node of the resolver: how \<^verbatim>\<open>src/ipld/resolver/src/service.rs\<close> and
  \<^verbatim>\<open>src/ipld/resolver/src/behaviour/mod.rs\<close> put the behaviours together, and how the swarm drives them.

  The swarm reports connections to all behaviours, passes what a connection handler says to the
  behaviour the handler belongs to, and polls the behaviours; an event that polling returns is handled
  by the service at once. The transport, the limits of the swarm and the behaviours for ping and
  identification are libp2p.
\<close>

section \<open>Configuration and construction\<close>

datatype node_config_error =
    Discovery_Config discovery_error
  | Membership_Config config_error
  | Service_Panicked string

definition behaviour_new where
  "behaviour_new env now nc dc mc cc =
     bind_result (map_err Discovery_Config (Discovery.new (se_discovery env) nc dc)) (\<lambda>d.
     bind_result (map_err Membership_Config (Membership.new (se_membership env) now nc mc)) (\<lambda>m.
     Inr (d, m, content_new (se_content env) cc)))"

record connection_config =
  cn_listen_addr :: multiaddr
  cn_max_incoming :: u32
  cn_expected_peer_count :: u32
  cn_max_peers_per_query :: u32
  cn_event_buffer_capacity :: u32

record ('key, 'sid) resolver_config =
  rs_network :: "'key network_config"
  rs_discovery :: discovery_config
  rs_membership :: "'sid membership_config"
  rs_connection :: connection_config
  rs_content :: content_config

text \<open>
  \<open>filter_new\<close> makes a Bloom filter for an expected number of peers. A broadcast channel cannot have
  the capacity zero: making one panics.
\<close>

definition service_new where
  "service_new env filter_new now config =
     bind_result (behaviour_new env now (rs_network config) (rs_discovery config) (rs_membership config)
       (rs_content config)) (\<lambda>(d, m, c).
     if cn_event_buffer_capacity (rs_connection config) = 0
     then Inl (Service_Panicked ''broadcast channel capacity cannot be zero'')
     else Inr
       \<lparr>sv_membership = m, sv_discovery = d, sv_content = c, sv_queries = Map.empty,
        sv_background_lookup_filter = filter_new (cn_expected_peer_count (rs_connection config)),
        sv_max_peers_per_query = unat (cn_max_peers_per_query (rs_connection config)),
        sv_banned = [], sv_events = [], sv_responses = [], sv_forwards = [], sv_metrics = no_metrics\<rparr>)"

section \<open>How the swarm drives a node\<close>

text \<open>What the inner behaviours of libp2p do with what is passed on to them.\<close>

record ('peer, 'sev, 'ghev, 'khev, 'g, 'k) inner_env =
  ie_gossip_swarm_event :: "('peer, 'sev) swarm_event \<Rightarrow> 'g \<Rightarrow> 'g"
  ie_gossip_handler_event :: "'peer \<Rightarrow> nat \<Rightarrow> 'ghev \<Rightarrow> 'g \<Rightarrow> 'g"
  ie_kad_handler_event :: "'peer \<Rightarrow> nat \<Rightarrow> 'khev \<Rightarrow> 'k \<Rightarrow> 'k"

definition node_swarm_event where
  "node_swarm_event inner env (ev :: ('peer, 'sev) swarm_event) sv =
     sv\<lparr>sv_discovery := Discovery.on_swarm_event (se_discovery env) ev (sv_discovery sv :: ('peer, 'k, 'iv) discovery),
        sv_membership := Membership.on_swarm_event (ie_gossip_swarm_event inner) ev (sv_membership sv),
        sv_content := Content.on_swarm_event (se_content env) ev (sv_content sv)\<rparr>"

datatype ('rd, 'peer, 'ghev, 'khev, 'hev, 'chan, 'ga, 'ka, 'ba, 'req) node_label =
    Gossip_Handler 'peer nat 'ghev
  | Kad_Handler 'peer nat 'khev
  | Bitswap_Handler 'rd 'chan 'peer nat 'hev
  | Poll_Ping 'peer ping_result
  | Poll_Identify "'peer identify_event"
  | Poll_Membership 'rd "('peer, 'ga) gossip_action list"
  | Poll_Discovery 'rd 'peer "('peer, 'ka) kad_action list"
  | Poll_Content "'ba list"
  | Client_Request 'rd 'req

text \<open>The service handles the event that polling a behaviour returns.\<close>

definition when_event where
  "when_event handle r sv = (case r of Generate_Event ev \<Rightarrow> handle ev sv | _ \<Rightarrow> sv)"

fun node_call where
  "node_call inner env (Gossip_Handler p conn ev) sv =
     sv\<lparr>sv_membership := Membership.on_connection_handler_event (ie_gossip_handler_event inner) p conn ev (sv_membership sv)\<rparr>"
| "node_call inner env (Kad_Handler p conn ev) sv =
     sv\<lparr>sv_discovery := Discovery.on_connection_handler_event (ie_kad_handler_event inner) p conn ev (sv_discovery sv)\<rparr>"
| "node_call inner env (Bitswap_Handler rd chan p conn ev) sv =
     sv\<lparr>sv_content := Content.on_connection_handler_event (se_content env) (rd_instant rd) chan p conn ev (sv_content sv)\<rparr>"
| "node_call inner env (Poll_Ping p result) sv = handle_ping_event p result sv"
| "node_call inner env (Poll_Identify ev) sv = handle_identify_event env ev sv"
| "node_call inner env (Poll_Membership rd acts) sv =
     (let (r, m) = Membership.poll (se_membership env) (rd_clock rd, acts) (sv_membership sv)
      in when_event (handle_membership_event env) r (sv\<lparr>sv_membership := m\<rparr>))"
| "node_call inner env (Poll_Discovery rd random acts) sv =
     (let (r, d) = Discovery.poll (se_discovery env) (random, acts) (sv_discovery sv)
      in when_event (handle_discovery_event env rd) r (sv\<lparr>sv_discovery := d\<rparr>))"
| "node_call inner env (Poll_Content acts) sv =
     (let (r, c) = content_poll acts (sv_content sv)
      in when_event (handle_content_event env) r (sv\<lparr>sv_content := c\<rparr>))"
| "node_call inner env (Client_Request rd (req ::
       ('sid, 'peer, 'cid, (('sid, 'pub, 'vcid) vote_record, 'env) signed_record, 'ch) request)) sv =
     handle_request env rd req sv"

text \<open>
  In every step, hash tables are visited in an order of their own; \<open>n\<close> counts the connections of each
  peer.
\<close>

definition with_service_orders where
  "with_service_orders env so po = env\<lparr>se_membership := with_orders (se_membership env) so po\<rparr>"

inductive node_step for inner env where
  "hash_order so \<Longrightarrow> hash_order po \<Longrightarrow>
   network_step (node_swarm_event inner (with_service_orders env so po)) (node_call inner (with_service_orders env so po)) s l t \<Longrightarrow>
   node_step inner env s l t"

section \<open>What the parts of a node agree on\<close>

text \<open>Discovery and content follow the same connections.\<close>

definition connections_agree where
  "connections_agree sv C \<longleftrightarrow>
     counts_connections (sv_discovery sv) C \<and> dom (c_peer_addresses (sv_content sv)) = C"

definition node_inv where
  "node_inv env sv \<longleftrightarrow>
     membership_inv (se_membership env) (sv_membership sv) \<and> discovery_inv (se_discovery env) (sv_discovery sv)"

lemma with_service_orders_simps [simp]:
  "se_membership (with_service_orders env so po) = with_orders (se_membership env) so po"
  "se_discovery (with_service_orders env so po) = se_discovery env"
  "se_content (with_service_orders env so po) = se_content env"
  by (simp_all add: with_service_orders_def)

text \<open>Handling a request or an event calls each behaviour through one of its operations, or not at all.\<close>

lemma membership_of_request:
  fixes req :: "('sid, 'peer, 'cid, (('sid, 'pub, 'vcid) vote_record, 'env) signed_record, 'ch) request"
  shows "sv_membership (handle_request env rd req sv) = sv_membership sv \<or>
    (\<exists>l :: ('sid, 'peer, 'vcid, 'pub, 'env, unit) membership_label. sv_membership (handle_request env rd req sv) =
      membership_apply (se_membership env) (rd_clock rd) l (sv_membership sv))"
proof (cases req)
  case (SetProvidedSubnets ids)
  then show ?thesis
    by (intro disjI2 exI [of _ "Set_Provided ids"]) (simp add: handle_request_def on_membership_def)
next
  case (AddProvidedSubnet s)
  then show ?thesis
    by (intro disjI2 exI [of _ "Add_Provided s"]) (simp add: handle_request_def on_membership_def)
next
  case (RemoveProvidedSubnet s)
  then show ?thesis
    by (intro disjI2 exI [of _ "Remove_Provided s"]) (simp add: handle_request_def on_membership_def)
next
  case (PublishVote v)
  then show ?thesis
    by (intro disjI2 exI [of _ "Membership.Publish_Vote v"]) (simp add: handle_request_def on_membership_def)
next
  case (PublishPreemptive s bs)
  then show ?thesis
    by (intro disjI2 exI [of _ "Membership.Publish_Preemptive s bs"]) (simp add: handle_request_def on_membership_def)
next
  case (PinSubnet s)
  then show ?thesis
    by (intro disjI2 exI [of _ "Pin s"]) (simp add: handle_request_def on_membership_def)
next
  case (UnpinSubnet s)
  then show ?thesis
    by (intro disjI2 exI [of _ "Unpin s"]) (simp add: handle_request_def on_membership_def)
qed (auto simp: handle_request_def start_query_def send_resolve_result_def content_resolve_def Let_def split: prod.splits)

lemma membership_of_event:
  "sv_membership (handle_ping_event p result sv) = sv_membership sv"
  "sv_membership (handle_identify_event env ie sv) = sv_membership sv"
  "sv_membership (handle_membership_event env me sv) = sv_membership sv"
  "sv_membership (handle_content_event env ce sv) = sv_membership sv"
  by (auto simp: handle_ping_event_def handle_identify_event_def handle_membership_event_def handle_content_event_def
      resolve_query_def send_resolve_result_def content_resolve_def Let_def
      split: ping_result.splits identify_event.splits membership_event.splits content_event.splits prod.splits
        option.splits sum.splits)

lemma discovery_of_event:
  "sv_discovery (handle_ping_event p result sv) = sv_discovery sv"
  "sv_discovery (handle_discovery_event env rd de sv) = sv_discovery sv"
  "sv_discovery (handle_content_event env ce sv) = sv_discovery sv"
  "sv_discovery (handle_request env rd req sv) = sv_discovery sv"
  by (auto simp: handle_ping_event_def handle_discovery_event_def handle_content_event_def handle_request_def
      on_membership_def start_query_def
      resolve_query_def send_resolve_result_def content_resolve_def Let_def
      split: ping_result.splits discovery_event.splits content_event.splits prod.splits
        option.splits sum.splits request.splits)

lemma addresses_of_event:
  "c_peer_addresses (sv_content (handle_ping_event p result sv)) = c_peer_addresses (sv_content sv)"
  "c_peer_addresses (sv_content (handle_identify_event env ie sv)) = c_peer_addresses (sv_content sv)"
  "c_peer_addresses (sv_content (handle_membership_event env me sv)) = c_peer_addresses (sv_content sv)"
  "c_peer_addresses (sv_content (handle_discovery_event env rd de sv)) = c_peer_addresses (sv_content sv)"
  by (auto simp: handle_ping_event_def handle_identify_event_def handle_membership_event_def handle_discovery_event_def Let_def
      split: ping_result.splits identify_event.splits membership_event.splits discovery_event.splits prod.splits)

lemma addresses_of_resolve [simp]:
  "content_resolve env cid peers sv = (q, sv') \<Longrightarrow> c_peer_addresses (sv_content sv') = c_peer_addresses (sv_content sv)"
  by (auto simp: content_resolve_def resolve_def Let_def split: prod.splits)

lemma addresses_of_content_event:
  "c_peer_addresses (sv_content (handle_content_event env ce sv)) = c_peer_addresses (sv_content sv)"
  by (auto simp: handle_content_event_def resolve_query_def send_resolve_result_def Let_def
      split: content_event.splits prod.splits option.splits sum.splits)

lemma addresses_of_request:
  "c_peer_addresses (sv_content (handle_request env rd req sv)) = c_peer_addresses (sv_content sv)"
  by (cases req) (auto simp: handle_request_def on_membership_def start_query_def send_resolve_result_def Let_def
      split: prod.splits)

text \<open>The invariants of the behaviours hold whatever is called.\<close>

lemma membership_inv_inner [simp]:
  "membership_inv env (Membership.on_swarm_event f ev st) \<longleftrightarrow> membership_inv env st"
  "membership_inv env (Membership.on_connection_handler_event g p conn hev st) \<longleftrightarrow> membership_inv env st"
  by (simp_all add: membership_inv_def Membership.on_swarm_event_def Membership.on_connection_handler_event_def
      preemptive_topic_def)

lemma discovery_inv_handler [simp]:
  "discovery_inv env (Discovery.on_connection_handler_event f p conn ev st) \<longleftrightarrow> discovery_inv env st"
  by (simp add: discovery_inv_def buffer_inv_def interval_inv_def Discovery.on_connection_handler_event_def)

lemma num_connections_handler [simp]:
  "d_num_connections (Discovery.on_connection_handler_event f p conn ev st) = d_num_connections st"
  "connected_gauge (Discovery.on_connection_handler_event f p conn ev st) = connected_gauge st"
  by (simp_all add: Discovery.on_connection_handler_event_def)

lemma num_connections_add_identified [simp]:
  "d_num_connections (add_identified env p info st) = d_num_connections st"
  "connected_gauge (add_identified env p info st) = connected_gauge st"
  using same_counters_add_identified [of st env p info] by (simp_all add: same_counters_def)

lemma node_inv_swarm_event: "node_inv env sv \<Longrightarrow> node_inv env (node_swarm_event inner env ev sv)"
  unfolding node_inv_def node_swarm_event_def by (auto intro: discovery_inv_frame(3))

lemma node_inv_poll_membership:
  assumes "timer_laws (se_discovery env)" and "hash_order (me_subnet_order (se_membership env))" and "node_inv env sv"
  shows "node_inv env (node_call inner env (Poll_Membership rd acts) sv)"
proof -
  obtain r m where poll: "Membership.poll (se_membership env) (rd_clock rd, acts) (sv_membership sv) = (r, m)"
    by fastforce
  have "membership_inv (se_membership env) m"
    using membership_inv_apply [OF assms(2), of "sv_membership sv" "rd_clock rd" "Poll acts"] assms(3) poll
    by (simp add: node_inv_def)
  moreover have "discovery_inv (se_discovery env) (sv_discovery (handle_membership_event env ev (sv\<lparr>sv_membership := m\<rparr>)))" for ev
    using assms(3) discovery_inv_frame(1)
    by (auto simp: node_inv_def handle_membership_event_def Let_def split: membership_event.split prod.split)
  ultimately show ?thesis
    using assms(3) by (simp add: poll when_event_def node_inv_def membership_of_event split: poll_result.split)
qed

lemma node_inv_poll_discovery:
  assumes "timer_laws (se_discovery env)" and "hash_order (me_subnet_order (se_membership env))" and "node_inv env sv"
  shows "node_inv env (node_call inner env (Poll_Discovery rd random acts) sv)"
proof -
  obtain r d where poll: "Discovery.poll (se_discovery env) (random, acts) (sv_discovery sv) = (r, d)"
    by fastforce
  have "discovery_inv (se_discovery env) d"
    using discovery_inv_poll(1) [OF assms(1), of "sv_discovery sv" random acts] assms(3) poll by (simp add: node_inv_def)
  moreover have "membership_inv (se_membership env) (sv_membership (handle_discovery_event env rd ev (sv\<lparr>sv_discovery := d\<rparr>)))" for ev
    using assms(3) membership_inv_apply [OF assms(2), of "sv_membership sv" "rd_clock rd" "Mark_Routable _"]
      membership_inv_apply [OF assms(2), of "sv_membership sv" "rd_clock rd" "Mark_Unroutable _"]
    by (auto simp: node_inv_def handle_discovery_event_def split: discovery_event.split)
  ultimately show ?thesis
    using assms(3) by (simp add: poll when_event_def node_inv_def discovery_of_event split: poll_result.split)
qed

lemma node_inv_call:
  assumes "timer_laws (se_discovery env)" and "hash_order (me_subnet_order (se_membership env))" and "node_inv env sv"
  shows "node_inv env (node_call inner env l sv)"
proof (cases l)
  case (Poll_Identify ev)
  with assms show ?thesis
    by (auto simp: node_inv_def membership_of_event handle_identify_event_def discovery_inv_add_identified
        split: identify_event.split)
next
  case (Client_Request rd req)
  show ?thesis
    using membership_of_request [of env rd req sv] assms(3)
    by (auto simp: Client_Request node_inv_def discovery_of_event membership_inv_apply [OF assms(2)])
next
  case (Poll_Content acts)
  with assms(3) show ?thesis
    by (simp add: when_event_def node_inv_def membership_of_event discovery_of_event case_prod_beta split: poll_result.split)
qed (use assms in \<open>simp_all del: node_call.simps(6,7) add: node_inv_poll_membership node_inv_poll_discovery\<close>,
  simp_all add: node_inv_def membership_of_event discovery_of_event)

text \<open>Discovery and content see the same connections.\<close>

lemma connections_agree_call: "connections_agree sv C \<Longrightarrow> connections_agree (node_call inner env l sv) C"
proof (cases l)
  case (Poll_Membership rd acts)
  assume "connections_agree sv C"
  then show ?thesis
    unfolding Poll_Membership
    by (auto simp: connections_agree_def counts_connections_def when_event_def addresses_of_event case_prod_beta
        handle_membership_event_def Let_def split: poll_result.split membership_event.split)
next
  case (Poll_Identify ev)
  assume "connections_agree sv C"
  then show ?thesis
    by (auto simp: Poll_Identify connections_agree_def counts_connections_def addresses_of_event handle_identify_event_def
        split: identify_event.split)
qed (auto simp: connections_agree_def counts_connections_def when_event_def addresses_of_event addresses_of_content_event
    addresses_of_request discovery_of_event case_prod_beta num_connections_poll split: poll_result.split)

interpretation node_connections: connection_observer "node_swarm_event inner env" "node_call inner env" connections_agree
  for inner env
proof unfold_locales
  show "connections_agree (node_call inner env c sv) C" if "connections_agree sv C" for sv C c
    using that by (rule connections_agree_call)
qed (auto simp: connections_agree_def node_swarm_event_def Content.on_swarm_event_def Let_def
    intro: discovery_connections.first_connection discovery_connections.more_connections discovery_connections.last_connection
      discovery_connections.fewer_connections discovery_connections.other_event)

lemma node_inv_with_orders [simp]: "node_inv (with_service_orders env so po) = node_inv env"
  by (simp add: fun_eq_iff node_inv_def)

interpretation node: invariant_system "node_step inner env" "\<lambda>_. timer_laws (se_discovery env)"
  "\<lambda>(sv, n). node_inv env sv \<and> connections_agree sv {p. n p > 0} \<and> finite {p. n p > 0}" for inner env
proof unfold_locales
  fix s l t
  assume "node_step inner env s l t" and timer: "timer_laws (se_discovery env)"
    and "case s of (sv, n) \<Rightarrow> node_inv env sv \<and> connections_agree sv {p. n p > 0} \<and> finite {p. n p > 0}"
  then obtain so po sv n sv' n' where orders: "hash_order so" "hash_order po" and s: "s = (sv, n)" and t: "t = (sv', n')"
    and step: "network_step (node_swarm_event inner (with_service_orders env so po)) (node_call inner (with_service_orders env so po)) (sv, n) l (sv', n')"
    and inv: "node_inv env sv" "connections_agree sv {p. n p > 0}" "finite {p. n p > 0}"
    by (cases s; cases t) (auto elim: node_step.cases)
  let ?env = "with_service_orders env so po"
  have "timer_laws (se_discovery ?env)" "hash_order (me_subnet_order (se_membership ?env))"
    using timer orders by (simp_all add: with_orders_def)
  note calls = node_inv_call [OF this, unfolded node_inv_with_orders]
  have "node_inv ?env sv'"
    using step inv(1) by cases (auto intro: calls node_inv_swarm_event [of ?env, simplified])
  moreover have "connections_agree sv' {p. n' p > 0} \<and> finite {p. n' p > 0}"
    using node_connections.step_tracks [OF step inv(2,3)] .
  ultimately show "case t of (sv, n) \<Rightarrow> node_inv env sv \<and> connections_agree sv {p. n p > 0} \<and> finite {p. n p > 0}"
    by (simp add: t)
qed

section \<open>Construction\<close>

lemma service_new_inv:
  assumes "service_new env filter_new now config = Inr sv" and "timer_laws (se_discovery env)"
  shows "node_inv env sv" and "connections_agree sv {}" and "sv_queries sv = Map.empty" and "sv_responses sv = []"
proof -
  obtain d m where new: "Discovery.new (se_discovery env) (rs_network config) (rs_discovery config) = Inr d"
    "Membership.new (se_membership env) now (rs_network config) (rs_membership config) = Inr m"
    and sv: "sv_discovery sv = d" "sv_membership sv = m" "sv_content sv = content_new (se_content env) (rs_content config)"
      "sv_queries sv = Map.empty" "sv_responses sv = []"
    using assms(1) by (auto simp: service_new_def behaviour_new_def split: if_splits)
  show "node_inv env sv"
    using new_state(1) [OF new(1) assms(2)] new_inv(1) [OF new(2)] by (simp add: node_inv_def sv)
  show "connections_agree sv {}"
    using new_state(2) [OF new(1) assms(2)] by (simp add: connections_agree_def sv content_new_def)
qed (use assms(1) in \<open>auto simp: service_new_def behaviour_new_def split: if_splits\<close>)

text \<open>Not every bad configuration is reported as an error.\<close>

lemma zero_capacity_panics:
  fixes m :: "('sid, 'peer, 'cid, 'pub, 'key, 'g, 'iv) membership"
  assumes "Discovery.new (se_discovery env) (rs_network config) (rs_discovery config) = Inr d"
    and "Membership.new (se_membership env) now (rs_network config) (rs_membership config) = Inr m"
    and "cn_event_buffer_capacity (rs_connection config) = 0"
  shows "(service_new env filter_new now config ::
      (node_config_error, (('sid, 'peer, 'cid, 'pub, 'key, 'g, 'iv) membership, _, _, _, _, _, _, _, _, _) service) result) =
    Inl (Service_Panicked ''broadcast channel capacity cannot be zero'')"
  using assms by (simp add: service_new_def behaviour_new_def)

text \<open>A node that is created is reachable, and so is whatever its steps lead to.\<close>

lemma node_reachable:
  assumes "service_new env filter_new now config = Inr sv0" and "timer_laws (se_discovery env)"
    and "runs (node_step inner env) (sv0, \<lambda>_. 0) ls (sv, n)"
  shows "node_inv env sv" and "connections_agree sv {p. n p > 0}" and "finite {p. n p > 0}"
proof -
  have "list_all (\<lambda>_. timer_laws (se_discovery env)) ls"
    using assms(2) by (simp add: list_all_iff)
  from node.runs_inv [OF assms(3) this] service_new_inv [OF assms(1,2)]
  show "node_inv env sv" "connections_agree sv {p. n p > 0}" "finite {p. n p > 0}"
    by simp_all
qed

definition sample_inner :: "(u8, unit, unit, unit, unit, (u8 \<times> multiaddr) list) inner_env" where
  "sample_inner =
     \<lparr>ie_gossip_swarm_event = (\<lambda>_ g. g), ie_gossip_handler_event = (\<lambda>_ _ _ g. g), ie_kad_handler_event = (\<lambda>_ _ _ k. k)\<rparr>"

definition sample_resolver_config :: "(u8, u8) resolver_config" where
  "sample_resolver_config =
     \<lparr>rs_network = sample_network,
      rs_discovery = \<lparr>dc_static_addresses = [[Ip4 7, Tcp 1, P2p [1, 2, 3]]], dc_target_connections = 2, dc_enable_kademlia = True\<rparr>,
      rs_membership = sample_config,
      rs_connection = \<lparr>cn_listen_addr = [Ip4 0, Tcp 4001], cn_max_incoming = 30, cn_expected_peer_count = 100,
        cn_max_peers_per_query = 5, cn_event_buffer_capacity = 100\<rparr>,
      rs_content = \<lparr>cc_rate_limit_bytes = 5, cc_rate_limit_period = from_secs 60\<rparr>\<rparr>"

type_synonym sample_node_state =
  "((u8, u8, u8, u8, u8, unit, duration) membership, (u8, (u8 \<times> multiaddr) list, duration) discovery,
    (u8, nat, nat, nat, nat list, u32, multiaddr \<rightharpoonup> nat) content, nat, (nat, u8, u8, nat) query, u8 set, u8,
    (u8, (u8, u8, u8) vote_record) service_event, nat \<times> (u8 resolve_error, unit) result, u8 \<times> nat \<times> nat) service"

definition sample_node :: sample_node_state where
  "sample_node = (case service_new sample_service_env (\<lambda>_. {}) (Timestamp 100) sample_resolver_config of Inr sv \<Rightarrow> sv)"

lemma sample_node_new:
  "service_new sample_service_env (\<lambda>_. {}) (Timestamp 100) sample_resolver_config = Inr sample_node"
proof -
  have "Membership.new (se_membership sample_service_env) (Timestamp 100) (rs_network sample_resolver_config)
      (rs_membership sample_resolver_config) = Inr sample_state"
    by (simp add: sample_service_env_def sample_resolver_config_def sample_new)
  moreover have "\<exists>d. Discovery.new (se_discovery sample_service_env) (rs_network sample_resolver_config)
      (rs_discovery sample_resolver_config) = Inr d"
    by (simp add: sample_service_env_def sample_resolver_config_def Discovery.new_def sample_discovery_env_def
        parse_static_def sample_network_def Let_def)
  moreover have "cn_event_buffer_capacity (rs_connection sample_resolver_config) \<noteq> 0"
    by (simp add: sample_resolver_config_def)
  ultimately show ?thesis
    by (auto simp: sample_node_def service_new_def behaviour_new_def)
qed

lemma sample_service_timer: "timer_laws (se_discovery sample_service_env)"
  by (simp add: sample_service_env_def sample_timer_laws)

lemma sample_node_connects:
  "runs (node_step sample_inner sample_service_env) (sample_node, \<lambda>_. 0) [Swarm (ConnectionEstablished 4 ep 0)]
     (node_swarm_event sample_inner sample_service_env (ConnectionEstablished 4 ep 0) sample_node, (\<lambda>_. 0)(4 := Suc 0))"
proof (rule runs_one, rule node_step.intros)
  have env: "with_service_orders sample_service_env sorted_list_of_set sorted_list_of_set = sample_service_env"
    by (simp add: with_service_orders_def with_orders_def sample_service_env_def sample_env_def)
  show "network_step
      (node_swarm_event sample_inner (with_service_orders sample_service_env sorted_list_of_set sorted_list_of_set))
      (node_call sample_inner (with_service_orders sample_service_env sorted_list_of_set sorted_list_of_set))
      (sample_node, \<lambda>_. 0) (Swarm (ConnectionEstablished 4 ep 0))
      (node_swarm_event sample_inner sample_service_env (ConnectionEstablished 4 ep 0) sample_node, (\<lambda>_. 0)(4 := Suc 0))"
    unfolding env by (rule established [where n = "\<lambda>_. 0"])
qed (simp_all add: hash_order_sorted_list)

section \<open>Properties\<close>



end
