(* ===== verification/Membership_Metrics.thy ===== *)
theory Membership_Metrics
  imports Membership
begin

text \<open>
  What the gauges of the membership behaviour show: the number of known providers and the number of
  routable peers, compared with the provider cache that they are meant to describe.
\<close>

section \<open>Providers\<close>

text \<open>
  The gauge of the known providers, and the number of providers that the cache has a record of.
\<close>

definition provider_gauge where
  "provider_gauge st = mx_value (m_metrics st) MEMBERSHIP_PROVIDER_PEERS"

definition known_providers where
  "known_providers st = card (dom (peer_timestamps (m_provider_cache st)))"

text \<open>How much more than the known providers the gauge shows.\<close>

definition excess where
  "excess st = provider_gauge st - of_nat (known_providers st)"

text \<open>
  Steps of the membership behaviour, with the number of times that a known provider was dropped
  because discovery reported it as removed.
\<close>

fun dropped where
  "dropped (Mark_Unroutable p) st = (if has_timestamp (m_provider_cache st) p then 1 else 0)"
| "dropped l st = (0 :: nat)"

inductive counting_step for env where
  "membership_step env st l st' \<Longrightarrow> counting_step env (st, k) l (st', k + dropped l st)"

lemma excess_upd [simp]:
  "excess (st\<lparr>m_inner := g\<rparr>) = excess st" "excess (st\<lparr>m_outbox := evs\<rparr>) = excess st"
  "excess (st\<lparr>m_subnet_ids := ids\<rparr>) = excess st" "excess (st\<lparr>m_publish_interval := iv\<rparr>) = excess st"
  "excess (push_event ev st) = excess st" "excess (publish_for_new_peer env now st) = excess st"
  "mt \<noteq> MEMBERSHIP_PROVIDER_PEERS \<Longrightarrow> excess (st\<lparr>m_metrics := inc mt mx\<rparr>) = excess (st\<lparr>m_metrics := mx\<rparr>)"
  by (simp_all add: excess_def provider_gauge_def known_providers_def push_event_def publish_for_new_peer_def)

lemma excess_publish [simp]:
  "excess (snd (publish_membership env clk st)) = excess st"
  "excess (snd (count_publish (inner_op f) st)) = excess st"
  by (auto simp: excess_def provider_gauge_def known_providers_def publish_membership_def count_publish_def
      inner_op_def Let_def split: sum.splits prod.splits)

lemma excess_subscribe:
  "excess (snd (voting_subscribe env s st)) = excess st"
  "excess (snd (voting_unsubscribe env s st)) = excess st"
  "excess (snd (pin_subnet env s st)) = excess st"
  "excess (snd (unpin_subnet env s st)) = excess st"
  by (simp_all add: excess_def provider_gauge_def known_providers_def subscription_cases Provider_Cache.pin_subnet_def
      Provider_Cache.unpin_subnet_def split: sum.splits prod.splits)

lemma excess_provided:
  "excess (snd (set_provided_subnets env clk ids st)) = excess st"
  "excess (snd (add_provided_subnet env clk s st)) = excess st"
  "excess (snd (remove_provided_subnet env clk s st)) = excess st"
proof -
  note intros = bind_op_keeps [where P = "\<lambda>u. excess u = excess st"] each_op_keeps [where P = "\<lambda>u. excess u = excess st"]
  show "excess (snd (set_provided_subnets env clk ids st)) = excess st"
    unfolding set_provided_subnets_def Let_def by (auto intro!: intros simp: excess_subscribe)
  show "excess (snd (add_provided_subnet env clk s st)) = excess st"
    unfolding add_provided_subnet_def by (auto intro!: intros simp: excess_subscribe)
  show "excess (snd (remove_provided_subnet env clk s st)) = excess st"
    unfolding remove_provided_subnet_def by (auto intro!: intros simp: excess_subscribe)
qed

text \<open>A record adds its peer to the known providers exactly if it is reported as new.\<close>

lemma timestamps_add_provider:
  assumes "hash_order ord" and "cache_inv c" and "add_provider ord c r = (d, c')"
  shows "dom (peer_timestamps c') =
      (case d of None \<Rightarrow> dom (peer_timestamps c) | Some _ \<Rightarrow> insert (pr_peer_id r) (dom (peer_timestamps c)))"
    and "d = Some delta \<Longrightarrow> pd_is_new delta \<longleftrightarrow> pr_peer_id r \<notin> dom (peer_timestamps c)"
  using assms(3) by (auto simp: add_provider_def has_timestamp_def prune_subnets_def Let_def split: if_splits prod.splits)

lemma excess_handle_provider_record:
  assumes "hash_order (me_subnet_order env)" and "cache_inv (m_provider_cache st)"
  shows "excess (handle_provider_record env now r st) = excess st"
proof -
  obtain d c where add: "add_provider (me_subnet_order env) (m_provider_cache st) r = (d, c)"
    by fastforce
  note dom = timestamps_add_provider [OF assms add]
  show ?thesis
  proof (cases d)
    case (Some delta)
    with dom add finite_timestamps [OF assms(2)] show ?thesis
      by (auto simp: handle_provider_record_def Let_def excess_def provider_gauge_def known_providers_def card_insert_if
          push_event_def publish_for_new_peer_def)
  qed (use dom add in \<open>simp add: handle_provider_record_def excess_def provider_gauge_def known_providers_def push_event_def\<close>)
qed

lemma excess_handle_gossip_event:
  assumes "hash_order (me_subnet_order env)" and "cache_inv (m_provider_cache st)"
  shows "excess (handle_gossip_event env now ev st) = excess st"
  by (cases ev) (simp_all add: handle_gossip_event_def handle_subscriber_def handle_message_def handle_vote_record_def
      handle_preemptive_data_def excess_handle_provider_record [OF assms] split: sum.split option.split)

lemma excess_poll_gossip:
  assumes "hash_order (me_subnet_order env)"
  shows "cache_inv (m_provider_cache st) \<Longrightarrow> excess (snd (poll_gossip env clk acts st)) = excess st"
  using assms by (induction env clk acts st rule: poll_gossip.induct)
    (simp_all add: cache_inv_handle_gossip_event excess_handle_gossip_event)

lemma excess_prune:
  assumes "hash_order (me_peer_order env)" and "cache_inv (m_provider_cache st)"
  shows "excess (prune_membership env now st) = excess st"
proof -
  let ?c = "m_provider_cache st" and ?cutoff = "sub_duration now (m_max_provider_age st)"
  let ?ps = "fst (prune_providers (me_peer_order env) ?cutoff ?c)"
  have fin: "finite (dom (peer_timestamps ?c))"
    using assms(2) by (rule finite_timestamps)
  have "distinct ?ps" and sub: "set ?ps \<subseteq> dom (peer_timestamps ?c)"
    using hash_order_set [OF assms(1) fin] hash_order_distinct [OF assms(1) fin]
    by (auto simp: prune_providers_def Let_def)
  then have len: "card (set ?ps) = length ?ps"
    by (simp add: distinct_card)
  have "known_providers (prune_membership env now st) = card (dom (peer_timestamps ?c) - set ?ps)"
    by (simp add: known_providers_def m_provider_cache_prune prune_providers_def Let_def Diff_eq Int_commute)
  also have "\<dots> = known_providers st - length ?ps"
    unfolding known_providers_def len [symmetric] by (rule card_Diff_subset [OF finite_set sub])
  finally have "known_providers (prune_membership env now st) = known_providers st - length ?ps" .
  moreover have "length ?ps \<le> known_providers st"
    unfolding known_providers_def len [symmetric] by (rule card_mono [OF fin sub])
  moreover have "provider_gauge (prune_membership env now st) = provider_gauge st - of_nat (length ?ps)"
    by (simp add: prune_membership_def provider_gauge_def split: prod.split)
  ultimately show ?thesis
    by (simp add: excess_def of_nat_diff)
qed

lemma excess_poll:
  assumes "hash_order (me_subnet_order env)" and "hash_order (me_peer_order env)" and "cache_inv (m_provider_cache st)"
  shows "excess (snd (poll env (clk, acts) st)) = excess st"
proof -
  let ?tick = "\<lambda>now iv. prune_membership env now (snd (publish_membership env clk (st\<lparr>m_publish_interval := iv\<rparr>)))"
  have "excess (?tick now iv) = excess st" "cache_inv (m_provider_cache (?tick now iv))" for now iv
    using assms(3) excess_prune [OF assms(2), of "snd (publish_membership env clk (st\<lparr>m_publish_interval := iv\<rparr>))" now]
    by (simp_all add: m_provider_cache_prune cache_inv_prune_providers)
  then show ?thesis
    using assms(3) by (simp add: poll_def pop_outbox_def Let_def excess_poll_gossip [OF assms(1)] split: list.split prod.split)
qed

lemma excess_unroutable:
  assumes "cache_inv (m_provider_cache st)"
  shows "excess (set_unroutable p st) = excess st + of_nat (dropped (Mark_Unroutable p) st)"
proof -
  have fin: "finite (dom (peer_timestamps (m_provider_cache st)))"
    using assms by (rule finite_timestamps)
  show ?thesis
  proof (cases "p \<in> dom (peer_timestamps (m_provider_cache st))")
    case True
    then have "known_providers st > 0" and "known_providers (set_unroutable p st) = known_providers st - 1"
      using fin by (auto simp: known_providers_def card_gt_0_iff)
    with True show ?thesis
      by (auto simp: excess_def provider_gauge_def set_unroutable_def push_event_def has_timestamp_def of_nat_diff)
  next
    case False
    then have "(peer_timestamps (m_provider_cache st))(p := None) = peer_timestamps (m_provider_cache st)"
      by (auto simp: domIff fun_upd_idem)
    with False show ?thesis
      by (simp add: excess_def provider_gauge_def known_providers_def set_unroutable_def push_event_def has_timestamp_def
          domIff)
  qed
qed

lemma excess_apply:
  assumes "hash_order (me_subnet_order env)" and "hash_order (me_peer_order env)" and "cache_inv (m_provider_cache st)"
  shows "excess (membership_apply env clk l st) = excess st + of_nat (dropped l st)"
proof (cases l)
  case (Mark_Routable p)
  then show ?thesis
    by (simp add: set_routable_def Let_def excess_def provider_gauge_def known_providers_def publish_for_new_peer_def
        Provider_Cache.set_routable_def)
next
  case (Mark_Unroutable p)
  then show ?thesis
    using excess_unroutable [OF assms(3)] by simp
qed (use excess_poll [OF assms] in \<open>simp_all add: excess_provided excess_subscribe publish_vote_def publish_preemptive_def Let_def\<close>)

interpretation providers_counted: invariant_system "counting_step env" "\<lambda>_. True"
  "\<lambda>(st, k). membership_inv env st \<and> excess st = of_nat k" for env
proof unfold_locales
  fix s l t
  assume "counting_step env s l t" and "case s of (st, k) \<Rightarrow> membership_inv env st \<and> excess st = of_nat k"
  then obtain st k st' where s: "s = (st, k)" and t: "t = (st', k + dropped l st)"
    and step: "membership_step env st l st'" and inv: "membership_inv env st" "excess st = of_nat k"
    by (cases s) (auto elim: counting_step.cases)
  from inv(1) have "cache_inv (m_provider_cache st)"
    by (simp add: membership_inv_def)
  with step have "excess st' = excess st + of_nat (dropped l st)"
    by cases (simp add: excess_apply)
  moreover have "membership_inv env st'"
    using membership.step_inv [OF step TrueI inv(1)] .
  ultimately show "case t of (st, k) \<Rightarrow> membership_inv env st \<and> excess st = of_nat k"
    using inv(2) by (simp add: t)
qed

lemma new_excess: "new env now nc mc = Inr st \<Longrightarrow> excess st = 0"
proof -
  assume "new env now nc mc = Inr st"
  then obtain topic g where
    "each_op (pin_subnet env) (mc_static_subnets mc) (initial_state env now nc mc topic g) = (Inr (), st)"
    by (rule new_cases)
  then show ?thesis
    by (rule each_op_result_keeps)
      (simp_all add: excess_subscribe, simp add: initial_state_def excess_def provider_gauge_def known_providers_def cache_new_def)
qed

section \<open>Routable peers\<close>

text \<open>
  The gauge of the routable peers is right after a peer became routable; when a peer stops being
  routable it is not updated.
\<close>

lemma routable_gauge_set:
  "mx_value (m_metrics (set_routable env now p st)) MEMBERSHIP_ROUTABLE_PEERS =
     of_nat (num_routable (m_provider_cache (set_routable env now p st)))"
  by (simp add: set_routable_def Let_def publish_for_new_peer_def)

lemma routable_gauge_stale:
  assumes "cache_inv (m_provider_cache st)" and "p \<in> routable_peers (m_provider_cache st)"
    and "mx_value (m_metrics st) MEMBERSHIP_ROUTABLE_PEERS = of_nat (num_routable (m_provider_cache st))"
  shows "mx_value (m_metrics (set_unroutable p st)) MEMBERSHIP_ROUTABLE_PEERS =
    of_nat (num_routable (m_provider_cache (set_unroutable p st))) + 1"
proof -
  have "finite (routable_peers (m_provider_cache st))"
    using assms(1) by (simp add: cache_inv_def)
  with assms(2) have "card (routable_peers (m_provider_cache st)) = Suc (card (routable_peers (m_provider_cache st) - {p}))"
    by (metis card_Suc_Diff1)
  with assms(3) show ?thesis
    by (simp add: set_unroutable_def push_event_def num_routable_def Provider_Cache.set_unroutable_def)
qed

text \<open>
  An instance: a peer becomes routable, announces a subnet, and is then reported as removed by
  discovery.
\<close>

type_synonym sample_label = "(u8, u8, u8, u8, bytes, unit) membership_label"

definition sample_arrival :: "sample_label list" where
  "sample_arrival =
     [Mark_Routable 9,
      Poll [Gossip_Event (Message \<lparr>gm_topic = ''i/ipc/membership/testnet'',
        gm_data = 9 # stuff (as_bytes ''/ipc/provider-record'') @ [9, 9, 3]\<rparr>)]]"

definition sample_announced :: "(u8, u8, u8, u8, u8, unit, duration) membership" where
  "sample_announced = fold (membership_apply sample_env (\<lambda>_. Timestamp 120)) sample_arrival sample_state"

lemma provider_cache_handle_provider_record:
  "m_provider_cache (handle_provider_record env now r st) =
     snd (add_provider (me_subnet_order env) (m_provider_cache st) r)"
  by (simp add: handle_provider_record_def Let_def split: prod.split option.split)

lemma timestamps_fresh:
  assumes "pr_peer_id r \<in> routable_peers c" and "known_timestamp c (pr_peer_id r) < pr_timestamp r"
  shows "peer_timestamps (snd (add_provider ord c r)) = (peer_timestamps c)(pr_peer_id r \<mapsto> pr_timestamp r)"
  using assms by (simp add: add_provider_def is_routable_def prune_subnets_def Let_def split: prod.split)

lemma sample_record:
  "from_bytes plain_envelopes (provider_record_kind (\<lambda>k. k)) small_record_codec
     (9 # stuff (as_bytes ''/ipc/provider-record'') @ [9, 9, 3]) =
   Inr \<lparr>sr_record = \<lparr>pr_peer_id = 9, pr_subnet_ids = [3], pr_timestamp = Timestamp 9\<rparr>,
        sr_envelope = 9 # stuff (as_bytes ''/ipc/provider-record'') @ [9, 9, 3]\<rparr>"
  by (simp add: from_bytes_def from_signed_envelope_def plain_envelopes_def small_record_codec_def provider_record_kind_def)

lemma sample_announced_timestamps: "peer_timestamps (m_provider_cache sample_announced) = [9 \<mapsto> Timestamp 9]"
proof -
  have "m_membership_topic sample_state = Ident_Topic ''/ipc/membership/testnet''"
    "m_provider_cache sample_state = Provider_Cache.pin_subnet 3 (cache_new 2 [])"
    by (simp_all add: sample_state_def new_def sample_env_def sample_network_def Let_def sample_config_def
      pin_subnet_cases bind_op_def initial_state_def PUBSUB_MEMBERSHIP_def)
  then have "m_provider_cache sample_announced = snd (add_provider sorted_list_of_set
      (Provider_Cache.set_routable 9 (Provider_Cache.pin_subnet 3 (cache_new 2 [])))
      \<lparr>pr_peer_id = 9, pr_subnet_ids = [3], pr_timestamp = Timestamp 9\<rparr>)"
    using sample_record
    by (simp add: sample_announced_def sample_arrival_def poll_def pop_outbox_def set_routable_def Let_def sample_fields
        handle_gossip_event_def handle_message_def provider_cache_handle_provider_record)
     (simp add: sample_env_def provider_cache_handle_provider_record)
  then show ?thesis
    by (simp add: timestamps_fresh Provider_Cache.set_routable_def Provider_Cache.pin_subnet_def cache_new_def
        known_timestamp_def less_timestamp_def bot_timestamp_def)
qed

lemma sample_run:
  "runs (counting_step sample_env) (sample_state, 0) (sample_arrival @ [Mark_Unroutable 9]) (set_unroutable 9 sample_announced, 1)"
proof -
  have step: "counting_step sample_env (st, k) l (membership_apply sample_env (\<lambda>_. Timestamp 120) l st, k + dropped l st)"
    for st k and l :: sample_label
    using membership_step.intros [of sorted_list_of_set sorted_list_of_set sample_env st l "\<lambda>_. Timestamp 120"]
    by (intro counting_step.intros) (simp add: hash_order_sorted_list with_orders_def sample_env_def)
  have "runs (counting_step sample_env) (sample_state, 0) sample_arrival (sample_announced, 0)"
    using runs_Cons [of "counting_step sample_env", OF step [of sample_state 0 "sample_arrival ! 0"]
        runs_one [of "counting_step sample_env", OF step [of _ _ "sample_arrival ! 1"]]]
    by (simp add: sample_announced_def sample_arrival_def)
  from runs_snoc [of "counting_step sample_env", OF this step, of "Mark_Unroutable 9"] show ?thesis
    by (simp add: has_timestamp_def sample_announced_timestamps)
qed

section \<open>Properties\<close>

text \<open>
  C19. What the gauge of the known providers shows. In every state that an agent can reach, it is the
  number of peers that the cache has a record of plus the number of times that a known provider was
  dropped because discovery reported it as removed. So the gauge is exact as long as providers are
  only dropped because their records became old; a provider that discovery removes is counted for
  ever, and once more when it comes back.
\<close>

theorem provider_gauge_exact:
  assumes "new env now nc mc = Inr st0" and "runs (counting_step env) (st0, 0) ls (st, k)"
  shows "mx_value (m_metrics st) MEMBERSHIP_PROVIDER_PEERS =
    of_nat (card (dom (peer_timestamps (m_provider_cache st))) + k)"
proof -
  have "excess st0 = 0"
    using new_excess [OF assms(1)] .
  with providers_counted.runs_inv [OF assms(2)] new_inv(1) [OF assms(1)] have "excess st = of_nat k"
    by (simp add: list_all_iff)
  then show ?thesis
    by (simp add: excess_def provider_gauge_def known_providers_def algebra_simps)
qed

theorem provider_gauge_exact_witness:
  "mx_value (m_metrics (set_unroutable 9 sample_announced)) MEMBERSHIP_PROVIDER_PEERS = 1 \<and>
   peer_timestamps (m_provider_cache (set_unroutable 9 sample_announced)) = Map.empty"
  using provider_gauge_exact [OF sample_new sample_run] by (simp add: sample_announced_timestamps)

end
