(* ===== verification/Resolver_Metrics.thy ===== *)
theory Resolver_Metrics
  imports Resolver_Node Membership_Metrics
begin

text \<open>
  What the metrics of \<^verbatim>\<open>src/ipld/resolver/src/stats.rs\<close> show of a running node, and whether they are
  ever published: the values that the behaviours and the service maintain are compared with the states
  they are meant to describe.
\<close>

section \<open>Registration\<close>

definition service_register_metrics where
  "service_register_metrics inner_register_metrics registry sv =
     bind_op (content_register_metrics inner_register_metrics (sv_content sv)) (\<lambda>_.
     bind_op (register_metrics registry) (\<lambda>_. lift_result (Inr ())))"

section \<open>Answers\<close>

text \<open>The answers of a service, by their kind.\<close>

fun is_no_peers where
  "is_no_peers (Inl (NoKnownPeers sid)) = True"
| "is_no_peers _ = False"

fun is_failed where
  "is_failed (Inl (ResolveFailed e)) = True"
| "is_failed _ = False"

definition answers where
  "answers kind sv = length (filter (\<lambda>(ch, res). kind res) (sv_responses sv))"

definition answers_counted where
  "answers_counted sv \<longleftrightarrow>
     mx_value (sv_metrics sv) CONTENT_RESOLVE_SUCCESS = of_nat (answers (\<lambda>r. \<not> isl r) sv) \<and>
     mx_value (sv_metrics sv) CONTENT_RESOLVE_NO_PEERS = of_nat (answers is_no_peers sv) \<and>
     mx_value (sv_metrics sv) CONTENT_RESOLVE_FAILURE = of_nat (answers is_failed sv)"

lemma answers_counted_success:
  "answers_counted sv \<Longrightarrow> answers_counted (send_resolve_result ch (Inr ()) (count_metric CONTENT_RESOLVE_SUCCESS sv))"
  by (simp add: answers_counted_def answers_def send_resolve_result_def)

lemma answers_counted_no_peers:
  "answers_counted sv \<Longrightarrow> answers_counted (send_resolve_result ch (Inl (NoKnownPeers sid))
     (count_metric CONTENT_RESOLVE_NO_PEERS (measure_metric mt v sv)))"
  by (simp add: answers_counted_def answers_def send_resolve_result_def)

lemma answers_counted_failed:
  "answers_counted sv \<Longrightarrow> answers_counted (send_resolve_result ch (Inl (ResolveFailed e))
     (count_metric CONTENT_RESOLVE_FAILURE sv))"
  by (simp add: answers_counted_def answers_def send_resolve_result_def)

lemmas answers_counted_send = answers_counted_success answers_counted_no_peers answers_counted_failed

text \<open>What leaves the answers and their counters alone.\<close>

definition same_answers where
  "same_answers sv sv' \<longleftrightarrow> sv_responses sv' = sv_responses sv \<and>
     (\<forall>mt \<in> {CONTENT_RESOLVE_SUCCESS, CONTENT_RESOLVE_NO_PEERS, CONTENT_RESOLVE_FAILURE}.
        mx_value (sv_metrics sv') mt = mx_value (sv_metrics sv) mt)"

lemma answers_counted_same: "same_answers sv sv' \<Longrightarrow> answers_counted sv \<Longrightarrow> answers_counted sv'"
  by (simp add: same_answers_def answers_counted_def answers_def)

lemma answers_counted_upd [simp]:
  "answers_counted (sv\<lparr>sv_queries := qs\<rparr>) \<longleftrightarrow> answers_counted sv"
  "answers_counted (sv\<lparr>sv_content := c\<rparr>) \<longleftrightarrow> answers_counted sv"
  "answers_counted (sv\<lparr>sv_discovery := d\<rparr>) \<longleftrightarrow> answers_counted sv"
  "answers_counted (sv\<lparr>sv_membership := m\<rparr>) \<longleftrightarrow> answers_counted sv"
  "answers_counted (measure_metric mt v sv) \<longleftrightarrow> answers_counted sv"
  "answers_counted (count_metric CONTENT_RESOLVE_FALLBACK sv) \<longleftrightarrow> answers_counted sv"
  by (simp_all add: answers_counted_def answers_def)

lemma answers_counted_resolve:
  "content_resolve env cid peers sv = (q, sv') \<Longrightarrow> answers_counted sv' \<longleftrightarrow> answers_counted sv"
  by (auto simp: content_resolve_def Let_def split: prod.splits)

lemma answers_counted_start_query:
  "answers_counted sv \<Longrightarrow> answers_counted (start_query env rd cid sid ch sv)"
  by (auto simp: start_query_def Let_def answers_counted_send answers_counted_resolve split: prod.split)

lemma answers_counted_content_event:
  "answers_counted sv \<Longrightarrow> answers_counted (handle_content_event env ev sv)"
proof (cases ev)
  case (BitswapForward p rx tx)
  then show "answers_counted sv \<Longrightarrow> answers_counted (handle_content_event env ev sv)"
    by (simp add: handle_content_event_def answers_counted_def answers_def)
next
  case (Complete q result)
  then show "answers_counted sv \<Longrightarrow> answers_counted (handle_content_event env ev sv)"
    by (auto simp: handle_content_event_def resolve_query_def Let_def answers_counted_send answers_counted_resolve
        split: option.split sum.split prod.split)
qed

lemma same_answers_events:
  "same_answers sv (handle_ping_event p result sv)"
  "same_answers sv (handle_identify_event env ie sv)"
  "same_answers sv (handle_discovery_event env rd de sv)"
  "same_answers sv (handle_membership_event env me sv)"
  by (auto simp: same_answers_def handle_ping_event_def handle_identify_event_def handle_discovery_event_def
      handle_membership_event_def Let_def
      split: ping_result.split identify_event.split discovery_event.split membership_event.split prod.split)

lemmas answers_counted_events = answers_counted_same [OF same_answers_events(1)]
  answers_counted_same [OF same_answers_events(2)] answers_counted_same [OF same_answers_events(3)]
  answers_counted_same [OF same_answers_events(4)]

lemma answers_counted_request: "answers_counted sv \<Longrightarrow> answers_counted (handle_request env rd req sv)"
  by (cases req) (simp_all add: handle_request_def on_membership_def Let_def answers_counted_start_query)

lemma answers_counted_run: "answers_counted sv \<Longrightarrow> answers_counted (run env ins sv)"
proof (induction env ins sv rule: run.induct)
  case (2 env rd adv ev ins sv)
  then show ?case
    by (cases ev) (simp_all add: handle_behaviour_event_def answers_counted_events answers_counted_content_event advance_def
        split: prod.split)
qed (simp_all add: answers_counted_request advance_def split: prod.split)

lemma answers_counted_node_call: "answers_counted sv \<Longrightarrow> answers_counted (node_call inner env l sv)"
  by (cases l) (simp_all add: answers_counted_events answers_counted_request answers_counted_content_event when_event_def
      case_prod_beta split: poll_result.split)

section \<open>Running queries\<close>

text \<open>
  What the gauge of the running queries relies on: Bitswap gives out fresh identifiers, forgets none of
  them when it is told about connections and messages, and only completes queries that are running.
\<close>

definition bitswap_laws where
  "bitswap_laws env issued \<longleftrightarrow>
     query_ids_fresh env issued \<and>
     (\<forall>ev b. issued (ce_inner_swarm_event (se_content env) ev b) = issued b) \<and>
     (\<forall>p conn ev b. issued (ce_inner_handler_event (se_content env) p conn ev b) = issued b)"

definition completes_running where
  "completes_running sv l \<longleftrightarrow>
     (\<forall>acts q r. l = Call (Poll_Content acts) \<and> Bitswap_Complete q r \<in> set acts \<longrightarrow> q \<in> dom (sv_queries sv))"

inductive metered_step for inner env where
  "node_step inner env (sv, n) l t \<Longrightarrow> completes_running sv l \<Longrightarrow> metered_step inner env (sv, n) l t"

definition running_gauge where
  "running_gauge sv = mx_value (c_metrics (sv_content sv)) CONTENT_RESOLVE_RUNNING"

definition only_forwards where
  "only_forwards sv \<longleftrightarrow> (\<forall>q r. Complete q r \<notin> set (c_outbox (sv_content sv)))"

definition running_inv where
  "running_inv issued sv \<longleftrightarrow>
     queries_inv issued sv \<and> only_forwards sv \<and> running_gauge sv = of_nat (card (dom (sv_queries sv)))"

text \<open>The parts of the state that the invariant looks at.\<close>

definition same_running where
  "same_running issued sv sv' \<longleftrightarrow>
     sv_queries sv' = sv_queries sv \<and> issued (c_inner (sv_content sv')) = issued (c_inner (sv_content sv)) \<and>
     (only_forwards sv \<longrightarrow> only_forwards sv') \<and> running_gauge sv' = running_gauge sv"

lemma running_inv_same: "same_running issued sv sv' \<Longrightarrow> running_inv issued sv \<Longrightarrow> running_inv issued sv'"
  by (simp add: same_running_def running_inv_def queries_inv_def)

lemma same_running_content:
  "sv_queries sv' = sv_queries sv \<Longrightarrow> sv_content sv' = sv_content sv \<Longrightarrow> same_running issued sv sv'"
  by (simp add: same_running_def only_forwards_def running_gauge_def)

text \<open>Starting an attempt adds a query and counts it.\<close>

lemma running_insert_query:
  assumes "query_ids_fresh env issued" and "content_resolve env cid peers sv = (q, sv')"
    and "queries_inv issued sv" and "only_forwards sv"
  shows "queries_inv issued (sv'\<lparr>sv_queries := (sv_queries sv')(q \<mapsto> query)\<rparr>)"
    and "only_forwards (sv'\<lparr>sv_queries := (sv_queries sv')(q \<mapsto> query)\<rparr>)"
    and "running_gauge (sv'\<lparr>sv_queries := (sv_queries sv')(q \<mapsto> query)\<rparr>) = running_gauge sv + 1"
    and "card (dom ((sv_queries sv')(q \<mapsto> query))) = Suc (card (dom (sv_queries sv)))"
proof -
  obtain b where b: "ce_sync (se_content env) cid peers (c_inner (sv_content sv)) = (q, b)"
    and sv': "sv' = sv\<lparr>sv_content := (sv_content sv)\<lparr>c_inner := b,
        c_metrics := inc CONTENT_RESOLVE_RUNNING (c_metrics (sv_content sv))\<rparr>\<rparr>"
    using assms(2) by (auto simp: content_resolve_def resolve_def Let_def split: prod.splits)
  have q: "q \<notin> issued (c_inner (sv_content sv))" "issued b = insert q (issued (c_inner (sv_content sv)))"
    using assms(1) b unfolding query_ids_fresh_def by blast+
  then have "q \<notin> dom (sv_queries sv)" and "finite (dom (sv_queries sv))"
    using assms(3) by (auto simp: queries_inv_def)
  then show "card (dom ((sv_queries sv')(q \<mapsto> query))) = Suc (card (dom (sv_queries sv)))"
    by (simp add: sv')
  show "queries_inv issued (sv'\<lparr>sv_queries := (sv_queries sv')(q \<mapsto> query)\<rparr>)"
    using assms(3) q(2) by (auto simp: queries_inv_def sv')
  show "only_forwards (sv'\<lparr>sv_queries := (sv_queries sv')(q \<mapsto> query)\<rparr>)"
    using assms(4) by (simp add: only_forwards_def sv')
  show "running_gauge (sv'\<lparr>sv_queries := (sv_queries sv')(q \<mapsto> query)\<rparr>) = running_gauge sv + 1"
    by (simp add: running_gauge_def sv')
qed

lemma running_inv_start_query:
  assumes "query_ids_fresh env issued" and "running_inv issued sv"
  shows "running_inv issued (start_query env rd cid sid ch sv)"
proof -
  have measured: "same_running issued sv (measure_metric m1 k (measure_metric m2 l sv))"
    "same_running issued sv (send_resolve_result ch res (count_metric m1 (measure_metric m2 l sv)))" for m1 k m2 l res
    by (rule same_running_content; simp add: send_resolve_result_def)+
  have "running_inv issued (sv'\<lparr>sv_queries := (sv_queries sv')(q \<mapsto> query)\<rparr>)"
    if "content_resolve env cid peers (measure_metric m1 k (measure_metric m2 l sv)) = (q, sv')"
    for peers m1 k m2 l q sv' query
    using running_insert_query [OF assms(1) that, of query] running_inv_same [OF measured(1) assms(2), of m1 k m2 l]
    by (simp add: running_inv_def)
  then show ?thesis
    using running_inv_same [OF measured(2) assms(2)]
    by (auto simp: start_query_def Let_def split: prod.splits)
qed

text \<open>A completed attempt is no longer counted; if it failed, the next attempt may take its place.\<close>

lemma running_inv_complete:
  assumes "query_ids_fresh env issued" and "queries_inv issued sv" and "only_forwards sv"
    and "running_gauge sv = of_nat (card (dom (sv_queries sv))) - 1" and "q \<in> dom (sv_queries sv)"
  shows "running_inv issued (handle_content_event env (Complete q r) sv)"
proof -
  from assms(5) obtain query where query: "sv_queries sv q = Some query"
    by blast
  let ?sv = "sv\<lparr>sv_queries := (sv_queries sv)(q := None)\<rparr>"
  have fin: "finite (dom (sv_queries sv))"
    using assms(2) by (simp add: queries_inv_def)
  then have "card (dom (sv_queries sv)) = Suc (card (dom (sv_queries sv) - {q}))"
    using assms(5) by (metis card_Suc_Diff1)
  then have removed: "running_inv issued ?sv"
    using assms(2-4) by (auto simp: running_inv_def queries_inv_def only_forwards_def running_gauge_def)
  have counted: "same_running issued ?sv (count_metric mt ?sv)"
    "same_running issued ?sv (send_resolve_result ch res (count_metric mt ?sv))" for mt ch res
    by (rule same_running_content; simp add: send_resolve_result_def)+
  have "running_inv issued (sv'\<lparr>sv_queries := (sv_queries sv')(q' \<mapsto> query')\<rparr>)"
    if "content_resolve env cid peers (count_metric mt ?sv) = (q', sv')" for cid peers mt q' sv' query'
    using running_insert_query [OF assms(1) that, of query'] running_inv_same [OF counted(1) removed, of mt]
    by (simp add: running_inv_def)
  then show ?thesis
    using running_inv_same [OF counted(2) removed]
    by (auto simp: handle_content_event_def query resolve_query_def Let_def split: prod.splits sum.splits)
qed

lemma poll_bitswap_cases:
  fixes c :: "('peer, 'q, 'rx, 'tx, 'b, 'lim, 'tc, 'z) content_scheme"
    and res :: "(('peer, 'q, 'rx, 'tx) content_event, 'act) poll_result"
  assumes "poll_bitswap acts c = (res, c')"
  obtains (complete) q r where "Bitswap_Complete q r \<in> set acts" and "res = Generate_Event (Complete q r)"
    and "c' = c\<lparr>c_metrics := dec CONTENT_RESOLVE_RUNNING (c_metrics c)\<rparr>"
  | (other) "c' = c" and "\<forall>ev. res \<noteq> Generate_Event ev"
  using assms by (induction acts c rule: poll_bitswap.induct) auto

lemma running_inv_poll_content:
  assumes "query_ids_fresh env issued" and "running_inv issued sv" and "completes_running sv (Call (Poll_Content acts))"
  shows "running_inv issued (node_call inner env (Poll_Content acts) sv)"
proof (cases "c_outbox (sv_content sv)")
  case Nil
  obtain res c' where poll: "content_poll acts (sv_content sv) = (res, c')"
    by fastforce
  with Nil have "poll_bitswap acts (sv_content sv) = (res, c')"
    by (simp add: content_poll_def pop_outbox_def)
  then show ?thesis
  proof (cases rule: poll_bitswap_cases)
    case (complete q r)
    let ?sv = "sv\<lparr>sv_content := (sv_content sv)\<lparr>c_metrics := dec CONTENT_RESOLVE_RUNNING (c_metrics (sv_content sv))\<rparr>\<rparr>"
    have "q \<in> dom (sv_queries ?sv)"
      using assms(3) complete(1) by (auto simp: completes_running_def)
    moreover have "queries_inv issued ?sv" "only_forwards ?sv" "running_gauge ?sv = of_nat (card (dom (sv_queries ?sv))) - 1"
      using assms(2) by (simp_all add: running_inv_def queries_inv_def only_forwards_def running_gauge_def)
    ultimately have "running_inv issued (handle_content_event env (Complete q r) ?sv)"
      by (intro running_inv_complete [OF assms(1)])
    with poll complete show ?thesis
      by (simp add: when_event_def)
  next
    case other
    with poll assms(2) show ?thesis
      by (simp add: when_event_def split: poll_result.split)
  qed
next
  case (Cons ev evs)
  moreover obtain p rx tx where "ev = BitswapForward p rx tx"
    using assms(2) Cons by (cases ev) (auto simp: running_inv_def only_forwards_def)
  ultimately show ?thesis
    using assms(2) by (auto simp: content_poll_def pop_outbox_def when_event_def handle_content_event_def running_inv_def
        queries_inv_def only_forwards_def running_gauge_def)
qed

lemma same_running_events:
  "same_running issued sv (handle_ping_event p result sv)"
  "same_running issued sv (handle_identify_event env ie sv)"
  "same_running issued sv (handle_discovery_event env rd de sv)"
  "same_running issued sv (handle_membership_event env me sv)"
  by (rule same_running_content; simp add: handle_ping_event_def handle_identify_event_def handle_discovery_event_def
      handle_membership_event_def Let_def
      split: ping_result.split identify_event.split discovery_event.split membership_event.split prod.split)+

lemma same_running_parts:
  "same_running issued sv (sv\<lparr>sv_membership := m\<rparr>)" "same_running issued sv (sv\<lparr>sv_discovery := d\<rparr>)"
  by (rule same_running_content; simp)+

lemma same_running_trans: "same_running issued sv u \<Longrightarrow> same_running issued u v \<Longrightarrow> same_running issued sv v"
  by (simp add: same_running_def)

lemma same_running_when_event:
  "(\<And>ev. same_running issued sv (handle ev sv)) \<Longrightarrow> same_running issued sv (when_event handle r sv)"
  by (simp add: when_event_def same_running_content split: poll_result.split)

lemma same_running_poll:
  assumes "\<And>ev u. same_running issued u (handle ev u)"
  shows "same_running issued sv (when_event handle r (sv\<lparr>sv_membership := m\<rparr>))"
    and "same_running issued sv (when_event handle r (sv\<lparr>sv_discovery := d\<rparr>))"
  by (rule same_running_trans [OF same_running_parts(1)], rule same_running_when_event, rule assms)
    (rule same_running_trans [OF same_running_parts(2)], rule same_running_when_event, rule assms)

lemma running_inv_request:
  assumes "query_ids_fresh env issued" and "running_inv issued sv"
  shows "running_inv issued (handle_request env rd req sv)"
proof (cases req)
  case (Resolve cid sid ch)
  with running_inv_start_query [OF assms] show ?thesis
    by (simp add: handle_request_def)
qed (rule running_inv_same [OF _ assms(2)], simp add: handle_request_def on_membership_def same_running_def only_forwards_def
    running_gauge_def rate_limit_used_def charge_def update_rate_limit_def Let_def split: option.split prod.split)+

lemma same_running_handler:
  assumes "bitswap_laws env issued"
  shows "same_running issued sv (sv\<lparr>sv_content := Content.on_connection_handler_event (se_content env) now chan p conn ev (sv_content sv)\<rparr>)"
proof -
  have "issued (ce_inner_handler_event (se_content env) p conn ev' b) = issued b" for ev' b
    using assms by (simp add: bitswap_laws_def)
  then show ?thesis
    by (auto simp: same_running_def only_forwards_def running_gauge_def Content.on_connection_handler_event_def
        check_rate_limit_def charge_def Let_def split: handler_event.split option.split prod.split)
qed

lemma running_inv_call:
  assumes "bitswap_laws env issued" and "running_inv issued sv" and "completes_running sv (Call l)"
  shows "running_inv issued (node_call inner env l sv)"
proof -
  note keep = running_inv_same [OF _ assms(2)]
  have fresh: "query_ids_fresh env issued"
    using assms(1) by (simp add: bitswap_laws_def)
  show ?thesis
  proof (cases l)
    case (Bitswap_Handler rd chan p conn ev)
    with keep [OF same_running_handler [OF assms(1)]] show ?thesis
      by simp
  next
    case (Poll_Content acts)
    with running_inv_poll_content [OF fresh assms(2)] assms(3) show ?thesis
      by blast
  next
    case (Client_Request rd req)
    with running_inv_request [OF fresh assms(2)] show ?thesis
      by simp
  next
    case (Poll_Membership rd acts)
    then show ?thesis
      by (simp add: case_prod_beta keep same_running_poll same_running_events)
  next
    case (Poll_Discovery rd random acts)
    then show ?thesis
      by (simp add: case_prod_beta keep same_running_poll same_running_events)
  qed (simp_all add: keep same_running_events same_running_parts)
qed

lemma running_inv_swarm_event:
  assumes "bitswap_laws env issued" and "running_inv issued sv"
  shows "running_inv issued (node_swarm_event inner env ev sv)"
proof -
  have "issued (ce_inner_swarm_event (se_content env) ev b) = issued b" for b
    using assms(1) by (simp add: bitswap_laws_def)
  then have "same_running issued sv (node_swarm_event inner env ev sv)"
    by (auto simp: same_running_def only_forwards_def running_gauge_def node_swarm_event_def Content.on_swarm_event_def Let_def
        split: swarm_event.split)
  then show ?thesis
    by (rule running_inv_same [OF _ assms(2)])
qed

lemma answers_counted_swarm_event: "answers_counted sv \<Longrightarrow> answers_counted (node_swarm_event inner env ev sv)"
  by (simp add: node_swarm_event_def answers_counted_def answers_def)

lemma bitswap_laws_with_orders [simp]: "bitswap_laws (with_service_orders env so po) issued \<longleftrightarrow> bitswap_laws env issued"
  by (simp add: bitswap_laws_def query_ids_fresh_def)

interpretation metered: invariant_system "metered_step inner env" "\<lambda>_. bitswap_laws env issued"
  "\<lambda>(sv, n). running_inv issued sv \<and> answers_counted sv" for inner env issued
proof unfold_locales
  fix s l t
  assume "metered_step inner env s l t" and laws: "bitswap_laws env issued"
    and "case s of (sv, n) \<Rightarrow> running_inv issued sv \<and> answers_counted sv"
  then obtain so po sv n sv' n' where t: "t = (sv', n')" and running: "completes_running sv l"
    and step: "network_step (node_swarm_event inner (with_service_orders env so po)) (node_call inner (with_service_orders env so po)) (sv, n) l (sv', n')"
    and inv: "running_inv issued sv" "answers_counted sv"
    by (cases s; cases t) (auto elim!: metered_step.cases node_step.cases)
  let ?env = "with_service_orders env so po"
  have laws: "bitswap_laws ?env issued"
    using laws by simp
  have "running_inv issued sv' \<and> answers_counted sv'"
    using step inv running
    by cases (auto intro: running_inv_swarm_event [OF laws] running_inv_call [OF laws] answers_counted_swarm_event
        answers_counted_node_call)
  then show "case t of (sv, n) \<Rightarrow> running_inv issued sv \<and> answers_counted sv"
    by (simp add: t)
qed

lemma metered_runs_node: "runs (metered_step inner env) s ls t \<Longrightarrow> runs (node_step inner env) s ls t"
  by (induction rule: runs.induct) (auto elim!: metered_step.cases intro: runs_snoc)

lemma service_new_metrics:
  assumes "service_new env filter_new now config = Inr sv"
  shows "running_inv issued sv" and "answers_counted sv"
  using assms
  by (auto simp: service_new_def behaviour_new_def content_new_def running_inv_def queries_inv_def only_forwards_def
      running_gauge_def answers_counted_def answers_def split: if_splits)

text \<open>An instance: Bitswap as the list of the contents it was asked for.\<close>

definition sample_metered_env where
  "sample_metered_env = sample_service_env\<lparr>se_content := sample_content_env\<lparr>ce_inner_handler_event := (\<lambda>_ _ _ b. b)\<rparr>\<rparr>"

definition sample_resolve :: "(u8, u8, nat, ((u8, u8, u8) vote_record, bytes) signed_record, nat) request" where
  "sample_resolve = Service.Resolve 7 4 6"

lemma sample_bitswap_laws: "bitswap_laws sample_metered_env (\<lambda>b. {..<length b})"
  by (auto simp: bitswap_laws_def query_ids_fresh_def sample_metered_env_def sample_content_env_def)

lemma sample_metered_new: "service_new sample_metered_env (\<lambda>_. {}) (Timestamp 100) sample_resolver_config = Inr sample_node"
proof -
  have "service_new sample_metered_env (\<lambda>_. {}) (Timestamp 100) sample_resolver_config =
      (service_new sample_service_env (\<lambda>_. {}) (Timestamp 100) sample_resolver_config :: (node_config_error, sample_node_state) result)"
    by (simp add: service_new_def behaviour_new_def content_new_def sample_metered_env_def sample_service_env_def
        sample_content_env_def)
  then show ?thesis
    by (simp add: sample_node_new)
qed

lemma sample_metered_timer: "timer_laws (se_discovery sample_metered_env)"
  using sample_service_timer by (simp add: sample_metered_env_def)

lemma sample_node_parts:
  "sv_responses sample_node = []" "subnet_providers (m_provider_cache (sv_membership sample_node)) = Map.empty"
proof -
  show "sv_responses sample_node = []"
    using service_new_inv(4) [OF sample_node_new sample_service_timer] .
  have "sv_membership sample_node = sample_state"
    using sample_node_new sample_new
    by (auto simp: service_new_def behaviour_new_def sample_service_env_def sample_resolver_config_def split: if_splits
        dest: arg_cong [where f = sv_membership])
  then show "subnet_providers (m_provider_cache (sv_membership sample_node)) = Map.empty"
    by (simp add: sample_state_def Membership.new_def sample_env_def sample_network_def Let_def sample_config_def
        pin_subnet_cases bind_op_def initial_state_def Provider_Cache.pin_subnet_def cache_new_def)
qed

section \<open>Properties\<close>

text \<open>
  C20. The metrics of the resolver can never be registered: the counter of failed resolutions has the
  name of the counter of successful ones, so registration with any Prometheus registry fails. When
  the names were free, the metrics declared before it stay registered and those from it on are
  missing.
\<close>

theorem metrics_never_registered:
  assumes "registry_laws registry names"
  shows "\<exists>e r'. service_register_metrics inner_register registry sv r = (Inl e, r') \<and>
    (\<forall>r1. inner_register (c_inner (sv_content sv)) r = (Inr (), r1) \<and>
       (\<lambda>mt. fst (metric_opts mt)) ` set all_metrics \<inter> names r1 = {} \<longrightarrow>
       names r' = names r1 \<union> (\<lambda>mt. fst (metric_opts mt)) ` set (take 18 all_metrics))"
proof (cases "inner_register (c_inner (sv_content sv)) r")
  case (Pair res r1)
  show ?thesis
  proof (cases res)
    case (Inl e)
    with Pair show ?thesis
      by (simp add: service_register_metrics_def content_register_metrics_def bind_op_def)
  next
    case (Inr u)
    obtain e r' where fails: "register_metrics registry r1 = (Inl e, r')"
      using register_metrics_fails [OF assms] by blast
    have "take 18 all_metrics = first_metrics"
      by (simp add: first_metrics_def all_metrics_def)
    moreover have "names r' = names r1 \<union> (\<lambda>mt. fst (metric_opts mt)) ` set first_metrics"
      if "(\<lambda>mt. fst (metric_opts mt)) ` set all_metrics \<inter> names r1 = {}"
    proof -
      have "(\<lambda>mt. fst (metric_opts mt)) ` set first_metrics \<inter> names r1 = {}"
        using that by (auto simp: first_metrics(1))
      from register_metrics_stops [OF assms this] fails show ?thesis
        by auto
    qed
    ultimately show ?thesis
      using Pair Inr fails by (simp add: service_register_metrics_def content_register_metrics_def bind_op_def)
  qed
qed

theorem metrics_never_registered_witness:
  "\<exists>e r'. service_register_metrics (\<lambda>_ r. (Inr (), r)) sample_register sample_service [] = (Inl e, r') \<and> length (remdups (map fst r')) \<le> 18"
proof -
  obtain e r' where fails: "service_register_metrics (\<lambda>_ r. (Inr (), r)) sample_register sample_service [] = (Inl e, r')"
    and names: "fst ` set r' = (\<lambda>mt. fst (metric_opts mt)) ` set (take 18 all_metrics)"
    using metrics_never_registered [OF sample_registry_laws, of "\<lambda>_ r. (Inr (), r)" sample_service "[]"] by auto
  have "card (fst ` set r') \<le> card (set (take 18 all_metrics))"
    unfolding names by (rule card_image_le) simp
  also have "\<dots> \<le> 18"
    using card_length [of "take 18 all_metrics"] by simp
  finally show ?thesis
    using fails by (auto simp: length_remdups_card_conv)
qed



end
