(* ===== verification/Quickcheck_Props.thy ===== *)
theory Quickcheck_Props
  imports Provider_Cache
begin

text \<open>
  The randomised unit tests of the resolver, and that no draw makes them fail: the generators and
  the tested properties of the test module of \<^verbatim>\<open>src/ipld/resolver/src/provider_cache.rs\<close>, with the
  generators of \<^verbatim>\<open>arb.rs\<close> and \<^verbatim>\<open>timestamp.rs\<close> they draw from, and the round trip that
  \<^verbatim>\<open>signed_record.rs\<close>, \<^verbatim>\<open>provider_record.rs\<close> and \<^verbatim>\<open>vote_record.rs\<close> test.

  A generator is a function of the values that the library draws. The subnet identifiers belong to
  \<open>ipc_sdk\<close>: the constructor of a child and the root are parameters, the drawn addresses an
  argument. The test that flips a byte of an envelope is about the signature scheme and is left
  out.
\<close>

section \<open>Generators\<close>

definition arb_timestamp :: "u64 \<Rightarrow> timestamp" where
  "arb_timestamp n = Timestamp (saturating_add n 1)"

text \<open>The loop runs once more than the remainder says, its range includes the upper end.\<close>

definition arb_subnet_id :: "('sid \<Rightarrow> 'addr \<Rightarrow> 'sid) \<Rightarrow> 'sid \<Rightarrow> u8 \<Rightarrow> (nat \<Rightarrow> 'addr) \<Rightarrow> 'sid" where
  "arb_subnet_id new_from_parent root depth addrs =
     fold (\<lambda>i parent. new_from_parent parent (addrs i)) [0..<Suc (unat depth mod 5)] root"

text \<open>
  What is drawn for the records: how many there are, the peers of the generated keys, and for the
  record of an index the choice of its peer, the number of its subnets, the depth and the
  addresses of each of them, and the time.
\<close>

record ('addr, 'peer) draws =
  dr_count :: nat
  dr_key :: "nat \<Rightarrow> 'peer"
  dr_peer :: "nat \<Rightarrow> nat"
  dr_ids :: "nat \<Rightarrow> nat"
  dr_depth :: "nat \<Rightarrow> nat \<Rightarrow> u8"
  dr_addr :: "nat \<Rightarrow> nat \<Rightarrow> nat \<Rightarrow> 'addr"
  dr_time :: "nat \<Rightarrow> u64"

definition arb_records ::
  "('sid \<Rightarrow> 'addr \<Rightarrow> 'sid) \<Rightarrow> 'sid \<Rightarrow> ('addr, 'peer) draws \<Rightarrow> ('sid, 'peer) provider_record list" where
  "arb_records new_from_parent root d =
     (let rc = dr_count d mod 20;
          pc = 1 + rc div 2;
          ps = map (dr_key d) [0..<pc]
      in map (\<lambda>i. \<lparr>pr_peer_id = ps ! (dr_peer d i mod length ps),
                   pr_subnet_ids =
                     map (\<lambda>j. arb_subnet_id new_from_parent root (dr_depth d i j) (dr_addr d i j))
                       [0..<dr_ids d i mod 5],
                   pr_timestamp = arb_timestamp (dr_time d i)\<rparr>) [0..<rc])"

section \<open>The reference of the tests\<close>

text \<open>How a test fails: with one of its messages, or because an index is missing.\<close>

datatype 'sid test_failure =
    Unexpected_Peers nat nat 'sid
  | Wrong_Peer_Id
  | Static_Subnet_Not_Found
  | Pinned_Subnet_Not_Found
  | Missing_Index

definition max_timestamps :: "('sid, 'peer) provider_record list \<Rightarrow> 'peer \<rightharpoonup> timestamp" where
  "max_timestamps rs =
     fold (\<lambda>r m. let mts = (case m (pr_peer_id r) of None \<Rightarrow> default_timestamp | Some t \<Rightarrow> t)
                 in m(pr_peer_id r \<mapsto> if mts < pr_timestamp r then pr_timestamp r else mts)) rs Map.empty"

definition enter_provider :: "'peer \<Rightarrow> 'sid list \<Rightarrow> ('sid \<rightharpoonup> 'peer set) \<Rightarrow> ('sid \<rightharpoonup> 'peer set)" where
  "enter_provider p = fold (\<lambda>s m. m(s \<mapsto> insert p (set_at m s)))"

fun provider_loop ::
  "('peer \<rightharpoonup> timestamp) \<Rightarrow> ('sid, 'peer) provider_record list \<Rightarrow> ('sid \<rightharpoonup> 'peer set) \<Rightarrow> 'peer set \<Rightarrow>
     ('sid test_failure, 'sid \<rightharpoonup> 'peer set) result" where
  "provider_loop mts [] providers seen = Inr providers"
| "provider_loop mts (r # rs) providers seen =
     (case mts (pr_peer_id r) of
        None \<Rightarrow> Inl Missing_Index
      | Some t \<Rightarrow>
          if pr_timestamp r \<noteq> t then provider_loop mts rs providers seen
          else if pr_peer_id r \<in> seen then provider_loop mts rs providers seen
          else provider_loop mts rs
                 (enter_provider (pr_peer_id r) (pr_subnet_ids r) providers)
                 (insert (pr_peer_id r) seen))"

definition provider_table ::
  "('sid, 'peer) provider_record list \<Rightarrow> ('sid test_failure, 'sid \<rightharpoonup> 'peer set) result" where
  "provider_table rs = provider_loop (max_timestamps rs) rs Map.empty {}"

fun check_providers ::
  "'peer hash_order \<Rightarrow> ('sid \<rightharpoonup> 'peer set) \<Rightarrow> ('sid, 'peer) subnet_provider_cache \<Rightarrow> 'sid list \<Rightarrow>
     ('sid test_failure, unit) result" where
  "check_providers ord providers c [] = Inr ()"
| "check_providers ord providers c (s # ss) =
     (let exp_peer_ids = set_at providers s; peer_ids = providers_of_subnet ord c s
      in if length peer_ids \<noteq> card exp_peer_ids
         then Inl (Unexpected_Peers (card exp_peer_ids) (length peer_ids) s)
         else if list_ex (\<lambda>p. p \<notin> exp_peer_ids) peer_ids then Inl Wrong_Peer_Id
         else check_providers ord providers c ss)"

section \<open>The tested properties\<close>

fun add_all ::
  "'sid hash_order \<Rightarrow> ('sid, 'peer) provider_record list \<Rightarrow> ('sid, 'peer) subnet_provider_cache \<Rightarrow>
     ('sid, 'peer) subnet_provider_cache option" where
  "add_all ord [] c = Some c"
| "add_all ord (r # rs) c =
     (case add_provider ord (set_routable (pr_peer_id r) c) r of
        (None, _) \<Rightarrow> None
      | (Some _, c') \<Rightarrow> add_all ord rs c')"

definition prop_subnets_pruned ::
  "'sid hash_order \<Rightarrow> ('sid, 'peer) provider_record list \<Rightarrow> nat \<Rightarrow> bool" where
  "prop_subnets_pruned ord rs n =
     (case add_all ord rs (cache_new (n mod 10) []) of
        None \<Rightarrow> False
      | Some c \<Rightarrow> card (dom (subnet_providers c)) \<le> n mod 10)"

definition prop_subnets_pinned ::
  "'sid hash_order \<Rightarrow> 'sid hash_order \<Rightarrow> ('sid, 'peer) provider_record list \<Rightarrow>
     ('sid test_failure, unit) result" where
  "prop_subnets_pinned ord ord' rs =
     bind_result (provider_table rs) (\<lambda>providers.
       if card (dom providers) < 2 then Inr ()
       else let subnets = take 2 (ord' (dom providers));
                c = replay ord rs (pin_subnet (subnets ! 1) (cache_new 3 [subnets ! 0]))
            in if subnets ! 0 \<notin> dom (subnet_providers c) then Inl Static_Subnet_Not_Found
               else if subnets ! 1 \<notin> dom (subnet_providers c) then Inl Pinned_Subnet_Not_Found
               else Inr ())"

definition prop_providers_listed ::
  "'sid hash_order \<Rightarrow> 'sid hash_order \<Rightarrow> 'peer hash_order \<Rightarrow> ('sid, 'peer) provider_record list \<Rightarrow>
     ('sid test_failure, unit) result" where
  "prop_providers_listed ord ord' pord rs =
     (let c = replay ord rs (cache_new (2 ^ 64 - 1) [])
      in bind_result (provider_table rs) (\<lambda>providers.
           check_providers pord providers c (ord' (dom providers))))"

definition prop_providers_pruned ::
  "'sid hash_order \<Rightarrow> 'sid hash_order \<Rightarrow> 'peer hash_order \<Rightarrow> ('sid, 'peer) provider_record list \<Rightarrow>
     timestamp \<Rightarrow> ('sid test_failure, unit) result" where
  "prop_providers_pruned ord ord' pord rs cutoff =
     (let c = replay ord rs (cache_new (2 ^ 64 - 1) []);
          c = snd (prune_providers pord cutoff c);
          rs = filter (\<lambda>r. cutoff \<le> pr_timestamp r) rs
      in bind_result (provider_table rs) (\<lambda>providers.
           check_providers pord providers c (ord' (dom providers))))"

text \<open>\<open>None\<close> is a failed expectation.\<close>

definition prop_roundtrip ::
  "('key, 'pub, 'env) envelope_api \<Rightarrow> ('r, 'pub) record_kind \<Rightarrow> 'r codec \<Rightarrow> ('r, 'env) signed_record \<Rightarrow>
     bool option" where
  "prop_roundtrip api rk cd signed_record =
     (case from_protobuf_encoding api (into_protobuf_encoding api (sr_envelope signed_record)) of
        Inl _ \<Rightarrow> None
      | Inr envelope \<Rightarrow>
          (case from_signed_envelope api rk cd envelope of
             Inl _ \<Rightarrow> None
           | Inr signed_record2 \<Rightarrow> Some (sr_record signed_record2 = sr_record signed_record)))"

section \<open>What the generators produce\<close>

lemma arb_timestamp_pos: "bot < arb_timestamp n"
  by (simp add: arb_timestamp_def timestamp_less_iff bot_timestamp_def unat_saturating_add)

lemma length_arb_records: "length (arb_records new_from_parent root d) < 20"
  by (simp add: arb_records_def Let_def)

lemma arb_records_range:
  assumes "r \<in> set (arb_records new_from_parent root d)"
  shows "length (pr_subnet_ids r) < 5" and "bot < pr_timestamp r"
  using assms arb_timestamp_pos by (auto simp: arb_records_def Let_def)

text \<open>The records of a test fit into a cache of the greatest capacity.\<close>

lemma arb_records_fit:
  "card (\<Union>r \<in> set (arb_records new_from_parent root d). set (pr_subnet_ids r)) \<le> 2 ^ 64 - 1"
proof -
  let ?rs = "arb_records new_from_parent root d"
  have "card (\<Union>r \<in> set ?rs. set (pr_subnet_ids r)) \<le> (\<Sum>r \<in> set ?rs. card (set (pr_subnet_ids r)))"
    by (rule card_UN_le) simp
  also have "\<dots> \<le> (\<Sum>r \<in> set ?rs. 5)"
    by (intro sum_mono) (meson arb_records_range(1) card_length less_imp_le order_trans)
  also have "\<dots> \<le> 5 * 20"
    using length_arb_records [of new_from_parent root d] card_length [of ?rs] by simp
  finally show ?thesis
    by simp
qed

section \<open>The reference of the tests and the reference of the cache\<close>

lemma max_timestamps_snoc:
  "max_timestamps (rs @ [r]) =
     (let mts = (case max_timestamps rs (pr_peer_id r) of None \<Rightarrow> default_timestamp | Some t \<Rightarrow> t)
      in (max_timestamps rs)(pr_peer_id r \<mapsto> if mts < pr_timestamp r then pr_timestamp r else mts))"
  by (simp add: max_timestamps_def)

lemma max_timestamps_eq:
  "max_timestamps rs p = (if p \<in> pr_peer_id ` set rs then Some (max_timestamp p rs) else None)"
proof (induction rs arbitrary: p rule: rev_induct)
  case (snoc r rs)
  have "max_timestamp p rs = bot" if "p \<notin> pr_peer_id ` set rs"
    using that max_timestamp_attained [of p rs] by auto
  then show ?case
    by (auto simp: max_timestamps_snoc snoc Let_def)
qed (simp add: max_timestamps_def)

lemma enter_provider_effect [simp]:
  "set_at (enter_provider p ids m) s = (if s \<in> set ids then insert p (set_at m s) else set_at m s)"
  "dom (enter_provider p ids m) = dom m \<union> set ids"
  unfolding enter_provider_def by (induction ids arbitrary: m) auto

text \<open>
  The loop enters every peer it has not seen for the subnets of its first record with the expected
  timestamp, and enters a subnet only together with a peer.
\<close>

lemma provider_loop_total:
  "\<forall>r \<in> set rs. mts (pr_peer_id r) \<noteq> None \<Longrightarrow> \<exists>q. provider_loop mts rs m seen = Inr q"
  by (induction rs arbitrary: m seen) auto

lemma set_at_provider_loop:
  "provider_loop mts rs m seen = Inr q \<Longrightarrow>
   set_at q s = set_at m s \<union>
     {p. p \<notin> seen \<and> (\<exists>r. find (\<lambda>r. pr_peer_id r = p \<and> mts p = Some (pr_timestamp r)) rs = Some r \<and>
           s \<in> set (pr_subnet_ids r))}"
  by (induction mts rs m seen rule: provider_loop.induct) (auto split: option.splits if_splits)

lemma dom_provider_loop:
  "provider_loop mts rs m seen = Inr q \<Longrightarrow> \<forall>s \<in> dom m. set_at m s \<noteq> {} \<Longrightarrow>
   dom q = {s. set_at q s \<noteq> {}}"
proof (induction mts rs m seen rule: provider_loop.induct)
  case (1 mts m seen)
  then show ?case
    by (auto simp: set_at_def split: option.splits)
next
  case (2 mts r rs m seen)
  have "\<forall>s \<in> dom (enter_provider (pr_peer_id r) (pr_subnet_ids r) m).
      set_at (enter_provider (pr_peer_id r) (pr_subnet_ids r) m) s \<noteq> {}"
    using 2(5) by auto
  with 2 show ?case
    by (simp split: option.splits if_splits)
qed

lemma provider_table_spec:
  obtains providers where "provider_table rs = Inr providers"
    and "\<And>s. set_at providers s = build_providers rs s"
    and "dom providers = {s. build_providers rs s \<noteq> {}}"
proof -
  have find: "find (\<lambda>r. pr_peer_id r = p \<and> max_timestamps rs p = Some (pr_timestamp r)) rs =
      find (\<lambda>r. pr_peer_id r = p \<and> pr_timestamp r = max_timestamp p rs) rs" for p
    by (rule find_cong) (auto simp: max_timestamps_eq)
  have "\<forall>r \<in> set rs. max_timestamps rs (pr_peer_id r) \<noteq> None"
    by (simp add: max_timestamps_eq)
  then obtain q where q: "provider_loop (max_timestamps rs) rs Map.empty {} = Inr q"
    using provider_loop_total by blast
  have at: "set_at q s = build_providers rs s" for s
    by (simp add: set_at_provider_loop [OF q] find build_providers_def)
  from dom_provider_loop [OF q] at q show ?thesis
    by (intro that [of q]) (simp_all add: provider_table_def)
qed

lemma build_providers_subnets: "{s. build_providers rs s \<noteq> {}} \<subseteq> (\<Union>r \<in> set rs. set (pr_subnet_ids r))"
  by (auto simp: build_providers_def find_Some_iff) (metis nth_mem)

lemma check_providers_ok:
  assumes "hash_order ord" and "cache_inv c"
    and "\<And>s. set_at (subnet_providers c) s = set_at providers s"
  shows "check_providers ord providers c ss = Inr ()"
  using distinct_card [OF providers_of_subnet_set(2) [OF assms(1,2)]]
    providers_of_subnet_set(1) [OF assms(1,2)] assms(3)
  by (induction ss) (auto simp: list_ex_iff Let_def)

lemma add_all_replay:
  "hash_order ord \<Longrightarrow> cache_inv c \<Longrightarrow> add_all ord rs c = Some (replay ord rs c)"
proof (induction rs arbitrary: c)
  case (Cons r rs)
  let ?c = "set_routable (pr_peer_id r) c"
  have inv: "cache_inv ?c"
    by (rule cache_inv_set_routable) (rule Cons.prems(2))
  obtain d c' where "add_provider ord ?c r = (Some d, c')"
    using Cons.prems(1) inv by (cases rule: add_provider_cases [of ord ?c r]) auto
  then show ?case
    using Cons.IH [of c'] Cons.prems(1) cache_inv_add_provider [OF Cons.prems(1) inv, of r]
    by (simp add: replay_def)
qed (simp add: replay_def)

section \<open>Pinned subnets of replayed records\<close>

lemma known_timestamp_add_provider:
  assumes "hash_order ord" and "cache_inv c"
  shows "known_timestamp (snd (add_provider ord (set_routable (pr_peer_id r) c) r)) p =
    (if pr_peer_id r = p \<and> known_timestamp c p < pr_timestamp r then pr_timestamp r else known_timestamp c p)"
proof -
  let ?c = "set_routable (pr_peer_id r) c"
  have "cache_inv ?c"
    by (rule cache_inv_set_routable) (rule assms(2))
  from assms(1) this(1) show ?thesis
    by (cases rule: add_provider_cases [of ord ?c r])
      (auto simp: known_timestamp_def set_routable_def)
qed

lemma known_timestamp_replay:
  assumes "hash_order ord" and "cache_inv c" and "peer_timestamps c = Map.empty"
  shows "known_timestamp (replay ord rs c) p = max_timestamp p rs"
proof (induction rs rule: rev_induct)
  case (snoc r rs)
  then show ?case
    by (simp add: known_timestamp_add_provider [OF assms(1) cache_inv_replay [OF assms(1,2)]])
qed (simp add: known_timestamp_def assms(3))

lemma replay_append: "replay ord (xs @ ys) c = replay ord ys (replay ord xs c)"
  by (simp add: replay_def)

lemma pinned_subnets_replay [simp]: "pinned_subnets (replay ord rs c) = pinned_subnets c"
  by (induction rs rule: rev_induct) simp_all

lemma pinned_replay_keeps:
  assumes "hash_order ord" and "cache_inv c" and "s \<in> pinned_subnets c"
    and "s \<in> dom (subnet_providers c)"
  shows "s \<in> dom (subnet_providers (replay ord rs c))"
proof (induction rs rule: rev_induct)
  case (snoc r rs)
  let ?c = "set_routable (pr_peer_id r) (replay ord rs c)"
  have "cache_inv ?c"
    by (intro cache_inv_set_routable cache_inv_replay assms(1,2))
  from dom_add_provider_pinned [OF assms(1) this, of s r] snoc assms(3) show ?case
    by simp
qed (use assms(4) in simp)

lemma build_providersE:
  assumes "p \<in> build_providers rs s" and "\<forall>r \<in> set rs. bot < pr_timestamp r"
  obtains xs r ys where "rs = xs @ r # ys" and "s \<in> set (pr_subnet_ids r)"
    and "max_timestamp (pr_peer_id r) xs < pr_timestamp r"
proof -
  obtain r where r: "find (\<lambda>r. pr_peer_id r = p \<and> pr_timestamp r = max_timestamp p rs) rs = Some r"
    "s \<in> set (pr_subnet_ids r)"
    using assms(1) by (auto simp: build_providers_def)
  then obtain i where i: "i < length rs" "rs ! i = r" "pr_peer_id r = p" "pr_timestamp r = max_timestamp p rs"
    "\<forall>j < i. \<not> (pr_peer_id (rs ! j) = p \<and> pr_timestamp (rs ! j) = max_timestamp p rs)"
    by (auto simp: find_Some_iff)
  have eq: "rs = take i rs @ r # drop (Suc i) rs"
    using i(1,2) id_take_nth_drop by blast
  have "pr_timestamp x < pr_timestamp r" if x: "x \<in> set (take i rs)" "pr_peer_id x = p" for x
  proof -
    from x(1) obtain j where "j < i" "rs ! j = x"
      using i(1) by (auto simp: in_set_conv_nth)
    with i(5) x(2) have "pr_timestamp x \<noteq> pr_timestamp r"
      by (auto simp: i(4))
    moreover have "pr_timestamp x \<le> pr_timestamp r"
      using x by (auto simp: i(4) dest: in_set_takeD intro: max_timestamp_ge)
    ultimately show ?thesis
      by simp
  qed
  moreover have "bot < pr_timestamp r"
    using assms(2) i(1,2) by auto
  ultimately have "max_timestamp p (take i rs) < pr_timestamp r"
    using max_timestamp_attained [of p "take i rs"] by metis
  with eq r(2) i(3) show ?thesis
    by (intro that) auto
qed

text \<open>
  A pinned subnet that the reference lists is tracked in the end: it is entered with the record
  that the reference counts, whatever the capacity is.
\<close>

lemma pinned_replay_found:
  assumes "hash_order ord" and "cache_inv c" and "peer_timestamps c = Map.empty"
    and "s \<in> pinned_subnets c" and "\<forall>r \<in> set rs. bot < pr_timestamp r" and "build_providers rs s \<noteq> {}"
  shows "s \<in> dom (subnet_providers (replay ord rs c))"
proof -
  obtain xs r ys where rs: "rs = xs @ r # ys" "s \<in> set (pr_subnet_ids r)"
    "max_timestamp (pr_peer_id r) xs < pr_timestamp r"
    using assms(5,6) by (metis build_providersE ex_in_conv)
  let ?c = "set_routable (pr_peer_id r) (replay ord xs c)"
  let ?c' = "snd (add_provider ord ?c r)"
  have inv: "cache_inv ?c"
    by (intro cache_inv_set_routable cache_inv_replay assms(1,2))
  have fresh: "known_timestamp ?c (pr_peer_id r) < pr_timestamp r"
    using rs(3) known_timestamp_replay [OF assms(1-3), of xs "pr_peer_id r"]
    by (simp add: known_timestamp_def set_routable_def)
  from assms(1) inv have "s \<in> dom (subnet_providers ?c')"
    by (cases rule: add_provider_cases [of ord ?c r]) (use fresh rs(2) assms(4) in auto)
  then have "s \<in> dom (subnet_providers (replay ord ys ?c'))"
    using assms(4) by (intro pinned_replay_keeps assms(1) cache_inv_add_provider inv) auto
  moreover have "replay ord rs c = replay ord ys ?c'"
    by (simp add: rs(1) replay_def)
  ultimately show ?thesis
    by simp
qed

lemma cache_bounded_replay:
  assumes "hash_order ord" and "cache_inv c" and "cache_bounded c"
  shows "cache_bounded (replay ord rs c)"
proof (induction rs rule: rev_induct)
  case (snoc r rs)
  let ?c = "set_routable (pr_peer_id r) (replay ord rs c)"
  have "cache_inv ?c"
    by (intro cache_inv_set_routable cache_inv_replay assms(1,2))
  moreover have "cache_bounded ?c"
    using snoc by (simp add: cache_bounded_def)
  ultimately show ?case
    by (simp add: cache_bounded_add_provider [OF assms(1)])
qed (use assms(3) in simp)

section \<open>The tests pass\<close>

lemma subnets_pruned_holds: "hash_order ord \<Longrightarrow> prop_subnets_pruned ord rs n"
proof -
  assume ord: "hash_order ord"
  let ?c = "cache_new (n mod 10) []"
  have "cache_bounded ?c"
    by (simp add: cache_bounded_def cache_new_def)
  from cache_bounded_replay [OF ord cache_inv_new this, of rs] show ?thesis
    by (simp add: prop_subnets_pruned_def add_all_replay [OF ord cache_inv_new] cache_bounded_def)
      (simp add: cache_new_def)
qed

lemma subnets_pinned_holds:
  assumes "hash_order ord" and "hash_order ord'" and "\<forall>r \<in> set rs. bot < pr_timestamp r"
  shows "prop_subnets_pinned ord ord' rs = Inr ()"
proof -
  obtain q where q: "provider_table rs = Inr q" "dom q = {s. build_providers rs s \<noteq> {}}"
    using provider_table_spec by metis
  have fin: "finite (dom q)"
    unfolding q(2) by (rule finite_subset [OF build_providers_subnets]) simp
  let ?ss = "take 2 (ord' (dom q))"
  let ?c = "pin_subnet (?ss ! 1) (cache_new 3 [?ss ! 0])"
  have found: "?ss ! i \<in> dom (subnet_providers (replay ord rs ?c))" if "\<not> card (dom q) < 2" "i < 2" for i
  proof (rule pinned_replay_found [OF assms(1) _ _ _ assms(3)])
    have "ord' (dom q) ! i \<in> dom q"
      using that fin assms(2) by (metis hash_order_length hash_order_set less_le_trans not_less nth_mem)
    then show "build_providers rs (?ss ! i) \<noteq> {}"
      using that(2) by (simp add: q(2))
    have "i = 0 \<or> i = 1"
      using that(2) by auto
    then show "?ss ! i \<in> pinned_subnets ?c"
      by (auto simp: pin_subnet_def cache_new_def)
  qed (auto simp: pin_subnet_def cache_new_def cache_inv_def)
  show ?thesis
    using found [of 0] found [of 1] by (simp add: prop_subnets_pinned_def q(1) Let_def)
qed

lemma providers_listed_holds:
  assumes "hash_order ord" and "hash_order pord" and "\<forall>r \<in> set rs. bot < pr_timestamp r"
    and "card (\<Union>r \<in> set rs. set (pr_subnet_ids r)) \<le> 2 ^ 64 - 1"
  shows "prop_providers_listed ord ord' pord rs = Inr ()"
proof -
  obtain q where "provider_table rs = Inr q" "\<And>s. set_at q s = build_providers rs s"
    using provider_table_spec by metis
  moreover have "cache_inv (replay ord rs (cache_new (2 ^ 64 - 1) []))"
    by (intro cache_inv_replay cache_inv_new assms(1))
  ultimately show ?thesis
    using providers_replay [OF assms(1,4,3)]
    by (simp add: prop_providers_listed_def Let_def check_providers_ok [OF assms(2)])
qed

lemma providers_pruned_holds:
  assumes "hash_order ord" and "hash_order pord" and "\<forall>r \<in> set rs. bot < pr_timestamp r"
    and "card (\<Union>r \<in> set rs. set (pr_subnet_ids r)) \<le> 2 ^ 64 - 1"
  shows "prop_providers_pruned ord ord' pord rs cutoff = Inr ()"
proof -
  let ?c = "replay ord rs (cache_new (2 ^ 64 - 1) [])"
  let ?rs = "filter (\<lambda>r. cutoff \<le> pr_timestamp r) rs"
  obtain q where q: "provider_table ?rs = Inr q" "\<And>s. set_at q s = build_providers ?rs s"
    using provider_table_spec by metis
  have inv: "cache_inv (snd (prune_providers pord cutoff ?c))"
    by (intro cache_inv_prune_providers cache_inv_replay cache_inv_new assms(1))
  have "set_at (subnet_providers (snd (prune_providers pord cutoff ?c))) s = set_at q s" for s
    using providers_pruned_replay [OF assms(1,2,4,3)] by (simp add: q(2))
  with inv q(1) show ?thesis
    by (simp add: prop_providers_pruned_def Let_def check_providers_ok [OF assms(2)])
qed

lemma roundtrip_holds:
  assumes "from_bytes api rk cd (into_protobuf_encoding api (sr_envelope sr)) = Inr sr"
  shows "prop_roundtrip api rk cd sr = Some True"
  using assms by (auto simp: prop_roundtrip_def from_bytes_def split: sum.splits)

section \<open>Properties\<close>

text \<open>
  C14. The randomised tests of the provider cache cannot fail: whatever the generators draw and in
  whatever order the hash containers are visited, the cache respects its capacity and accepts every
  record (\<open>prop_subnets_pruned\<close>), keeps the static and the pinned subnet even when its capacity is
  exceeded (\<open>prop_subnets_pinned\<close>), lists the providers of the reference table
  (\<open>prop_providers_listed\<close>), and after pruning those of the table of the remaining records
  (\<open>prop_providers_pruned\<close>).
\<close>

theorem cache_tests_pass:
  assumes "hash_order ord" and "hash_order ord'" and "hash_order pord"
  shows "prop_subnets_pruned ord (arb_records new_from_parent root d) n \<and>
    prop_subnets_pinned ord ord' (arb_records new_from_parent root d) = Inr () \<and>
    prop_providers_listed ord ord' pord (arb_records new_from_parent root d) = Inr () \<and>
    prop_providers_pruned ord ord' pord (arb_records new_from_parent root d) (arb_timestamp t) = Inr ()"
  using assms arb_records_range(2) arb_records_fit
  by (metis subnets_pruned_holds subnets_pinned_holds providers_listed_holds providers_pruned_holds)

definition sample_draws :: "(nat, nat) draws" where
  "sample_draws =
     \<lparr>dr_count = 23, dr_key = (\<lambda>i. 10 + i), dr_peer = (\<lambda>i. i), dr_ids = (\<lambda>i. 2), dr_depth = (\<lambda>i j. 0),
      dr_addr = (\<lambda>i j k. i + j), dr_time = (\<lambda>i. of_nat i)\<rparr>"

text \<open>Three records of two peers.\<close>

lemma sample_records:
  "arb_records (\<lambda>s a. s + a) 0 sample_draws =
     [\<lparr>pr_peer_id = 10, pr_subnet_ids = [0, 1], pr_timestamp = Timestamp 1\<rparr>,
      \<lparr>pr_peer_id = 11, pr_subnet_ids = [1, 2], pr_timestamp = Timestamp 2\<rparr>,
      \<lparr>pr_peer_id = 10, pr_subnet_ids = [2, 3], pr_timestamp = Timestamp 3\<rparr>]"
proof -
  have upts: "[0..<3] = [0, 1, 2 :: nat]" "[0..<2] = [0, 1 :: nat]"
    by code_simp+
  show ?thesis
    by (simp add: arb_records_def sample_draws_def arb_subnet_id_def arb_timestamp_def
        saturating_add_def upts flip: numeral_2_eq_2)
qed

theorem cache_tests_pass_witness:
  "prop_providers_pruned sorted_list_of_set sorted_list_of_set sorted_list_of_set
     [\<lparr>pr_peer_id = 10 :: nat, pr_subnet_ids = [0 :: nat, 1], pr_timestamp = Timestamp 1\<rparr>,
      \<lparr>pr_peer_id = 11, pr_subnet_ids = [1, 2], pr_timestamp = Timestamp 2\<rparr>,
      \<lparr>pr_peer_id = 10, pr_subnet_ids = [2, 3], pr_timestamp = Timestamp 3\<rparr>] (arb_timestamp 2) = Inr ()"
  using cache_tests_pass [OF hash_order_sorted_list hash_order_sorted_list hash_order_sorted_list,
      of "\<lambda>s a. s + a" 0 sample_draws 7 2]
  unfolding sample_records by simp

text \<open>
  The round trip that the tests of the two record modules check succeeds for every record that an
  agent signs.
\<close>

theorem roundtrip_tests_pass:
  assumes "envelope_laws api" and "codec_laws pc" and "codec_laws vc"
    and "provider_record_signed api to_peer_id pc now key ids = Inr pr"
    and "vote_record_signed api vc now' key' sid cid claim = Inr vr"
  shows "prop_roundtrip api (provider_record_kind to_peer_id) pc pr = Some True \<and>
    prop_roundtrip api vote_record_kind vc vr = Some True"
proof
  show "prop_roundtrip api (provider_record_kind to_peer_id) pc pr = Some True"
    using assms(4) provider.new_roundtrip [OF assms(1,2), where args = "(ids, now)"]
    by (intro roundtrip_holds) (simp add: provider_record_signed_def)
  show "prop_roundtrip api vote_record_kind vc vr = Some True"
    using assms(5) vote.new_roundtrip [OF assms(1,3), where args = "(sid, cid, claim, now')"]
    by (intro roundtrip_holds) (simp add: vote_record_signed_def)
qed

end
