(* ===== verification/Missing_Blocks.thy ===== *)
theory Missing_Blocks
  imports Prelude
begin

text \<open>
  The search for missing blocks of \<^verbatim>\<open>src/ipld/resolver/src/missing_blocks.rs\<close>: a traversal of the
  links between blocks with an explicit stack, without a set of visited blocks.

  The block store and the extraction of the references of a block belong to other crates: they are
  parameters. The loop is a partial function, so that not returning is the value \<^term>\<open>None\<close>; it
  returns for every store whose links are well-founded, which content addressing gives.
\<close>

section \<open>Model\<close>

record ('cid, 'data) block_store =
  bs_get :: "'cid \<Rightarrow> (string, 'data option) result"
  block_references :: "'cid \<Rightarrow> 'data \<Rightarrow> (string, 'cid list) result"

text \<open>
  The head of the list is the top of the stack: references are pushed in order, so the last one is
  visited first.
\<close>

partial_function (option) missing_loop ::
  "('cid, 'data) block_store \<Rightarrow> 'cid list \<Rightarrow> 'cid list \<Rightarrow> (string, 'cid list) result option" where
  "missing_loop bs stack missing =
     (case stack of
        [] \<Rightarrow> Some (Inr missing)
      | c # stack \<Rightarrow>
          (case bs_get bs c of
             Inl e \<Rightarrow> Some (Inl e)
           | Inr (Some data) \<Rightarrow>
               (case block_references bs c data of
                  Inl e \<Rightarrow> Some (Inl e)
                | Inr refs \<Rightarrow> missing_loop bs (rev refs @ stack) missing)
           | Inr None \<Rightarrow> missing_loop bs stack (missing @ [c])))"

definition missing_blocks :: "('cid, 'data) block_store \<Rightarrow> 'cid \<Rightarrow> (string, 'cid list) result option" where
  "missing_blocks bs c = missing_loop bs [c] []"

text \<open>The blocks that the stored block \<open>c\<close> links to.\<close>

definition links :: "('cid, 'data) block_store \<Rightarrow> ('cid \<times> 'cid) set" where
  "links bs = {(d, c). \<exists>data refs. bs_get bs c = Inr (Some data) \<and>
     block_references bs c data = Inr refs \<and> d \<in> set refs}"

definition reachable_from :: "('cid, 'data) block_store \<Rightarrow> 'cid \<Rightarrow> 'cid set" where
  "reachable_from bs c = {d. (d, c) \<in> (links bs)\<^sup>*}"

text \<open>Reading \<open>c\<close> succeeds: the store answers and a stored block can be decoded.\<close>

definition readable :: "('cid, 'data) block_store \<Rightarrow> 'cid \<Rightarrow> bool" where
  "readable bs c \<longleftrightarrow>
     (case bs_get bs c of Inl e \<Rightarrow> False | Inr None \<Rightarrow> True
      | Inr (Some data) \<Rightarrow> \<not> isl (block_references bs c data))"

text \<open>The absent blocks below a set of blocks.\<close>

definition absent :: "('cid, 'data) block_store \<Rightarrow> 'cid set \<Rightarrow> 'cid set" where
  "absent bs C = {d. \<exists>c \<in> C. d \<in> reachable_from bs c \<and> bs_get bs d = Inr None}"

text \<open>
  Visiting a list of blocks on top of the stack either appends the absent blocks below them to
  the result or fails at a block that cannot be read.
\<close>

definition visited :: "('cid, 'data) block_store \<Rightarrow> 'cid list \<Rightarrow> bool" where
  "visited bs cs \<longleftrightarrow>
     (\<exists>ms. set ms = absent bs (set cs) \<and>
        (\<forall>stack missing. missing_loop bs (cs @ stack) missing = missing_loop bs stack (missing @ ms))) \<or>
     (\<exists>e c d. c \<in> set cs \<and> d \<in> reachable_from bs c \<and> \<not> readable bs d \<and>
        (\<forall>stack missing. missing_loop bs (cs @ stack) missing = Some (Inl e)))"

text \<open>
  An instance: block 1 links to 2 and 3, block 2 links to 3 and 4; blocks 3 and 4 are not stored.
\<close>

definition sample_store :: "(nat, nat list) block_store" where
  "sample_store =
     \<lparr>bs_get = (\<lambda>c. Inr (if c = 1 then Some [2, 3] else if c = 2 then Some [3, 4] else None)),
      block_references = (\<lambda>_ refs. Inr refs)\<rparr>"

section \<open>Lemmas\<close>

lemma missing_loop_simps [simp]:
  "missing_loop bs [] missing = Some (Inr missing)"
  "bs_get bs c = Inl e \<Longrightarrow> missing_loop bs (c # stack) missing = Some (Inl e)"
  "bs_get bs c = Inr None \<Longrightarrow>
     missing_loop bs (c # stack) missing = missing_loop bs stack (missing @ [c])"
  "bs_get bs c = Inr (Some data) \<Longrightarrow> block_references bs c data = Inl e \<Longrightarrow>
     missing_loop bs (c # stack) missing = Some (Inl e)"
  "bs_get bs c = Inr (Some data) \<Longrightarrow> block_references bs c data = Inr refs \<Longrightarrow>
     missing_loop bs (c # stack) missing = missing_loop bs (rev refs @ stack) missing"
  by (subst missing_loop.simps, simp)+

lemma reachable_from_self [simp]: "c \<in> reachable_from bs c"
  by (simp add: reachable_from_def)

lemma reachable_from_step:
  "reachable_from bs c = insert c (\<Union>d \<in> {d. (d, c) \<in> links bs}. reachable_from bs d)"
  by (auto simp: reachable_from_def elim: rtranclE intro: rtrancl_into_rtrancl)

lemma reachable_from_stored:
  assumes "bs_get bs c = Inr (Some data)" and "block_references bs c data = Inr refs"
  shows "reachable_from bs c = insert c (\<Union>d \<in> set refs. reachable_from bs d)"
proof -
  from assms have "{d. (d, c) \<in> links bs} = set refs"
    by (auto simp: links_def)
  then show ?thesis
    by (subst reachable_from_step) simp
qed

lemma reachable_from_leaf:
  "bs_get bs c \<noteq> Inr (Some data) \<Longrightarrow> (\<And>data. bs_get bs c \<noteq> Inr (Some data)) \<Longrightarrow>
   reachable_from bs c = {c}"
  by (subst reachable_from_step) (auto simp: links_def)

lemma visited_Nil: "visited bs []"
  by (auto simp: visited_def absent_def)

lemma visited_append:
  assumes "visited bs [c]" and "visited bs cs"
  shows "visited bs (c # cs)"
  using assms(1) unfolding visited_def [of bs "[c]"]
proof (elim disjE exE conjE)
  fix ms assume ms: "set ms = absent bs (set [c])"
    "\<forall>stack missing. missing_loop bs ([c] @ stack) missing = missing_loop bs stack (missing @ ms)"
  have un: "absent bs (set [c]) \<union> absent bs (set cs) = absent bs (set (c # cs))"
    by (auto simp: absent_def)
  show ?thesis
    using assms(2) unfolding visited_def [of bs cs]
  proof (elim disjE exE conjE)
    fix ns assume "set ns = absent bs (set cs)"
      "\<forall>stack missing. missing_loop bs (cs @ stack) missing = missing_loop bs stack (missing @ ns)"
    with ms un show ?thesis
      unfolding visited_def by (intro disjI1 exI [of _ "ms @ ns"]) simp
  next
    fix e c' d assume "c' \<in> set cs" "d \<in> reachable_from bs c'" "\<not> readable bs d"
      "\<forall>stack missing. missing_loop bs (cs @ stack) missing = Some (Inl e)"
    with ms show ?thesis
      unfolding visited_def by (intro disjI2 exI [of _ e] exI [of _ c'] exI [of _ d]) simp
  qed
next
  fix e c' d assume "c' \<in> set [c]" "d \<in> reachable_from bs c'" "\<not> readable bs d"
    "\<forall>stack missing. missing_loop bs ([c] @ stack) missing = Some (Inl e)"
  then show ?thesis
    unfolding visited_def by (intro disjI2 exI [of _ e] exI [of _ c'] exI [of _ d]) simp
qed

lemma visited_list: "\<forall>c \<in> set cs. visited bs [c] \<Longrightarrow> visited bs cs"
  by (induction cs) (auto intro: visited_append visited_Nil)

lemma visited_one:
  assumes "wf (links bs)"
  shows "visited bs [c]"
  using assms
proof (induction c rule: wf_induct_rule)
  case (less c)
  show ?case
  proof (cases "readable bs c")
    case False
    then have "\<exists>e. \<forall>stack missing. missing_loop bs (c # stack) missing = Some (Inl e)"
      by (auto simp: readable_def isl_def split: sum.splits option.splits)
    with False show ?thesis
      unfolding visited_def by fastforce
  next
    case True
    show ?thesis
    proof (cases "bs_get bs c = Inr None")
      case absent: True
      then have "absent bs {c} = {c}"
        using reachable_from_leaf [of bs c] by (auto simp: absent_def)
      with absent show ?thesis
        unfolding visited_def by (intro disjI1 exI [of _ "[c]"]) simp
    next
      case stored: False
      with True obtain data where "bs_get bs c = Inr (Some data)" "\<not> isl (block_references bs c data)"
        by (auto simp: readable_def split: sum.splits option.splits)
      then obtain refs where refs: "bs_get bs c = Inr (Some data)" "block_references bs c data = Inr refs"
        by (cases "block_references bs c data") auto
      then have "\<forall>d \<in> set refs. (d, c) \<in> links bs"
        by (auto simp: links_def)
      with less have vis: "visited bs (rev refs)"
        by (intro visited_list) auto
      have "absent bs (set (rev refs)) = absent bs {c}"
        using refs by (auto simp: absent_def reachable_from_stored [OF refs])
      moreover have "missing_loop bs ([c] @ stack) missing = missing_loop bs (rev refs @ stack) missing"
        for stack missing
        using refs by simp
      moreover have "\<exists>c'\<in>{c}. d \<in> reachable_from bs c'" if "c' \<in> set (rev refs)" "d \<in> reachable_from bs c'"
        for c' d
        using that by (auto simp: reachable_from_stored [OF refs])
      ultimately show ?thesis
        using vis unfolding visited_def by (simp only: list.set) metis
    qed
  qed
qed

lemma sample_store_links: "wf (links sample_store)"
proof (rule wf_subset)
  show "wf {(d, c). c < d \<and> d < (5 :: nat)}"
    by (rule wf_subset [OF wf_measure [of "\<lambda>n. 5 - n"]]) auto
  show "links sample_store \<subseteq> {(d, c). c < d \<and> d < 5}"
    by (auto simp: links_def sample_store_def split: if_splits)
qed

section \<open>Properties\<close>

text \<open>
  C17. The search always returns when links are well-founded: with an error only if a block reachable
  from the root could not be read, and otherwise with exactly the reachable blocks that are not in
  the store.
\<close>

theorem missing_blocks_correct:
  assumes "wf (links bs)"
  shows "(\<exists>ms. missing_blocks bs c = Some (Inr ms) \<and>
      set ms = {d \<in> reachable_from bs c. bs_get bs d = Inr None}) \<or>
    (\<exists>e. missing_blocks bs c = Some (Inl e) \<and> (\<exists>d \<in> reachable_from bs c. \<not> readable bs d))"
proof -
  from visited_one [OF assms, of c] consider
      ms where "set ms = absent bs {c}"
        "\<forall>stack missing. missing_loop bs ([c] @ stack) missing = missing_loop bs stack (missing @ ms)"
    | e d where "d \<in> reachable_from bs c" "\<not> readable bs d"
        "\<forall>stack missing. missing_loop bs ([c] @ stack) missing = Some (Inl e)"
    by (auto simp: visited_def)
  then show ?thesis
  proof cases
    case (1 ms)
    from 1(2) [rule_format, of "[]" "[]"] 1(1) show ?thesis
      by (auto simp: missing_blocks_def absent_def)
  next
    case (2 e d)
    from 2(3) [rule_format, of "[]" "[]"] 2(1,2) show ?thesis
      by (auto simp: missing_blocks_def)
  qed
qed

theorem missing_blocks_correct_witness:
  "(\<exists>ms. missing_blocks sample_store 1 = Some (Inr ms) \<and>
      set ms = {d \<in> reachable_from sample_store 1. bs_get sample_store d = Inr None}) \<and>
   missing_blocks sample_store 1 = Some (Inr [3, 4, 3])"
proof
  show eq: "missing_blocks sample_store 1 = Some (Inr [3, 4, 3])"
    by (simp add: missing_blocks_def sample_store_def)
  from missing_blocks_correct [OF sample_store_links, of 1] eq
  show "\<exists>ms. missing_blocks sample_store 1 = Some (Inr ms) \<and>
      set ms = {d \<in> reachable_from sample_store 1. bs_get sample_store d = Inr None}"
    by auto
qed

end
