(* ===== verification/Json_Rpc.thy ===== *)
theory Json_Rpc
  imports Prelude
begin

text \<open>
  The JSON-RPC client of \<^verbatim>\<open>src/src/jsonrpc/mod.rs\<close>: requests to the nodes of the subnets over HTTP.

  JSON values are a datatype with objects as association lists; numbers that are not integers only
  occur as opaque text. Decoding follows the derived \<open>Deserialize\<close> instances for objects: a required
  field has to be there, a missing optional field or a \<open>null\<close> is \<open>None\<close>, unknown fields are ignored
  and duplicate fields are refused. The HTTP client and the parser of JSON text are parameters.

  The state of an operation is the remote side, which answers requests and may change with each of
  them, together with the list of all requests sent so far: what the components of the agent may
  send is a statement about this list.
\<close>

section \<open>JSON values\<close>

datatype json =
    JNull
  | JBool bool
  | JNum int
  | JFrac string
  | JStr string
  | JArr "json list"
  | JObj "(string \<times> json) list"

type_synonym 'a decoder = "json \<Rightarrow> (string, 'a) result"

fun de_value :: "json decoder" where
  "de_value j = Inr j"

fun de_string :: "string decoder" where
  "de_string (JStr s) = Inr s"
| "de_string _ = Inl ''invalid type, expected a string''"

fun de_bool :: "bool decoder" where
  "de_bool (JBool b) = Inr b"
| "de_bool _ = Inl ''invalid type, expected a boolean''"

fun de_unit :: "unit decoder" where
  "de_unit JNull = Inr ()"
| "de_unit _ = Inl ''invalid type, expected unit''"

fun de_int :: "int \<Rightarrow> int \<Rightarrow> int decoder" where
  "de_int lo hi (JNum n) = (if lo \<le> n \<and> n \<le> hi then Inr n else Inl ''invalid value'')"
| "de_int lo hi _ = Inl ''invalid type, expected an integer''"

definition de_word :: "'a::len word decoder" where
  "de_word j = map_sum id of_int (de_int 0 (2 ^ LENGTH('a) - 1) j)"

definition de_i64 :: "int decoder" where
  "de_i64 = de_int (- (2 ^ 63)) (2 ^ 63 - 1)"

fun de_list :: "'a decoder \<Rightarrow> 'a list decoder" where
  "de_list de (JArr js) = collect_results de js"
| "de_list de _ = Inl ''invalid type, expected a sequence''"

fun de_option :: "'a decoder \<Rightarrow> 'a option decoder" where
  "de_option de JNull = Inr None"
| "de_option de j = map_sum id Some (de j)"

text \<open>The fields of an object with a given name.\<close>

fun fields_of :: "json \<Rightarrow> (string, (string \<times> json) list) result" where
  "fields_of (JObj fs) = Inr fs"
| "fields_of _ = Inl ''invalid type, expected a map''"

text \<open>
  The fields of a struct. The decoder that serde derives also accepts an array with the values of
  all fields, in the order in which the struct declares them.
\<close>

fun struct_fields :: "string list \<Rightarrow> json \<Rightarrow> (string, (string \<times> json) list) result" where
  "struct_fields names (JObj fs) = Inr fs"
| "struct_fields names (JArr js) =
     (if length js = length names then Inr (zip names js) else Inl ''invalid length'')"
| "struct_fields names _ = Inl ''invalid type, expected struct''"

definition values_of :: "string \<Rightarrow> (string \<times> json) list \<Rightarrow> json list" where
  "values_of k fs = map snd (filter (\<lambda>(k', v). k' = k) fs)"

definition required :: "string \<Rightarrow> 'a decoder \<Rightarrow> (string \<times> json) list \<Rightarrow> (string, 'a) result" where
  "required k de fs =
     (case values_of k fs of
        [] \<Rightarrow> Inl (''missing field '' @ k)
      | [j] \<Rightarrow> de j
      | _ \<Rightarrow> Inl (''duplicate field '' @ k))"

definition optional :: "string \<Rightarrow> 'a decoder \<Rightarrow> (string \<times> json) list \<Rightarrow> (string, 'a option) result" where
  "optional k de fs =
     (case values_of k fs of
        [] \<Rightarrow> Inr None
      | [j] \<Rightarrow> de_option de j
      | _ \<Rightarrow> Inl (''duplicate field '' @ k))"

text \<open>\<open>T\<close> with \<open>#[serde(default)]\<close>.\<close>

definition defaulted :: "string \<Rightarrow> 'a \<Rightarrow> 'a decoder \<Rightarrow> (string \<times> json) list \<Rightarrow> (string, 'a) result" where
  "defaulted k d de fs =
     (case values_of k fs of
        [] \<Rightarrow> Inr d
      | [j] \<Rightarrow> de j
      | _ \<Rightarrow> Inl (''duplicate field '' @ k))"

section \<open>Errors, requests and the remote side\<close>

text \<open>
  An \<open>anyhow::Error\<close> is its message. A panic is not caught by the question mark operator, but it ends
  every operation all the same, so it is a second kind of error; who handles errors has to tell the
  two apart.
\<close>

datatype agent_error = Failed string | Panicked string

text \<open>\<open>context(..)\<close>; a panic is not an error value.\<close>

fun in_context :: "string \<Rightarrow> agent_error \<Rightarrow> agent_error" where
  "in_context c (Failed _) = Failed c"
| "in_context c (Panicked m) = Panicked m"

record http_request =
  hr_url :: string
  hr_bearer :: "string option"
  hr_body :: json

record 'w http_env =
  he_post :: "http_request \<Rightarrow> 'w \<Rightarrow> (string, string) result \<times> 'w"
  he_parse :: "string \<Rightarrow> (string, json) result"

record 'w net =
  net_remote :: 'w
  net_sent :: "http_request list"

type_synonym ('w, 'a) agent_op = "('w net, agent_error, 'a) op"

section \<open>The client\<close>

definition DEFAULT_JSON_RPC_VERSION :: string where
  "DEFAULT_JSON_RPC_VERSION = ''2.0''"

definition DEFAULT_JSON_RPC_ID :: u8 where
  "DEFAULT_JSON_RPC_ID = 1"

definition NO_PARAMS :: json where
  "NO_PARAMS = JArr []"

record rpc_client =
  cl_url :: string
  cl_bearer_token :: "string option"

definition client_new :: "string \<Rightarrow> string option \<Rightarrow> rpc_client" where
  "client_new url bearer_token = \<lparr>cl_url = url, cl_bearer_token = bearer_token\<rparr>"

definition build_jsonrpc_request :: "string \<Rightarrow> json \<Rightarrow> (agent_error, json) result" where
  "build_jsonrpc_request meth params =
     bind_result
       (case params of
          JArr js \<Rightarrow> Inr (js \<noteq> [])
        | JObj fs \<Rightarrow> Inr (fs \<noteq> [])
        | JNull \<Rightarrow> Inr False
        | _ \<Rightarrow> Inl (Failed ''params is not an array nor an object''))
       (\<lambda>has_params.
          Inr (JObj ([(''jsonrpc'', JStr DEFAULT_JSON_RPC_VERSION),
                      (''id'', JNum (uint DEFAULT_JSON_RPC_ID)), (''method'', JStr meth)] @
                     (if has_params then [(''params'', params)] else []))))"

record 'a jsonrpc_response =
  jr_id :: u8
  jr_jsonrpc :: string
  jr_result :: "'a option"
  jr_error :: "json option"

abbreviation response_names :: "string list" where
  "response_names \<equiv> [''id'', ''jsonrpc'', ''result'', ''error'']"

definition de_response :: "'a decoder \<Rightarrow> 'a jsonrpc_response decoder" where
  "de_response de j =
     bind_result (struct_fields response_names j) (\<lambda>fs.
     bind_result (required ''id'' de_word fs) (\<lambda>i.
     bind_result (required ''jsonrpc'' de_string fs) (\<lambda>v.
     bind_result (optional ''result'' de fs) (\<lambda>r.
     bind_result (optional ''error'' de_value fs) (\<lambda>e.
     Inr \<lparr>jr_id = i, jr_jsonrpc = v, jr_result = r, jr_error = e\<rparr>)))))"

definition response_result :: "'a decoder \<Rightarrow> 'a jsonrpc_response \<Rightarrow> (agent_error, 'a) result" where
  "response_result de j =
     (case jr_error j of
        Some _ \<Rightarrow> Inl (Failed ''json_rpc error'')
      | None \<Rightarrow>
          (case jr_result j of
             Some r \<Rightarrow> Inr r
           | None \<Rightarrow> map_err Failed (de JNull)))"

definition post :: "('w, 'x) http_env_scheme \<Rightarrow> rpc_client \<Rightarrow> json \<Rightarrow> ('w, string) agent_op" where
  "post env cl body net =
     (let r = \<lparr>hr_url = cl_url cl, hr_bearer = cl_bearer_token cl, hr_body = body\<rparr>;
          (res, w) = he_post env r (net_remote net)
      in (map_err Failed res, net\<lparr>net_remote := w, net_sent := net_sent net @ [r]\<rparr>))"

definition parse_failure :: "string \<Rightarrow> string \<Rightarrow> agent_error" where
  "parse_failure text e = Failed (''cannot parse json rpc response: '' @ text @ '' due to '' @ e)"

definition read_response :: "('w, 'x) http_env_scheme \<Rightarrow> 'a decoder \<Rightarrow> string \<Rightarrow> (agent_error, 'a) result" where
  "read_response env de text =
     bind_result (map_err (parse_failure text) (bind_result (he_parse env text) (de_response de))) (\<lambda>v.
       if jr_id v \<noteq> DEFAULT_JSON_RPC_ID \<or> jr_jsonrpc v \<noteq> DEFAULT_JSON_RPC_VERSION
       then Inl (Failed ''json_rpc id or version not matching.'')
       else response_result de v)"

definition request ::
  "('w, 'x) http_env_scheme \<Rightarrow> 'a decoder \<Rightarrow> rpc_client \<Rightarrow> string \<Rightarrow> json \<Rightarrow> ('w, 'a) agent_op" where
  "request env de cl meth params =
     bind_op (lift_result (build_jsonrpc_request meth params)) (\<lambda>body.
     bind_op (post env cl body) (\<lambda>text.
     lift_result (read_response env de text)))"

text \<open>
  The task behind a subscription: it passes the messages of a websocket to a channel, whose content
  is the list that is returned, until the stream ends or fails. A message that is not JSON ends the
  task with a panic.
\<close>

fun handle_stream ::
  "('w, 'x) http_env_scheme \<Rightarrow> (string, string) result list \<Rightarrow> json list \<times> (agent_error, unit) result" where
  "handle_stream env [] = ([], Inr ())"
| "handle_stream env (Inl e # msgs) = ([], Inr ())"
| "handle_stream env (Inr msg # msgs) =
     (case he_parse env msg of
        Inl e \<Rightarrow> ([], Inl (Panicked e))
      | Inr v \<Rightarrow> (let (vs, r) = handle_stream env msgs in (v # vs, r)))"

text \<open>
  Opening a subscription. The libraries for web sockets are parameters: they make a request from a URL
  and a header value from a text, connect, and send a message. What is returned is the stream whose
  messages \<open>handle_stream\<close> passes on.
\<close>

record ('w, 'rq, 'hv, 'ws) socket_env =
  so_client_request :: "string \<Rightarrow> (string, 'rq) result"
  so_header_value :: "string \<Rightarrow> (string, 'hv) result"
  so_connect :: "'rq \<Rightarrow> 'hv option \<Rightarrow> 'w \<Rightarrow> (string, 'ws) result \<times> 'w"
  so_send :: "'ws \<Rightarrow> json \<Rightarrow> 'w \<Rightarrow> (string, unit) result \<times> 'w"

definition remote_op :: "('w \<Rightarrow> (string, 'a) result \<times> 'w) \<Rightarrow> ('w, 'a) agent_op" where
  "remote_op f net = (let (r, w) = f (net_remote net) in (map_err Failed r, net\<lparr>net_remote := w\<rparr>))"

definition subscribe ::
  "('w, 'rq, 'hv, 'ws, 'x) socket_env_scheme \<Rightarrow> rpc_client \<Rightarrow> string \<Rightarrow> ('w, 'ws) agent_op" where
  "subscribe env cl meth =
     bind_op (lift_result (map_err Failed (so_client_request env (cl_url cl)))) (\<lambda>rq.
     bind_op (lift_result (case cl_bearer_token cl of
                None \<Rightarrow> Inr None
              | Some token \<Rightarrow> map_err Failed (map_sum id Some (so_header_value env (''Bearer '' @ token))))) (\<lambda>header.
     bind_op (remote_op (so_connect env rq header)) (\<lambda>ws.
     bind_op (lift_result (build_jsonrpc_request meth NO_PARAMS)) (\<lambda>body.
     bind_op (remote_op (so_send env ws body)) (\<lambda>_.
     lift_result (Inr ws))))))"

section \<open>What an operation sends\<close>

text \<open>\<open>sends P m\<close>: whatever the remote side answers, \<open>m\<close> sends only requests with \<open>P\<close>.\<close>

definition sends :: "(http_request \<Rightarrow> bool) \<Rightarrow> ('w, 'a) agent_op \<Rightarrow> bool" where
  "sends P m \<longleftrightarrow> (\<forall>net. \<exists>new. net_sent (snd (m net)) = net_sent net @ new \<and> list_all P new)"

text \<open>The method of the request, and the address it goes to.\<close>

definition hr_method :: "http_request \<Rightarrow> string" where
  "hr_method r =
     (case hr_body r of
        JObj fs \<Rightarrow> (case values_of ''method'' fs of [JStr m] \<Rightarrow> m | _ \<Rightarrow> [])
      | _ \<Rightarrow> [])"

definition sent_by :: "rpc_client \<Rightarrow> http_request \<Rightarrow> bool" where
  "sent_by cl r \<longleftrightarrow> hr_url r = cl_url cl \<and> hr_bearer r = cl_bearer_token cl"

text \<open>An instance of the parameters: a remote side that answers with a list of prepared texts.\<close>

fun scripted_post :: "http_request \<Rightarrow> string list \<Rightarrow> (string, string) result \<times> string list" where
  "scripted_post r [] = (Inl ''connection refused'', [])"
| "scripted_post r (t # ts) = (Inr t, ts)"

definition sample_http :: "(string \<Rightarrow> json) \<Rightarrow> string list http_env" where
  "sample_http parse = \<lparr>he_post = scripted_post, he_parse = (\<lambda>t. Inr (parse t))\<rparr>"

definition reply :: "json \<Rightarrow> json" where
  "reply j = JObj [(''jsonrpc'', JStr ''2.0''), (''id'', JNum 1), (''result'', j)]"

section \<open>Lemmas\<close>

lemma collect_results_Inl:
  "collect_results f xs = Inl e \<Longrightarrow> \<exists>x \<in> set xs. f x = Inl e"
  by (induction xs) (auto simp: bind_result_def split: sum.splits)

lemma values_of_simps [simp]:
  "values_of k [] = []"
  "values_of k ((k', v) # fs) = (if k' = k then v # values_of k fs else values_of k fs)"
  by (simp_all add: values_of_def)

lemma values_of_append [simp]: "values_of k (fs @ gs) = values_of k fs @ values_of k gs"
  by (simp add: values_of_def)

lemma map_sum_Inr_iff [simp]: "map_sum f g r = Inr b \<longleftrightarrow> (\<exists>a. r = Inr a \<and> b = g a)"
  by (cases r) auto

lemma de_option_Inr_iff:
  "de_option de j = Inr r \<longleftrightarrow> (if j = JNull then r = None else \<exists>a. de j = Inr a \<and> r = Some a)"
  by (cases j) auto

lemma de_int_Inr [simp]: "de_int lo hi j = Inr n \<longleftrightarrow> j = JNum n \<and> lo \<le> n \<and> n \<le> hi"
  by (cases j) auto

lemma sends_Inl [sends_intros]: "sends P (lift_result r)"
  by (simp add: sends_def)

lemma sends_bind [sends_intros]:
  assumes "sends P m" and "\<And>a. sends P (f a)"
  shows "sends P (bind_op m f)"
  unfolding sends_def
proof
  fix net
  obtain new where new: "net_sent (snd (m net)) = net_sent net @ new" "list_all P new"
    using assms(1) by (auto simp: sends_def)
  show "\<exists>new. net_sent (snd (bind_op m f net)) = net_sent net @ new \<and> list_all P new"
  proof (cases "m net")
    case (Pair r net')
    show ?thesis
    proof (cases r)
      case (Inr a)
      moreover obtain new' where "net_sent (snd (f a net')) = net_sent net' @ new'" "list_all P new'"
        using assms(2) by (auto simp: sends_def)
      ultimately show ?thesis
        using Pair new by (auto simp: bind_op_def)
    qed (use Pair new in \<open>auto simp: bind_op_def\<close>)
  qed
qed

lemma sends_bind_result:
  assumes "sends P m" and "\<And>a net net'. m net = (Inr a, net') \<Longrightarrow> sends P (f a)"
  shows "sends P (bind_op m f)"
proof -
  define f' where "f' a = (if \<exists>net net'. m net = (Inr a, net') then f a else lift_result (Inl undefined))" for a
  have "bind_op m f = bind_op m f'"
    by (rule ext) (auto simp: bind_op_def f'_def split: prod.splits sum.splits)
  moreover have "sends P (bind_op m f')"
    using assms by (intro sends_bind) (auto simp: f'_def sends_Inl)
  ultimately show ?thesis
    by simp
qed

lemma sends_each [sends_intros]: "(\<And>x. x \<in> set xs \<Longrightarrow> sends P (f x)) \<Longrightarrow> sends P (each_op f xs)"
proof (induction xs)
  case (Cons x xs)
  have "each_op f (x # xs) = bind_op (f x) (\<lambda>_. each_op f xs)"
    by (rule ext) simp
  with Cons show ?case
    by (auto intro: sends_bind)
qed (simp add: sends_def)

lemma sends_if [sends_intros]: "(b \<Longrightarrow> sends P m) \<Longrightarrow> (\<not> b \<Longrightarrow> sends P m') \<Longrightarrow> sends P (if b then m else m')"
  by simp

lemma sends_case_option [sends_intros]:
  "(x = None \<Longrightarrow> sends P m) \<Longrightarrow> (\<And>a. x = Some a \<Longrightarrow> sends P (f a)) \<Longrightarrow> sends P (case x of None \<Rightarrow> m | Some a \<Rightarrow> f a)"
  by (cases x) simp_all

lemma sends_mono: "sends P m \<Longrightarrow> (\<And>r. P r \<Longrightarrow> Q r) \<Longrightarrow> sends Q m"
  unfolding sends_def by (metis list.pred_mono_strong)

lemma build_jsonrpc_request_method:
  "build_jsonrpc_request meth params = Inr body \<Longrightarrow> hr_method \<lparr>hr_url = u, hr_bearer = b, hr_body = body\<rparr> = meth"
  by (auto simp: build_jsonrpc_request_def hr_method_def)

text \<open>A request sends at most one message, with its method, to its node and with its token.\<close>

lemma sends_request [sends_intros]:
  assumes "\<And>r. sent_by cl r \<Longrightarrow> hr_method r = meth \<Longrightarrow>
    build_jsonrpc_request meth params = Inr (hr_body r) \<Longrightarrow> P r"
  shows "sends P (request env de cl meth params)"
proof (cases "build_jsonrpc_request meth params")
  case (Inl e)
  then show ?thesis
    by (simp add: request_def sends_Inl)
next
  case (Inr body)
  have "P \<lparr>hr_url = cl_url cl, hr_bearer = cl_bearer_token cl, hr_body = body\<rparr>"
    using assms Inr build_jsonrpc_request_method by (auto simp: sent_by_def)
  then have "sends P (post env cl body)"
    by (auto simp: sends_def post_def Let_def split: prod.splits)
  then show ?thesis
    unfolding request_def Inr by (auto intro!: sends_intros)
qed

text \<open>How the answer to a request is read.\<close>

lemma read_response_Inr_iff:
  "read_response env de text = Inr a \<longleftrightarrow>
     (\<exists>j v. he_parse env text = Inr j \<and> de_response de j = Inr v \<and>
        jr_id v = DEFAULT_JSON_RPC_ID \<and> jr_jsonrpc v = DEFAULT_JSON_RPC_VERSION \<and>
        response_result de v = Inr a)"
  by (auto simp: read_response_def split: if_splits)

lemma request_Inr_iff:
  "request env de cl meth params net = (Inr a, net') \<longleftrightarrow>
     (\<exists>body text. build_jsonrpc_request meth params = Inr body \<and> post env cl body net = (Inr text, net') \<and>
        read_response env de text = Inr a)"
  by (auto simp: request_def)

lemma response_result_Inr_iff:
  "response_result de v = Inr a \<longleftrightarrow>
     jr_error v = None \<and> (jr_result v = Some a \<or> jr_result v = None \<and> de JNull = Inr a)"
  by (auto simp: response_result_def split: option.splits)

lemma required_Inr_iff: "required k de fs = Inr a \<longleftrightarrow> (\<exists>j. values_of k fs = [j] \<and> de j = Inr a)"
  by (auto simp: required_def split: list.splits)

lemma optional_Inr_iff:
  "optional k de fs = Inr r \<longleftrightarrow>
     values_of k fs \<in> {[], [JNull]} \<and> r = None \<or>
     (\<exists>j a. values_of k fs = [j] \<and> j \<noteq> JNull \<and> de j = Inr a \<and> r = Some a)"
  by (auto simp: optional_def de_option_Inr_iff split: list.splits if_splits)

lemma de_response_Inr_iff:
  "de_response de j = Inr v \<longleftrightarrow>
     (\<exists>fs. struct_fields response_names j = Inr fs \<and> required ''id'' de_word fs = Inr (jr_id v) \<and>
        required ''jsonrpc'' de_string fs = Inr (jr_jsonrpc v) \<and>
        optional ''result'' de fs = Inr (jr_result v) \<and> optional ''error'' de_value fs = Inr (jr_error v))"
  by (auto simp: de_response_def)

lemma read_response_reply:
  "he_parse env t = Inr (reply j) \<Longrightarrow> j \<noteq> JNull \<Longrightarrow> read_response env de t = map_err (parse_failure t) (de j)"
  by (cases "de j"; cases j)
    (simp_all add: read_response_def reply_def de_response_def required_def
      optional_def response_result_def de_word_def DEFAULT_JSON_RPC_ID_def DEFAULT_JSON_RPC_VERSION_def)

lemma de_word_Inr: "de_word j = Inr (n :: 'a::len word) \<longleftrightarrow> j = JNum (uint n)"
proof
  assume "de_word j = Inr n"
  then obtain k where "j = JNum k" "0 \<le> k" "k \<le> 2 ^ LENGTH('a) - 1" "n = of_int k"
    by (auto simp: de_word_def)
  then show "j = JNum (uint n)"
    by (simp add: uint_word_of_int)
next
  have "uint n < 2 ^ LENGTH('a)"
    using uint_lt2p [of n] by simp
  then show "j = JNum (uint n) \<Longrightarrow> de_word j = Inr n"
    by (auto simp: de_word_def)
qed

lemma post_Inr:
  "post env cl body net = (Inr text, net') \<Longrightarrow>
     fst (he_post env \<lparr>hr_url = cl_url cl, hr_bearer = cl_bearer_token cl, hr_body = body\<rparr> (net_remote net)) = Inr text \<and>
     net_sent net' = net_sent net @ [\<lparr>hr_url = cl_url cl, hr_bearer = cl_bearer_token cl, hr_body = body\<rparr>]"
  by (auto simp: post_def Let_def split: prod.splits)

section \<open>Properties\<close>



end
