(* ===== verification/Lotus_Types.thy ===== *)
theory Lotus_Types
  imports Json_Rpc "HOL-Library.List_Lexorder" "HOL-Library.Char_ord"
begin

text \<open>
  The types that the agent exchanges with the nodes, from \<^verbatim>\<open>src/src/lotus/message/*.rs\<close> and
  \<^verbatim>\<open>src/src/lotus/json.rs\<close>, with their JSON encodings.

  Content identifiers, addresses, subnet identifiers and cross-net addresses belong to other crates:
  they are type variables, and what the agent calls of them is collected in \<open>agent_env\<close>, together
  with the CBOR, base64, TOML and URL codecs and the numbers of the actor methods. Token amounts are integers
  (in atto), epochs are integers in the range of \<open>i64\<close>.
\<close>

section \<open>Actor types\<close>

text \<open>The parts of the actor crates that the agent builds or takes apart.\<close>

record ('cid, 'sid) child_check =
  cch_source :: 'sid
  cch_checks :: "'cid list"

record 'ipc storable_msg =
  sm_from :: 'ipc
  sm_to :: 'ipc
  sm_method :: u64
  sm_params :: bytes
  sm_value :: int
  sm_nonce :: u64

record 'ipc cross_msg =
  xm_msg :: "'ipc storable_msg"
  xm_wrapped :: bool

record 'ipc batch_cross_msgs =
  bm_cross_msgs :: "'ipc cross_msg list option"
  bm_fee :: int

record ('cid, 'sid, 'ipc) check_data =
  cd_source :: 'sid
  cd_proof :: bytes
  cd_epoch :: int
  cd_prev_check :: 'cid
  cd_children :: "('cid, 'sid) child_check list"
  cd_cross_msgs :: "'ipc batch_cross_msgs"

record ('cid, 'sid, 'ipc) bottom_up_checkpoint =
  bu_data :: "('cid, 'sid, 'ipc) check_data"
  bu_sig :: bytes

record 'ipc top_down_checkpoint =
  td_epoch :: int
  td_top_down_msgs :: "'ipc cross_msg list"

datatype consensus_type = Mir

record 'sid construct_params =
  cp_parent :: 'sid
  cp_name :: string
  cp_ipc_gateway_addr :: u64
  cp_consensus :: consensus_type
  cp_min_validator_stake :: int
  cp_min_validators :: u64
  cp_bottomup_check_period :: int
  cp_topdown_check_period :: int
  cp_genesis :: bytes

text \<open>What is CBOR-encoded into the parameters of a message.\<close>

datatype ('cid, 'addr, 'sid, 'ipc) payload =
    Construct_Params "'sid construct_params"
  | Exec_Params 'cid bytes
  | Join_Params string
  | Fund_Params 'sid
  | Propagate_Params 'cid
  | Whitelist_Params 'cid "'addr list"
  | Top_Down "'ipc top_down_checkpoint"
  | Bottom_Up "('cid, 'sid, 'ipc) bottom_up_checkpoint"

datatype actor_method =
    Init_Exec | Send | Join | Leave | Kill | SubmitCheckpoint | SetValidatorNetAddr
  | Fund | Release | Propagate | WhiteListPropagator | SubmitTopDownCheckpoint

record ('w, 'cid, 'addr, 'sid, 'ipc) agent_env = "'w http_env" +
  ae_cid_to_string :: "'cid \<Rightarrow> string"
  ae_cid_from_str :: "string \<Rightarrow> 'cid option"
  ae_cid_to_bytes :: "'cid \<Rightarrow> bytes"
  ae_cid_default :: 'cid
  ae_addr_to_string :: "'addr \<Rightarrow> string"
  ae_addr_from_str :: "string \<Rightarrow> (string, 'addr) result"
  ae_addr_id :: "'addr \<Rightarrow> (string, u64) result"
  ae_init_actor :: 'addr
  ae_addr_default :: 'addr
  ae_sid_to_string :: "'sid \<Rightarrow> string"
  ae_sid_from_str :: "string \<Rightarrow> (string, 'sid) result"
  ae_sid_parent :: "'sid \<Rightarrow> 'sid option"
  ae_subnet_actor :: "'sid \<Rightarrow> 'addr"
  ae_new_from_parent :: "'sid \<Rightarrow> 'addr \<Rightarrow> 'sid"
  ae_ipc_new :: "'sid \<Rightarrow> 'addr \<Rightarrow> (string, 'ipc) result"
  ae_ipc_to_string :: "'ipc \<Rightarrow> (string, string) result"
  ae_amount_to_json :: "int \<Rightarrow> json"
  ae_amount_to_string :: "int \<Rightarrow> string"
  ae_de_cid :: "'cid decoder"
  ae_cid_to_json :: "'cid \<Rightarrow> json"
  ae_int_to_string :: "int \<Rightarrow> string"
  ae_int_from_str :: "string \<Rightarrow> (string, int) result"
  ae_b64_encode :: "bytes \<Rightarrow> string"
  ae_b64_decode :: "string \<Rightarrow> (string, bytes) result"
  ae_method_num :: "actor_method \<Rightarrow> u64"
  ae_manifest_id :: string
  ae_checkpoint_new :: "'sid \<Rightarrow> int \<Rightarrow> ('cid, 'sid, 'ipc) bottom_up_checkpoint"
  ae_from_whole :: "u64 \<Rightarrow> int"
  ae_cbor :: "('cid, 'addr, 'sid, 'ipc) payload \<Rightarrow> (string, bytes) result"
  ae_batch_default :: "'ipc batch_cross_msgs"
  ae_de_checkpoint :: "bytes \<Rightarrow> (string, ('cid, 'sid, 'ipc) bottom_up_checkpoint) result"
  ae_de_cross_msg :: "bytes \<Rightarrow> (string, 'ipc cross_msg) result"
  ae_de_exec_return :: "bytes \<Rightarrow> (string, 'addr) result"
  ae_de_status :: "json decoder"
  ae_toml :: "string \<Rightarrow> (string, json) result"
  ae_url :: "string \<Rightarrow> (string, string) result"
  ae_socket_addr :: "string \<Rightarrow> (string, string) result"
  ae_string_order :: "string hash_order"
  ae_sid_order :: "'sid hash_order"

section \<open>Content identifiers\<close>

record cid_map =
  cm_cid :: "string option"

definition cid_of_map where
  "cid_of_map env m =
     (case cm_cid m of
        None \<Rightarrow> Inl (Failed ''cid not found'')
      | Some s \<Rightarrow>
          (case ae_cid_from_str env s of
             None \<Rightarrow> Inl (Panicked ''invalid cid str'')
           | Some c \<Rightarrow> Inr c))"

definition map_of_cid where
  "map_of_cid env c = \<lparr>cm_cid = Some (ae_cid_to_string env c)\<rparr>"

definition map_of_cid_option where
  "map_of_cid_option env c =
     (case c of None \<Rightarrow> \<lparr>cm_cid = None\<rparr> | Some c \<Rightarrow> \<lparr>cm_cid = Some (ae_cid_to_string env c)\<rparr>)"

definition cid_map_to_json :: "cid_map \<Rightarrow> json" where
  "cid_map_to_json m = JObj (case cm_cid m of None \<Rightarrow> [] | Some s \<Rightarrow> [(''/'', JStr s)])"

definition de_cid_map :: "cid_map decoder" where
  "de_cid_map j =
     bind_result (struct_fields [''/''] j) (\<lambda>fs.
     bind_result (optional ''/'' de_string fs) (\<lambda>c. Inr \<lparr>cm_cid = c\<rparr>))"

section \<open>Subnet identifiers, addresses and amounts\<close>

definition subnet_id_to_json where
  "subnet_id_to_json env sid =
     (case ae_sid_parent env sid of
        None \<Rightarrow> Inl (Panicked ''no parent found'')
      | Some parent \<Rightarrow>
          Inr (JObj [(''Parent'', JStr (ae_sid_to_string env parent)),
                     (''Actor'', JStr (ae_addr_to_string env (ae_subnet_actor env sid)))]))"

text \<open>
  The loop over the entries of the map: later entries override earlier ones, other keys are skipped.
  The code reads the raw text between the quotes, which is the string as long as nothing is escaped.
\<close>

fun subnet_id_entries where
  "subnet_id_entries env [] (parent, actor) = Inr (parent, actor)"
| "subnet_id_entries env ((k, v) # fs) (parent, actor) =
     (if k = ''Parent'' then
        (case v of
           JStr s \<Rightarrow> bind_result (ae_sid_from_str env s) (\<lambda>p. subnet_id_entries env fs (Some p, actor))
         | _ \<Rightarrow> Inl ''invalid parent'')
      else if k = ''Actor'' then
        (case v of
           JStr s \<Rightarrow> bind_result (ae_addr_from_str env s) (\<lambda>a. subnet_id_entries env fs (parent, Some a))
         | _ \<Rightarrow> Inl ''invalid actor'')
      else subnet_id_entries env fs (parent, actor))"

definition deserialize_subnet_id_from_map where
  "deserialize_subnet_id_from_map env j =
     bind_result (fields_of j) (\<lambda>fs.
     bind_result (subnet_id_entries env fs (None, None)) (\<lambda>(parent, actor).
       case (parent, actor) of
         (Some p, Some a) \<Rightarrow> Inr (ae_new_from_parent env p a)
       | _ \<Rightarrow> Inl ''parent or actor not present''))"

definition lotus_address_from_str where
  "lotus_address_from_str env j = bind_result (de_string j) (ae_addr_from_str env)"

definition deserialize_ipc_address_from_map where
  "deserialize_ipc_address_from_map env j =
     bind_result (struct_fields [''SubnetId'', ''RawAddress''] j) (\<lambda>fs.
     bind_result (required ''SubnetId'' (deserialize_subnet_id_from_map env) fs) (\<lambda>sid.
     bind_result (required ''RawAddress'' (lotus_address_from_str env) fs) (\<lambda>addr.
     ae_ipc_new env sid addr)))"

definition deserialize_token_amount_from_str where
  "deserialize_token_amount_from_str env j = bind_result (de_string j) (ae_int_from_str env)"

definition serialize_subnet_id_to_str where
  "serialize_subnet_id_to_str env sid = JStr (ae_sid_to_string env sid)"

definition serialize_token_amount_to_atto where
  "serialize_token_amount_to_atto env amount = JStr (ae_int_to_string env amount)"

section \<open>Responses of the nodes\<close>

record chain_head_response =
  ch_cids :: "cid_map list"
  ch_blocks :: "json list"
  ch_height :: u64

definition de_chain_head :: "chain_head_response decoder" where
  "de_chain_head j =
     bind_result (struct_fields [''Cids'', ''Blocks'', ''Height''] j) (\<lambda>fs.
     bind_result (required ''Cids'' (de_list de_cid_map) fs) (\<lambda>cids.
     bind_result (required ''Blocks'' (de_list de_value) fs) (\<lambda>blocks.
     bind_result (required ''Height'' de_word fs) (\<lambda>height.
     Inr \<lparr>ch_cids = cids, ch_blocks = blocks, ch_height = height\<rparr>))))"

record voting =
  vo_genesis_epoch :: int
  vo_last_voting_executed :: int

definition de_voting :: "voting decoder" where
  "de_voting j =
     bind_result (struct_fields [''GenesisEpoch'', ''LastVotingExecuted''] j) (\<lambda>fs.
     bind_result (required ''GenesisEpoch'' de_i64 fs) (\<lambda>g.
     bind_result (required ''LastVotingExecuted'' de_i64 fs) (\<lambda>l.
     Inr \<lparr>vo_genesis_epoch = g, vo_last_voting_executed = l\<rparr>)))"

record gateway_state =
  gs_bottom_up_check_period :: int
  gs_top_down_check_period :: int
  gs_applied_topdown_nonce :: u64
  gs_top_down_checkpoint_voting :: voting
  gs_initialized :: bool

definition de_gateway_state :: "gateway_state decoder" where
  "de_gateway_state j =
     bind_result (struct_fields [''BottomUpCheckPeriod'', ''TopDownCheckPeriod'', ''AppliedTopdownNonce'', ''TopDownCheckpointVoting'', ''Initialized''] j) (\<lambda>fs.
     bind_result (required ''BottomUpCheckPeriod'' de_i64 fs) (\<lambda>bu.
     bind_result (required ''TopDownCheckPeriod'' de_i64 fs) (\<lambda>td.
     bind_result (required ''AppliedTopdownNonce'' de_word fs) (\<lambda>nonce.
     bind_result (required ''TopDownCheckpointVoting'' de_voting fs) (\<lambda>v.
     bind_result (required ''Initialized'' de_bool fs) (\<lambda>init.
     Inr \<lparr>gs_bottom_up_check_period = bu, gs_top_down_check_period = td,
          gs_applied_topdown_nonce = nonce, gs_top_down_checkpoint_voting = v,
          gs_initialized = init\<rparr>))))))"

record validator =
  va_addr :: string
  va_net_addr :: string
  va_weight :: string

definition de_validator :: "validator decoder" where
  "de_validator j =
     bind_result (struct_fields [''addr'', ''net_addr'', ''weight''] j) (\<lambda>fs.
     bind_result (required ''addr'' de_string fs) (\<lambda>a.
     bind_result (required ''net_addr'' de_string fs) (\<lambda>n.
     bind_result (required ''weight'' de_string fs) (\<lambda>w.
     Inr \<lparr>va_addr = a, va_net_addr = n, va_weight = w\<rparr>))))"

record validator_set =
  vs_validators :: "validator list option"
  vs_configuration_number :: u64

definition de_validator_set :: "validator_set decoder" where
  "de_validator_set j =
     bind_result (struct_fields [''validators'', ''configuration_number''] j) (\<lambda>fs.
     bind_result (optional ''validators'' (de_list de_validator) fs) (\<lambda>v.
     bind_result (required ''configuration_number'' de_word fs) (\<lambda>n.
     Inr \<lparr>vs_validators = v, vs_configuration_number = n\<rparr>)))"

record subnet_actor_state =
  sa_bottom_up_check_period :: int
  sa_validator_set :: validator_set
  sa_min_validators :: u64
  sa_bottom_up_checkpoint_voting :: voting

definition de_subnet_actor_state :: "subnet_actor_state decoder" where
  "de_subnet_actor_state j =
     bind_result (struct_fields [''BottomUpCheckPeriod'', ''ValidatorSet'', ''MinValidators'', ''BottomUpCheckpointVoting''] j) (\<lambda>fs.
     bind_result (required ''BottomUpCheckPeriod'' de_i64 fs) (\<lambda>bu.
     bind_result (required ''ValidatorSet'' de_validator_set fs) (\<lambda>vs.
     bind_result (required ''MinValidators'' de_word fs) (\<lambda>mv.
     bind_result (required ''BottomUpCheckpointVoting'' de_voting fs) (\<lambda>v.
     Inr \<lparr>sa_bottom_up_check_period = bu, sa_validator_set = vs, sa_min_validators = mv,
          sa_bottom_up_checkpoint_voting = v\<rparr>)))))"

record 'sid subnet_info =
  si_id :: 'sid
  si_stake :: int
  si_circ_supply :: int
  si_status :: json

definition de_subnet_info where
  "de_subnet_info env j =
     bind_result (struct_fields [''ID'', ''Stake'', ''CircSupply'', ''Status''] j) (\<lambda>fs.
     bind_result (required ''ID'' (deserialize_subnet_id_from_map env) fs) (\<lambda>i.
     bind_result (required ''Stake'' (deserialize_token_amount_from_str env) fs) (\<lambda>s.
     bind_result (required ''CircSupply'' (deserialize_token_amount_from_str env) fs) (\<lambda>c.
     bind_result (required ''Status'' (ae_de_status env) fs) (\<lambda>st.
     Inr \<lparr>si_id = i, si_stake = s, si_circ_supply = c, si_status = st\<rparr>)))))"

definition subnet_info_to_json where
  "subnet_info_to_json env si =
     JObj [(''id'', serialize_subnet_id_to_str env (si_id si)),
           (''stake'', serialize_token_amount_to_atto env (si_stake si)),
           (''circ_supply'', serialize_token_amount_to_atto env (si_circ_supply si)),
           (''status'', si_status si)]"

record receipt =
  rc_exit_code :: u32
  rc_result :: "string option"
  rc_gas_used :: u64

definition de_receipt :: "receipt decoder" where
  "de_receipt j =
     bind_result (struct_fields [''ExitCode'', ''Return'', ''GasUsed''] j) (\<lambda>fs.
     bind_result (required ''ExitCode'' de_word fs) (\<lambda>e.
     bind_result (optional ''Return'' de_string fs) (\<lambda>r.
     bind_result (required ''GasUsed'' de_word fs) (\<lambda>g.
     Inr \<lparr>rc_exit_code = e, rc_result = r, rc_gas_used = g\<rparr>))))"

text \<open>\<open>parse_result_into\<close> at the only type it is used with, the result of creating an actor.\<close>

definition parse_result_into where
  "parse_result_into env rc =
     (case rc_result rc of
        None \<Rightarrow> Inr (ae_addr_default env)
      | Some s \<Rightarrow>
          bind_result (map_err (\<lambda>_. Failed ''cannot decode return string'') (ae_b64_decode env s)) (\<lambda>bs.
            map_err (\<lambda>_. Failed ''cannot cbor deserialize return data'') (ae_de_exec_return env bs)))"

record state_wait_response =
  sw_message :: cid_map
  sw_receipt :: receipt
  sw_tip_set :: "cid_map list"
  sw_height :: u64

definition de_state_wait :: "state_wait_response decoder" where
  "de_state_wait j =
     bind_result (struct_fields [''Message'', ''Receipt'', ''TipSet'', ''Height''] j) (\<lambda>fs.
     bind_result (required ''Message'' de_cid_map fs) (\<lambda>m.
     bind_result (required ''Receipt'' de_receipt fs) (\<lambda>r.
     bind_result (required ''TipSet'' (de_list de_cid_map) fs) (\<lambda>t.
     bind_result (required ''Height'' de_word fs) (\<lambda>h.
     Inr \<lparr>sw_message = m, sw_receipt = r, sw_tip_set = t, sw_height = h\<rparr>)))))"

record 'st read_state_response =
  rs_balance :: string
  rs_code :: cid_map
  rs_state :: 'st

definition de_read_state :: "'st decoder \<Rightarrow> 'st read_state_response decoder" where
  "de_read_state de j =
     bind_result (struct_fields [''Balance'', ''Code'', ''State''] j) (\<lambda>fs.
     bind_result (required ''Balance'' de_string fs) (\<lambda>b.
     bind_result (required ''Code'' de_cid_map fs) (\<lambda>c.
     bind_result (required ''State'' de fs) (\<lambda>st.
     Inr \<lparr>rs_balance = b, rs_code = c, rs_state = st\<rparr>))))"

record mpool_push_response =
  mr_to :: string
  mr_from :: string
  mr_value :: string
  mr_method :: u64
  mr_params :: string
  mr_nonce :: u64
  mr_gas_limit :: u64
  mr_gas_fee_cap :: string
  mr_gas_premium :: string
  mr_version :: u16
  mr_cid :: cid_map

definition de_mpool_push_inner :: "mpool_push_response decoder" where
  "de_mpool_push_inner j =
     bind_result (struct_fields [''To'', ''From'', ''Value'', ''Method'', ''Params'', ''Nonce'', ''GasLimit'', ''GasFeeCap'', ''GasPremium'', ''Version'', ''CID''] j) (\<lambda>fs.
     bind_result (required ''To'' de_string fs) (\<lambda>to.
     bind_result (required ''From'' de_string fs) (\<lambda>from.
     bind_result (required ''Value'' de_string fs) (\<lambda>value.
     bind_result (required ''Method'' de_word fs) (\<lambda>method.
     bind_result (required ''Params'' de_string fs) (\<lambda>params.
     bind_result (required ''Nonce'' de_word fs) (\<lambda>nonce.
     bind_result (required ''GasLimit'' de_word fs) (\<lambda>gas_limit.
     bind_result (required ''GasFeeCap'' de_string fs) (\<lambda>gas_fee_cap.
     bind_result (required ''GasPremium'' de_string fs) (\<lambda>gas_premium.
     bind_result (required ''Version'' de_word fs) (\<lambda>version.
     bind_result (required ''CID'' de_cid_map fs) (\<lambda>cid.
     Inr \<lparr>mr_to = to, mr_from = from, mr_value = value, mr_method = method, mr_params = params,
          mr_nonce = nonce, mr_gas_limit = gas_limit, mr_gas_fee_cap = gas_fee_cap,
          mr_gas_premium = gas_premium, mr_version = version, mr_cid = cid\<rparr>))))))))))))"

definition de_mpool_push :: "(mpool_push_response \<times> cid_map) decoder" where
  "de_mpool_push j =
     bind_result (struct_fields [''Message'', ''CID''] j) (\<lambda>fs.
     bind_result (required ''Message'' de_mpool_push_inner fs) (\<lambda>m.
     bind_result (required ''CID'' de_cid_map fs) (\<lambda>c. Inr (m, c))))"

definition mpool_response_cid where
  "mpool_response_cid env r = cid_of_map env (mr_cid r)"

definition mpool_response_to where
  "mpool_response_to env r = map_err Failed (ae_addr_from_str env (mr_to r))"

definition mpool_response_from where
  "mpool_response_from env r = map_err Failed (ae_addr_from_str env (mr_from r))"

section \<open>Messages\<close>

record ('cid, 'addr) mpool_push_message =
  mp_to :: 'addr
  mp_from :: 'addr
  mp_value :: int
  mp_method :: u64
  mp_params :: bytes
  mp_nonce :: "u64 option"
  mp_gas_limit :: "int option"
  mp_gas_fee_cap :: "int option"
  mp_gas_premium :: "int option"
  mp_cid :: "'cid option"
  mp_version :: "u16 option"
  mp_max_fee :: "int option"

definition mpool_push_message_new ::
  "'addr \<Rightarrow> 'addr \<Rightarrow> u64 \<Rightarrow> bytes \<Rightarrow> ('cid, 'addr) mpool_push_message" where
  "mpool_push_message_new to from method params =
     \<lparr>mp_to = to, mp_from = from, mp_value = 0, mp_method = method, mp_params = params,
      mp_nonce = None, mp_gas_limit = None, mp_gas_fee_cap = None, mp_gas_premium = None,
      mp_cid = None, mp_version = None, mp_max_fee = None\<rparr>"

section \<open>Wallet keys\<close>

datatype wallet_key_type = BLS | Secp256k1 | Secp256k1Ledger

fun key_type_as_ref :: "wallet_key_type \<Rightarrow> string" where
  "key_type_as_ref BLS = ''bls''"
| "key_type_as_ref Secp256k1 = ''secp256k1''"
| "key_type_as_ref Secp256k1Ledger = ''secp256k1-ledger''"

definition key_type_from_str :: "string \<Rightarrow> (string, wallet_key_type) result" where
  "key_type_from_str s =
     (if s = ''bls'' then Inr BLS
      else if s = ''secp256k1'' then Inr Secp256k1
      else if s = ''secp256k1-ledger'' then Inr Secp256k1Ledger
      else Inl ''Matching variant not found'')"

section \<open>Laws of the external types\<close>

text \<open>
  What the round trips rely on: printing identifiers, addresses and amounts and parsing them again is
  the identity, and a subnet identifier is its parent together with its actor.
\<close>

definition codec_roundtrips where
  "codec_roundtrips env \<longleftrightarrow>
     (\<forall>c. ae_cid_from_str env (ae_cid_to_string env c) = Some c) \<and>
     (\<forall>a. ae_addr_from_str env (ae_addr_to_string env a) = Inr a) \<and>
     (\<forall>s. ae_sid_from_str env (ae_sid_to_string env s) = Inr s) \<and>
     (\<forall>n. ae_int_from_str env (ae_int_to_string env n) = Inr n) \<and>
     (\<forall>bs. ae_b64_decode env (ae_b64_encode env bs) = Inr bs)"

definition subnet_id_laws where
  "subnet_id_laws env \<longleftrightarrow>
     (\<forall>s p. ae_sid_parent env s = Some p \<longrightarrow> ae_new_from_parent env p (ae_subnet_actor env s) = s)"

text \<open>\<open>TokenAmount::from_whole\<close>: one FIL is \<open>10 ^ 18\<close> atto.\<close>

definition token_precision where
  "token_precision env \<longleftrightarrow> (\<forall>n. ae_from_whole env n = uint n * 10 ^ 18)"

text \<open>\<open>BottomUpCheckpoint::new\<close>: a checkpoint of the given subnet and epoch.\<close>

definition checkpoint_new_laws where
  "checkpoint_new_laws env \<longleftrightarrow>
     (\<forall>sid epoch. cd_source (bu_data (ae_checkpoint_new env sid epoch)) = sid \<and>
        cd_epoch (bu_data (ae_checkpoint_new env sid epoch)) = epoch)"

section \<open>An instance of the parameters\<close>

text \<open>
  Addresses and subnets are numbered: address \<open>n\<close> prints as \<open>n\<close> letters, a subnet is the list of the
  actors on its path. Amounts print in decimal. The remote side is a list of prepared answers, and
  \<open>parse\<close> gives the values of the texts.
\<close>

function show_nat :: "nat \<Rightarrow> string" where
  "show_nat n = (if n < 10 then [char_of (48 + n)] else show_nat (n div 10) @ [char_of (48 + n mod 10)])"
  by auto
termination
  by (relation "measure id") auto

declare show_nat.simps [simp del]

definition read_nat :: "string \<Rightarrow> nat" where
  "read_nat s = foldl (\<lambda>acc c. acc * 10 + (of_char c - 48)) 0 s"

definition show_int :: "int \<Rightarrow> string" where
  "show_int n = (if n < 0 then CHR ''-'' # show_nat (nat (- n)) else show_nat (nat n))"

definition read_int :: "string \<Rightarrow> int" where
  "read_int s = (case s of c # cs \<Rightarrow> if c = CHR ''-'' then - int (read_nat cs) else int (read_nat s) | [] \<Rightarrow> 0)"

definition sample_sid_to_string :: "nat list \<Rightarrow> string" where
  "sample_sid_to_string s = ''/root'' @ concat (map (\<lambda>n. CHR ''/'' # replicate n CHR ''t'') s)"

fun sample_path :: "string \<Rightarrow> nat list" where
  "sample_path [] = []"
| "sample_path (c # cs) =
     (if c = CHR ''/'' then length (takeWhile (\<lambda>c. c = CHR ''t'') cs) # sample_path cs else sample_path cs)"

definition sample_sid_from_str :: "string \<Rightarrow> (string, nat list) result" where
  "sample_sid_from_str s = (if take 5 s = ''/root'' then Inr (sample_path (drop 5 s)) else Inl ''invalid subnet id'')"

definition sample_agent_with ::
  "(http_request \<Rightarrow> 'w \<Rightarrow> (string, string) result \<times> 'w) \<Rightarrow> (string \<Rightarrow> json) \<Rightarrow>
     ('w, string, nat, nat list, string) agent_env" where
  "sample_agent_with send parse =
     \<lparr>he_post = send, he_parse = (\<lambda>t. Inr (parse t)),
      ae_cid_to_string = (\<lambda>c. c), ae_cid_from_str = Some, ae_cid_to_bytes = map (\<lambda>c. of_nat (of_char c)),
      ae_cid_default = [],
      ae_addr_to_string = (\<lambda>n. replicate n CHR ''t''),
      ae_addr_from_str = (\<lambda>s. if list_all (\<lambda>c. c = CHR ''t'') s then Inr (length s)
        else if s = ''t064'' then Inr 64 else Inl ''invalid address''),
      ae_addr_id = (\<lambda>n. Inr (of_nat n)), ae_init_actor = 1, ae_addr_default = 0,
      ae_sid_to_string = sample_sid_to_string, ae_sid_from_str = sample_sid_from_str,
      ae_sid_parent = (\<lambda>s. if s = [] then None else Some (butlast s)),
      ae_subnet_actor = (\<lambda>s. if s = [] then 0 else last s), ae_new_from_parent = (\<lambda>p a. p @ [a]),
      ae_ipc_new = (\<lambda>s a. Inr (sample_sid_to_string s @ CHR '':'' # replicate a CHR ''t'')),
      ae_ipc_to_string = Inr, ae_amount_to_json = JNum, ae_amount_to_string = show_int,
      ae_de_cid = de_string, ae_cid_to_json = JStr,
      ae_int_to_string = show_int, ae_int_from_str = (\<lambda>s. Inr (read_int s)),
      ae_b64_encode = map (\<lambda>b. char_of (unat b)), ae_b64_decode = (\<lambda>s. Inr (map (\<lambda>c. of_nat (of_char c)) s)),
      ae_method_num = (\<lambda>m. if m = Send then 0 else 2), ae_manifest_id = ''subnet_actor'',
      ae_checkpoint_new = (\<lambda>sid epoch.
        \<lparr>bu_data = \<lparr>cd_source = sid, cd_proof = [], cd_epoch = epoch, cd_prev_check = [], cd_children = [],
           cd_cross_msgs = \<lparr>bm_cross_msgs = None, bm_fee = 0\<rparr>\<rparr>, bu_sig = []\<rparr>),
      ae_from_whole = (\<lambda>n. uint n * 10 ^ 18), ae_cbor = (\<lambda>_. Inr [7]),
      ae_batch_default = \<lparr>bm_cross_msgs = None, bm_fee = 0\<rparr>, ae_de_checkpoint = (\<lambda>_. Inr
        \<lparr>bu_data = \<lparr>cd_source = [], cd_proof = [], cd_epoch = 0, cd_prev_check = [], cd_children = [],
           cd_cross_msgs = \<lparr>bm_cross_msgs = None, bm_fee = 0\<rparr>\<rparr>, bu_sig = []\<rparr>),
      ae_de_cross_msg = (\<lambda>_. Inl ''invalid cbor''),
      ae_de_exec_return = (\<lambda>bs. Inr (length bs)), ae_de_status = (\<lambda>j. bind_result (de_int 0 4 j) (\<lambda>n. Inr (JNum n))),
      ae_toml = (\<lambda>t. Inr (parse t)), ae_url = Inr, ae_socket_addr = Inr,
      ae_string_order = sorted_list_of_set,
      ae_sid_order = sorted_list_of_set\<rparr>"

abbreviation sample_agent :: "(string \<Rightarrow> json) \<Rightarrow> (string list, string, nat, nat list, string) agent_env" where
  "sample_agent \<equiv> sample_agent_with scripted_post"

text \<open>A node that answers every request with the prepared answer for its method.\<close>

definition answering_node :: "(string \<Rightarrow> json) \<Rightarrow> (unit, string, nat, nat list, string) agent_env" where
  "answering_node answer = sample_agent_with (\<lambda>r w. (Inr (hr_method r), w)) (\<lambda>t. reply (answer t))"

lemma read_show_nat: "read_nat (show_nat n) = n"
proof (induction n rule: show_nat.induct)
  case (1 n)
  then show ?case
    by (cases "n < 10") (simp_all add: show_nat.simps [of n] read_nat_def)
qed

lemma show_nat_head: "\<exists>c cs. show_nat n = c # cs \<and> c \<noteq> CHR ''-''"
proof (induction n rule: show_nat.induct)
  case (1 n)
  have "of_char (char_of (48 + n) :: char) = 48 + n" if "n < 10"
    using that by simp
  then have "n < 10 \<Longrightarrow> char_of (48 + n) \<noteq> CHR ''-''"
    by force
  with 1 show ?case
    by (cases "n < 10") (auto simp: show_nat.simps [of n])
qed

lemma read_show_int: "read_int (show_int n) = n"
proof (cases "n < 0")
  case True
  then show ?thesis
    by (simp add: read_int_def show_int_def read_show_nat)
next
  case False
  moreover obtain c cs where "show_nat (nat n) = c # cs" "c \<noteq> CHR ''-''"
    using show_nat_head by blast
  moreover from this have "int (read_nat (c # cs)) = n"
    using False read_show_nat [of "nat n"] by simp
  ultimately show ?thesis
    by (simp add: read_int_def show_int_def)
qed

lemma of_nat_unat_mod [simp]: "of_nat (unat b mod 256) = (b :: u8)"
  using unsigned_less [where 'a = nat, of b] by simp

lemma sample_path_append:
  "sample_path (replicate n CHR ''t'' @ cs) = sample_path cs"
  by (induction n) auto

lemma sample_path_concat: "sample_path (concat (map (\<lambda>n. CHR ''/'' # replicate n CHR ''t'') s)) = s"
proof (induction s)
  case (Cons n s)
  have "takeWhile (\<lambda>c. c = CHR ''t'') (concat (map (\<lambda>n. CHR ''/'' # replicate n CHR ''t'') s)) = []"
    by (cases s) auto
  then have "takeWhile (\<lambda>c. c = CHR ''t'') (replicate n CHR ''t'' @ concat (map (\<lambda>n. CHR ''/'' # replicate n CHR ''t'') s))
      = replicate n CHR ''t''"
    by (simp add: takeWhile_append)
  with Cons show ?case
    by (simp add: sample_path_append)
qed simp

lemma sample_agent_roundtrips: "codec_roundtrips (sample_agent_with send parse)"
  by (simp add: codec_roundtrips_def sample_agent_with_def read_show_int sample_sid_to_string_def
      sample_sid_from_str_def sample_path_concat list_all_iff comp_def)

lemma sample_agent_precision: "token_precision (sample_agent_with send parse)"
  by (simp add: token_precision_def sample_agent_with_def)

lemma sample_agent_checkpoint_new: "checkpoint_new_laws (sample_agent_with send parse)"
  by (simp add: checkpoint_new_laws_def sample_agent_with_def)

lemma sample_agent_subnet_id_laws: "subnet_id_laws (sample_agent_with send parse)"
  by (auto simp: subnet_id_laws_def sample_agent_with_def)

lemma answering_node_request:
  assumes "build_jsonrpc_request meth params = Inr body" and "answer meth \<noteq> JNull"
  shows "request (answering_node answer) de cl meth params net =
    (map_err (parse_failure meth) (de (answer meth)),
     net\<lparr>net_sent := net_sent net @ [\<lparr>hr_url = cl_url cl, hr_bearer = cl_bearer_token cl, hr_body = body\<rparr>]\<rparr>)"
  using assms build_jsonrpc_request_method [OF assms(1)]
    read_response_reply [of "answering_node answer" meth "answer meth" de]
  by (simp add: request_def bind_op_def post_def lift_result_def answering_node_def sample_agent_with_def)

lemma answering_node_simps [simp]:
  "ae_cid_to_string (answering_node answer) c = c"
  "ae_cid_from_str (answering_node answer) s = Some s"
  "ae_cid_to_bytes (answering_node answer) c = map (\<lambda>c. of_nat (of_char c)) c"
  "ae_addr_to_string (answering_node answer) n = replicate n CHR ''t''"
  "ae_addr_from_str (answering_node answer) s = (if list_all (\<lambda>c. c = CHR ''t'') s then Inr (length s)
     else if s = ''t064'' then Inr 64 else Inl ''invalid address'')"
  "ae_sid_to_string (answering_node answer) sid = sample_sid_to_string sid"
  "ae_sid_from_str (answering_node answer) s = sample_sid_from_str s"
  "ae_sid_parent (answering_node answer) sid = (if sid = [] then None else Some (butlast sid))"
  "ae_subnet_actor (answering_node answer) sid = (if sid = [] then 0 else last sid)"
  "ae_int_to_string (answering_node answer) amount = show_int amount"
  "ae_b64_decode (answering_node answer) s = Inr (map (\<lambda>c. of_nat (of_char c)) s)"
  "ae_method_num (answering_node answer) m = (if m = Send then 0 else 2)"
  "ae_cbor (answering_node answer) p = Inr [7]"
  "ae_de_checkpoint (answering_node answer) bs = Inr
     \<lparr>bu_data = \<lparr>cd_source = [], cd_proof = [], cd_epoch = 0, cd_prev_check = [], cd_children = [],
        cd_cross_msgs = \<lparr>bm_cross_msgs = None, bm_fee = 0\<rparr>\<rparr>, bu_sig = []\<rparr>"
  "ae_from_whole (answering_node answer) k = uint k * 10 ^ 18"
  by (simp_all add: answering_node_def sample_agent_with_def)

text \<open>
  The map in which the agent sends a subnet identifier to a node is the map that the
  deserialization of subnet identifiers reads: a subnet with a parent is read back unchanged, and
  the root, which has no parent, cannot be written.
\<close>

theorem subnet_id_map_roundtrip:
  assumes "codec_roundtrips env" and "subnet_id_laws env"
  shows "(\<exists>j. subnet_id_to_json env sid = Inr j \<and> deserialize_subnet_id_from_map env j = Inr sid) \<or>
    ae_sid_parent env sid = None \<and> (\<exists>e. subnet_id_to_json env sid = Inl (Panicked e))"
  using assms
  by (cases "ae_sid_parent env sid")
    (auto simp: subnet_id_to_json_def deserialize_subnet_id_from_map_def codec_roundtrips_def subnet_id_laws_def)

theorem subnet_id_map_roundtrip_witness:
  "\<exists>j. subnet_id_to_json (sample_agent (\<lambda>_. JNull)) [3, 4] = Inr j \<and>
     deserialize_subnet_id_from_map (sample_agent (\<lambda>_. JNull)) j = Inr [3, 4]"
  using subnet_id_map_roundtrip [OF sample_agent_roundtrips sample_agent_subnet_id_laws, of scripted_post "\<lambda>_. JNull" "[3, 4]"]
  by (simp add: sample_agent_with_def)

end
