(* ===== verification/Agent_Config.thy ===== *)
theory Agent_Config
  imports Lotus_Types
begin

text \<open>
  The configuration of the agent, \<^verbatim>\<open>src/src/config/*.rs\<close>: the subnets it knows, read from a TOML
  file, and the configuration that can be reloaded while the agent runs.

  A parsed TOML document is a value of type \<open>json\<close>. The file system is the argument \<open>read\<close> of the
  operations that read a file. The broadcast channel of tokio is the number of notifications sent so
  far; a receiver is the number of those it has taken.
\<close>

section \<open>Subnets and configurations\<close>

record ('addr, 'sid) subnet =
  sn_id :: 'sid
  sn_gateway_addr :: 'addr
  sn_network_name :: string
  sn_jsonrpc_api_http :: string
  sn_jsonrpc_api_ws :: "string option"
  sn_auth_token :: "string option"
  sn_accounts :: "'addr list"

record ('addr, 'sid) config =
  co_json_rpc_address :: string
  co_subnets :: "'sid \<rightharpoonup> ('addr, 'sid) subnet"

definition config_address_from_str where
  "config_address_from_str env j = bind_result (de_string j) (ae_addr_from_str env)"

definition deserialize_subnet_id where
  "deserialize_subnet_id env j = bind_result (de_string j) (ae_sid_from_str env)"

definition deserialize_accounts where
  "deserialize_accounts env j =
     bind_result (de_list de_string j) (collect_results (ae_addr_from_str env))"

definition de_url where
  "de_url env j = bind_result (de_string j) (ae_url env)"

definition de_subnet where
  "de_subnet env j =
     bind_result (fields_of j) (\<lambda>fs.
     bind_result (required ''id'' (deserialize_subnet_id env) fs) (\<lambda>i.
     bind_result (required ''gateway_addr'' (config_address_from_str env) fs) (\<lambda>g.
     bind_result (required ''network_name'' de_string fs) (\<lambda>n.
     bind_result (required ''jsonrpc_api_http'' (de_url env) fs) (\<lambda>http.
     bind_result (optional ''jsonrpc_api_ws'' (de_url env) fs) (\<lambda>ws.
     bind_result (optional ''auth_token'' de_string fs) (\<lambda>tok.
     bind_result (defaulted ''accounts'' [] (deserialize_accounts env) fs) (\<lambda>acc.
     Inr \<lparr>sn_id = i, sn_gateway_addr = g, sn_network_name = n, sn_jsonrpc_api_http = http,
          sn_jsonrpc_api_ws = ws, sn_auth_token = tok, sn_accounts = acc\<rparr>))))))))"

definition subnets_by_id where
  "subnets_by_id subnets = fold (\<lambda>subnet m. m(sn_id subnet \<mapsto> subnet)) subnets Map.empty"

definition deserialize_subnets_from_vec where
  "deserialize_subnets_from_vec env j =
     bind_result (de_list (de_subnet env) j) (\<lambda>subnets. Inr (subnets_by_id subnets))"

definition de_server where
  "de_server env j =
     bind_result (fields_of j) (\<lambda>fs.
     required ''json_rpc_address'' (\<lambda>j. bind_result (de_string j) (ae_socket_addr env)) fs)"

definition de_config where
  "de_config env j =
     bind_result (fields_of j) (\<lambda>fs.
     bind_result (required ''server'' (de_server env) fs) (\<lambda>server.
     bind_result (defaulted ''subnets'' Map.empty (deserialize_subnets_from_vec env) fs) (\<lambda>subnets.
     Inr \<lparr>co_json_rpc_address = server, co_subnets = subnets\<rparr>)))"

definition from_toml_str where
  "from_toml_str env s = map_err Failed (bind_result (ae_toml env s) (de_config env))"

definition from_file where
  "from_file env read path = bind_result (map_err Failed (read path)) (from_toml_str env)"

section \<open>Reloading\<close>

record 'cfg reloadable =
  rl_path :: string
  rl_config :: 'cfg
  rl_notifications :: nat

definition reloadable_new where
  "reloadable_new env read path =
     bind_result (from_file env read path) (\<lambda>config.
     Inr \<lparr>rl_path = path, rl_config = config, rl_notifications = 0\<rparr>)"

definition get_config where
  "get_config rl = rl_config rl"

definition set_path where
  "set_path path rl = rl\<lparr>rl_path := path\<rparr>"

definition reload where
  "reload env read rl =
     (case from_file env read (rl_path rl) of
        Inl e \<Rightarrow> (Inl e, rl)
      | Inr new_config \<Rightarrow>
          (Inr (), rl\<lparr>rl_config := new_config, rl_notifications := Suc (rl_notifications rl)\<rparr>))"

definition new_subscriber :: "'cfg reloadable \<Rightarrow> nat" where
  "new_subscriber rl = rl_notifications rl"

text \<open>
  Receiving from a channel of capacity 8: \<open>None\<close> while there is nothing to receive; an error if more
  than eight notifications are waiting, of which only the last eight are kept.
\<close>

definition CHANNEL_CAPACITY :: nat where
  "CHANNEL_CAPACITY = 8"

definition channel_recv :: "'cfg reloadable \<Rightarrow> nat \<Rightarrow> ((string, unit) result \<times> nat) option" where
  "channel_recv rl taken =
     (if taken = rl_notifications rl then None
      else if rl_notifications rl - taken > CHANNEL_CAPACITY
      then Some (Inl ''lagged'', rl_notifications rl - CHANNEL_CAPACITY)
      else Some (Inr (), Suc taken))"

text \<open>The handler of \<^verbatim>\<open>ipc_reloadConfig\<close> in \<^verbatim>\<open>server/handlers/config.rs\<close>.\<close>

definition reload_config_handle where
  "reload_config_handle env read path rl =
     reload env read (case path of None \<Rightarrow> rl | Some p \<Rightarrow> set_path p rl)"

section \<open>Well-formed configurations\<close>

definition config_wf :: "('addr, 'sid) config \<Rightarrow> bool" where
  "config_wf c \<longleftrightarrow>
     finite (dom (co_subnets c)) \<and> (\<forall>sid s. co_subnets c sid = Some s \<longrightarrow> sn_id s = sid)"

lemma find_Some: "find P xs = Some x \<Longrightarrow> x \<in> set xs \<and> P x"
  by (induction xs) (auto split: if_splits)

lemma subnets_by_id_last: "subnets_by_id subnets sid = find (\<lambda>s. sn_id s = sid) (rev subnets)"
  by (induction subnets rule: rev_induct) (auto simp: subnets_by_id_def)

lemma finite_dom_subnets_by_id: "finite (dom (subnets_by_id subnets))"
  by (rule finite_subset [of _ "sn_id ` set subnets"]) (auto simp: subnets_by_id_last dest!: find_Some)

lemma de_config_Inr_iff:
  "de_config env j = Inr c \<longleftrightarrow>
     (\<exists>fs. j = JObj fs \<and> required ''server'' (de_server env) fs = Inr (co_json_rpc_address c) \<and>
        defaulted ''subnets'' Map.empty (deserialize_subnets_from_vec env) fs = Inr (co_subnets c))"
  by (cases j) (auto simp: de_config_def)

lemma defaulted_Inr:
  "defaulted k d de fs = Inr a \<Longrightarrow> a = d \<or> (\<exists>j. de j = Inr a)"
  by (auto simp: defaulted_def split: list.splits)

lemma de_config_wf: "de_config env j = Inr c \<Longrightarrow> config_wf c"
proof -
  assume "de_config env j = Inr c"
  then have "co_subnets c = Map.empty \<or> (\<exists>subnets. subnets_by_id subnets = co_subnets c)"
    by (auto simp: de_config_Inr_iff deserialize_subnets_from_vec_def dest!: defaulted_Inr)
  then show ?thesis
  proof
    assume "\<exists>subnets. subnets_by_id subnets = co_subnets c"
    then obtain subnets where "co_subnets c = subnets_by_id subnets"
      by metis
    then show ?thesis
      by (auto simp: config_wf_def finite_dom_subnets_by_id subnets_by_id_last dest!: find_Some)
  qed (simp add: config_wf_def)
qed

lemma from_file_wf: "from_file env read path = Inr c \<Longrightarrow> config_wf c"
  by (auto simp: from_file_def from_toml_str_def dest: de_config_wf)

end
