(* ===== verification/Lotus_Client.thy ===== *)
theory Lotus_Client
  imports Agent_Config
begin

text \<open>
  The client of a Lotus node, \<^verbatim>\<open>src/src/lotus/client.rs\<close>: one operation per RPC method, which encodes
  the parameters, sends the request with the client of \<open>Json_Rpc\<close>, and decodes the result.
\<close>

section \<open>Methods\<close>

datatype lotus_method =
    MPOOL_PUSH_MESSAGE | STATE_WAIT_MSG | STATE_NETWORK_NAME | STATE_NETWORK_VERSION
  | STATE_ACTOR_CODE_CIDS | WALLET_NEW | WALLET_LIST | WALLET_BALANCE | WALLET_DEFAULT_ADDRESS
  | STATE_READ_STATE | CHAIN_HEAD | GET_TIPSET_BY_HEIGHT | IPC_GET_PREV_CHECKPOINT_FOR_CHILD
  | IPC_GET_CHECKPOINT_TEMPLATE | IPC_GET_CHECKPOINT | IPC_READ_GATEWAY_STATE
  | IPC_READ_SUBNET_ACTOR_STATE | IPC_LIST_CHILD_SUBNETS | IPC_VALIDATOR_HAS_VOTED_BOTTOMUP
  | IPC_VALIDATOR_HAS_VOTED_TOPDOWN | IPC_LIST_BOTTOMUP_CHECKPOINTS | IPC_GET_TOPDOWN_MESSAGES
  | IPC_GENESIS_EPOCH_FOR_SUBNET

fun methods :: "lotus_method \<Rightarrow> string" where
  "methods MPOOL_PUSH_MESSAGE = ''Filecoin.MpoolPushMessage''"
| "methods STATE_WAIT_MSG = ''Filecoin.StateWaitMsg''"
| "methods STATE_NETWORK_NAME = ''Filecoin.StateNetworkName''"
| "methods STATE_NETWORK_VERSION = ''Filecoin.StateNetworkVersion''"
| "methods STATE_ACTOR_CODE_CIDS = ''Filecoin.StateActorCodeCIDs''"
| "methods WALLET_NEW = ''Filecoin.WalletNew''"
| "methods WALLET_LIST = ''Filecoin.WalletList''"
| "methods WALLET_BALANCE = ''Filecoin.WalletBalance''"
| "methods WALLET_DEFAULT_ADDRESS = ''Filecoin.WalletDefaultAddress''"
| "methods STATE_READ_STATE = ''Filecoin.StateReadState''"
| "methods CHAIN_HEAD = ''Filecoin.ChainHead''"
| "methods GET_TIPSET_BY_HEIGHT = ''Filecoin.ChainGetTipSetByHeight''"
| "methods IPC_GET_PREV_CHECKPOINT_FOR_CHILD = ''Filecoin.IPCGetPrevCheckpointForChild''"
| "methods IPC_GET_CHECKPOINT_TEMPLATE = ''Filecoin.IPCGetCheckpointTemplateSerialized''"
| "methods IPC_GET_CHECKPOINT = ''Filecoin.IPCGetCheckpointSerialized''"
| "methods IPC_READ_GATEWAY_STATE = ''Filecoin.IPCReadGatewayState''"
| "methods IPC_READ_SUBNET_ACTOR_STATE = ''Filecoin.IPCReadSubnetActorState''"
| "methods IPC_LIST_CHILD_SUBNETS = ''Filecoin.IPCListChildSubnets''"
| "methods IPC_VALIDATOR_HAS_VOTED_BOTTOMUP = ''Filecoin.IPCHasVotedBottomUpCheckpoint''"
| "methods IPC_VALIDATOR_HAS_VOTED_TOPDOWN = ''Filecoin.IPCHasVotedTopDownCheckpoint''"
| "methods IPC_LIST_BOTTOMUP_CHECKPOINTS = ''Filecoin.IPCListCheckpointsSerialized''"
| "methods IPC_GET_TOPDOWN_MESSAGES = ''Filecoin.IPCGetTopDownMsgsSerialized''"
| "methods IPC_GENESIS_EPOCH_FOR_SUBNET = ''Filecoin.IPCGetGenesisEpochForSubnet''"

definition GATEWAY_ACTOR_ADDRESS :: string where
  "GATEWAY_ACTOR_ADDRESS = ''t064''"

definition STATE_WAIT_CONFIDENCE :: int where
  "STATE_WAIT_CONFIDENCE = 2"

definition STATE_WAIT_LOOK_BACK_NO_LIMIT :: int where
  "STATE_WAIT_LOOK_BACK_NO_LIMIT = - 1"

definition STATE_WAIT_ALLOW_REPLACE :: bool where
  "STATE_WAIT_ALLOW_REPLACE = True"

section \<open>Messages and their state\<close>

text \<open>\<open>to_value\<close>: an amount that does not fit into \<open>u64\<close> panics.\<close>

definition to_value :: "int option \<Rightarrow> (agent_error, json) result" where
  "to_value t =
     (case t of
        None \<Rightarrow> Inr JNull
      | Some n \<Rightarrow>
          if 0 \<le> n \<and> n < 2 ^ 64 then Inr (JNum n)
          else Inl (Panicked ''called `Option::unwrap()` on a `None` value''))"

definition mpool_push_params where
  "mpool_push_params env msg =
     (let nonce = (case mp_nonce msg of None \<Rightarrow> JNull | Some n \<Rightarrow> JNum (uint n)) in
      bind_result (to_value (mp_gas_limit msg)) (\<lambda>gas_limit.
      bind_result (to_value (mp_gas_premium msg)) (\<lambda>gas_premium.
      bind_result (to_value (mp_gas_fee_cap msg)) (\<lambda>gas_fee_cap.
      bind_result (to_value (mp_max_fee msg)) (\<lambda>max_fee.
      Inr (JArr
        [JObj [(''to'', JStr (ae_addr_to_string env (mp_to msg))),
               (''from'', JStr (ae_addr_to_string env (mp_from msg))),
               (''value'', JStr (ae_int_to_string env (mp_value msg))),
               (''method'', JNum (uint (mp_method msg))),
               (''params'', JArr (map (\<lambda>b. JNum (uint b)) (mp_params msg))),
               (''nonce'', nonce),
               (''gas_limit'', gas_limit),
               (''gas_fee_cap'', gas_fee_cap),
               (''gas_premium'', gas_premium),
               (''cid'', cid_map_to_json (map_of_cid_option env (mp_cid msg))),
               (''version'', JNull)],
         JObj [(''max_fee'', max_fee)]]))))))"

definition mpool_push_message where
  "mpool_push_message env cl msg =
     bind_op (lift_result (mpool_push_params env msg)) (\<lambda>params.
     bind_op (request env de_mpool_push cl (methods MPOOL_PUSH_MESSAGE) params) (\<lambda>r.
     lift_result (Inr (fst r))))"

definition state_wait_msg where
  "state_wait_msg env cl cid =
     request env de_state_wait cl (methods STATE_WAIT_MSG)
       (JArr [cid_map_to_json (map_of_cid env cid), JNum STATE_WAIT_CONFIDENCE,
              JNum STATE_WAIT_LOOK_BACK_NO_LIMIT, JBool STATE_WAIT_ALLOW_REPLACE])"

definition state_network_name where
  "state_network_name env cl = request env de_string cl (methods STATE_NETWORK_NAME) JNull"

definition state_network_version where
  "state_network_version env cl tip_sets =
     request env (de_word :: u32 decoder) cl (methods STATE_NETWORK_VERSION)
       (JArr [JArr (map (\<lambda>c. cid_map_to_json (map_of_cid env c)) tip_sets)])"

text \<open>A map of identifiers: the JSON object becomes a hash map, which is then iterated.\<close>

definition de_cid_maps :: "(string \<rightharpoonup> cid_map) decoder" where
  "de_cid_maps j =
     bind_result (fields_of j) (\<lambda>fs.
     bind_result (collect_results (\<lambda>(k, v). map_sum id (Pair k) (de_cid_map v)) fs) (\<lambda>kvs.
     Inr (map_of (rev kvs))))"

definition state_actor_code_cids where
  "state_actor_code_cids env cl network_version =
     bind_op (request env de_cid_maps cl (methods STATE_ACTOR_CODE_CIDS) (JArr [JNum (uint (network_version :: u32))]))
       (\<lambda>r. lift_result
         (bind_result
            (collect_results (\<lambda>k. map_sum id (Pair k) (cid_of_map env (the (r k)))) (ae_string_order env (dom r)))
            (\<lambda>kvs. Inr (map_of kvs))))"

section \<open>Wallet\<close>

definition wallet_default where
  "wallet_default env cl =
     bind_op (request env de_string cl (methods WALLET_DEFAULT_ADDRESS) (JObj [])) (\<lambda>r.
     lift_result (map_err Failed (ae_addr_from_str env r)))"

definition wallet_list where
  "wallet_list env cl = request env (de_list de_string) cl (methods WALLET_LIST) (JObj [])"

definition wallet_new where
  "wallet_new env cl key_type =
     request env de_string cl (methods WALLET_NEW) (JArr [JStr (key_type_as_ref key_type)])"

definition wallet_balance where
  "wallet_balance env cl address =
     bind_op (request env de_string cl (methods WALLET_BALANCE) (JArr [JStr (ae_addr_to_string env address)]))
       (\<lambda>r. lift_result (map_err Failed (ae_int_from_str env r)))"

section \<open>Chain\<close>

definition read_state where
  "read_state env de cl address tipset =
     request env (de_read_state de) cl (methods STATE_READ_STATE)
       (JArr [JStr (ae_addr_to_string env address), JArr [cid_map_to_json (map_of_cid env tipset)]])"

definition chain_head where
  "chain_head env cl = request env de_chain_head cl (methods CHAIN_HEAD) NO_PARAMS"

definition get_tipset_by_height where
  "get_tipset_by_height env cl epoch tip_set =
     request env de_chain_head cl (methods GET_TIPSET_BY_HEIGHT)
       (JArr [JNum epoch, JArr [cid_map_to_json (map_of_cid env tip_set)]])"

section \<open>Actors\<close>

text \<open>Parameters that contain a subnet identifier: the encoding panics for the root.\<close>

definition with_subnet where
  "with_subnet env sid f = bind_op (lift_result (subnet_id_to_json env sid)) f"

definition decode_checkpoint where
  "decode_checkpoint env r =
     map_err Failed (bind_result (ae_b64_decode env r) (ae_de_checkpoint env))"

definition ipc_get_prev_checkpoint_for_child where
  "ipc_get_prev_checkpoint_for_child env cl sid =
     (if ae_sid_parent env sid = None
      then lift_result (Inl (Failed ''The child_subnet_id must be a valid child subnet''))
      else with_subnet env sid (\<lambda>j.
        request env (de_option de_cid_map) cl (methods IPC_GET_PREV_CHECKPOINT_FOR_CHILD)
          (JArr [JStr GATEWAY_ACTOR_ADDRESS, j])))"

definition ipc_get_checkpoint_template where
  "ipc_get_checkpoint_template env cl epoch =
     bind_op (request env de_string cl (methods IPC_GET_CHECKPOINT_TEMPLATE)
         (JArr [JStr GATEWAY_ACTOR_ADDRESS, JNum epoch]))
       (\<lambda>r. lift_result (decode_checkpoint env r))"

definition ipc_get_checkpoint where
  "ipc_get_checkpoint env cl sid epoch =
     with_subnet env sid (\<lambda>j.
     bind_op (request env de_string cl (methods IPC_GET_CHECKPOINT) (JArr [j, JNum epoch]))
       (\<lambda>r. lift_result (decode_checkpoint env r)))"

definition ipc_read_gateway_state where
  "ipc_read_gateway_state env cl tip_set =
     request env de_gateway_state cl (methods IPC_READ_GATEWAY_STATE)
       (JArr [JStr GATEWAY_ACTOR_ADDRESS, JArr [cid_map_to_json (map_of_cid env tip_set)]])"

definition ipc_read_subnet_actor_state where
  "ipc_read_subnet_actor_state env cl sid tip_set =
     with_subnet env sid (\<lambda>j.
     request env de_subnet_actor_state cl (methods IPC_READ_SUBNET_ACTOR_STATE)
       (JArr [j, JArr [cid_map_to_json (map_of_cid env tip_set)]]))"

definition ipc_list_child_subnets where
  "ipc_list_child_subnets env cl gateway_addr =
     bind_op (request env (de_option (de_list (de_subnet_info env))) cl (methods IPC_LIST_CHILD_SUBNETS)
         (JArr [JStr (ae_addr_to_string env gateway_addr)]))
       (\<lambda>r. lift_result (Inr (case r of None \<Rightarrow> [] | Some xs \<Rightarrow> xs)))"

definition ipc_validator_has_voted_bottomup where
  "ipc_validator_has_voted_bottomup env cl sid epoch validator =
     with_subnet env sid (\<lambda>j.
     request env de_bool cl (methods IPC_VALIDATOR_HAS_VOTED_BOTTOMUP)
       (JArr [j, JNum epoch, JStr (ae_addr_to_string env validator)]))"

definition ipc_validator_has_voted_topdown where
  "ipc_validator_has_voted_topdown env cl gateway_addr epoch validator =
     request env de_bool cl (methods IPC_VALIDATOR_HAS_VOTED_TOPDOWN)
       (JArr [JStr (ae_addr_to_string env gateway_addr), JNum epoch,
              JStr (ae_addr_to_string env validator)])"

definition ipc_get_topdown_msgs where
  "ipc_get_topdown_msgs env cl sid gateway_addr tip_set nonce =
     with_subnet env sid (\<lambda>j.
     bind_op (request env (de_list de_string) cl (methods IPC_GET_TOPDOWN_MESSAGES)
         (JArr [JStr (ae_addr_to_string env gateway_addr), j,
                JArr [cid_map_to_json (map_of_cid env tip_set)], JNum (uint (nonce :: u64))]))
       (\<lambda>r. lift_result
         (collect_results
            (\<lambda>x. map_err (\<lambda>_. Failed ''cannot decode cross-msgs base64 string'')
               (bind_result (ae_b64_decode env x) (ae_de_cross_msg env))) r)))"

definition ipc_get_genesis_epoch_for_subnet where
  "ipc_get_genesis_epoch_for_subnet env cl sid gateway_addr =
     with_subnet env sid (\<lambda>j.
     request env de_i64 cl (methods IPC_GENESIS_EPOCH_FOR_SUBNET)
       (JArr [JStr (ae_addr_to_string env gateway_addr), j]))"

definition ipc_list_checkpoints where
  "ipc_list_checkpoints env cl sid from_epoch to_epoch =
     with_subnet env sid (\<lambda>j.
     bind_op (request env (de_list de_string) cl (methods IPC_LIST_BOTTOMUP_CHECKPOINTS)
         (JArr [j, JNum from_epoch, JNum to_epoch]))
       (\<lambda>r. lift_result
         (collect_results
            (\<lambda>x. map_err (\<lambda>_. Failed ''cannot decode checkpoint base64 string'')
               (bind_result (ae_b64_decode env x) (ae_de_checkpoint env))) r)))"

definition from_subnet where
  "from_subnet subnet = client_new (sn_jsonrpc_api_http subnet) (sn_auth_token subnet)"

text \<open>
  Every caller takes the first identifier of a chain head as the tip set; a head without identifiers
  panics.
\<close>

definition first_tip_set where
  "first_tip_set env head =
     (case ch_cids head of
        [] \<Rightarrow> Inl (Panicked ''called `Option::unwrap()` on a `None` value'')
      | m # _ \<Rightarrow> cid_of_map env m)"

section \<open>What the operations send\<close>

text \<open>The methods that change something on the node.\<close>

definition changes_state :: "lotus_method \<Rightarrow> bool" where
  "changes_state m \<longleftrightarrow> m = MPOOL_PUSH_MESSAGE \<or> m = WALLET_NEW"

definition read_only :: "rpc_client \<Rightarrow> http_request \<Rightarrow> bool" where
  "read_only cl r \<longleftrightarrow> sent_by cl r \<and> (\<exists>m. hr_method r = methods m \<and> \<not> changes_state m)"

definition is_push :: "http_request \<Rightarrow> bool" where
  "is_push r \<longleftrightarrow> hr_method r = methods MPOOL_PUSH_MESSAGE"

definition pushes where
  "pushes env cl msg r \<longleftrightarrow> sent_by cl r \<and> is_push r \<and>
     (\<exists>params. mpool_push_params env msg = Inr params \<and>
        build_jsonrpc_request (methods MPOOL_PUSH_MESSAGE) params = Inr (hr_body r))"

lemma methods_inj: "methods m = methods m' \<longleftrightarrow> m = m'"
  by (cases m; cases m') simp_all

declare methods.simps [simp del]

lemma read_only_not_push: "read_only cl r \<Longrightarrow> \<not> is_push r"
  by (auto simp: read_only_def is_push_def changes_state_def methods_inj)

lemma sends_read_request [sends_intros]:
  "\<not> changes_state m \<Longrightarrow> sends (read_only cl) (request env de cl (methods m) params)"
  by (rule sends_request) (auto simp: read_only_def)

lemma not_changes_state [simp]:
  "m \<noteq> MPOOL_PUSH_MESSAGE \<Longrightarrow> m \<noteq> WALLET_NEW \<Longrightarrow> \<not> changes_state m"
  by (simp add: changes_state_def)

lemma sends_with_subnet [sends_intros]: "(\<And>j. sends P (f j)) \<Longrightarrow> sends P (with_subnet env sid f)"
  unfolding with_subnet_def by (intro sends_intros)

text \<open>Everything except pushing messages and creating wallets only reads, from its own node.\<close>

lemma reads_only [sends_intros]:
  "sends (read_only cl) (state_wait_msg env cl cid)"
  "sends (read_only cl) (state_network_name env cl)"
  "sends (read_only cl) (state_network_version env cl tip_sets)"
  "sends (read_only cl) (state_actor_code_cids env cl v)"
  "sends (read_only cl) (wallet_default env cl)"
  "sends (read_only cl) (wallet_list env cl)"
  "sends (read_only cl) (wallet_balance env cl a)"
  "sends (read_only cl) (read_state env de cl a t)"
  "sends (read_only cl) (chain_head env cl)"
  "sends (read_only cl) (get_tipset_by_height env cl epoch t)"
  "sends (read_only cl) (ipc_get_prev_checkpoint_for_child env cl sid)"
  "sends (read_only cl) (ipc_get_checkpoint_template env cl epoch)"
  "sends (read_only cl) (ipc_get_checkpoint env cl sid epoch)"
  "sends (read_only cl) (ipc_read_gateway_state env cl t)"
  "sends (read_only cl) (ipc_read_subnet_actor_state env cl sid t)"
  "sends (read_only cl) (ipc_list_child_subnets env cl a)"
  "sends (read_only cl) (ipc_validator_has_voted_bottomup env cl sid epoch a)"
  "sends (read_only cl) (ipc_validator_has_voted_topdown env cl a epoch a')"
  "sends (read_only cl) (ipc_get_topdown_msgs env cl sid a t n)"
  "sends (read_only cl) (ipc_get_genesis_epoch_for_subnet env cl sid a)"
  "sends (read_only cl) (ipc_list_checkpoints env cl sid epoch epoch')"
  unfolding state_wait_msg_def state_network_name_def state_network_version_def
    state_actor_code_cids_def wallet_default_def wallet_list_def wallet_balance_def read_state_def
    chain_head_def get_tipset_by_height_def ipc_get_prev_checkpoint_for_child_def
    ipc_get_checkpoint_template_def ipc_get_checkpoint_def ipc_read_gateway_state_def
    ipc_read_subnet_actor_state_def ipc_list_child_subnets_def ipc_validator_has_voted_bottomup_def
    ipc_validator_has_voted_topdown_def ipc_get_topdown_msgs_def
    ipc_get_genesis_epoch_for_subnet_def ipc_list_checkpoints_def
  by (intro sends_intros; simp)+

lemma sends_mpool_push [sends_intros]: "sends (pushes env cl msg) (mpool_push_message env cl msg)"
proof (cases "mpool_push_params env msg")
  case (Inl e)
  then show ?thesis
    by (simp add: mpool_push_message_def sends_intros)
next
  case (Inr params)
  then show ?thesis
    unfolding mpool_push_message_def Inr bind_op_lift
    by (intro sends_intros sends_request) (auto simp: pushes_def is_push_def Inr)
qed

text \<open>How many messages an operation pushes.\<close>

definition push_count :: "'w net \<Rightarrow> nat" where
  "push_count net = length (filter is_push (net_sent net))"

definition pushes_upto :: "nat \<Rightarrow> ('w, 'a) agent_op \<Rightarrow> bool" where
  "pushes_upto n m \<longleftrightarrow> (\<forall>net. push_count (snd (m net)) \<le> push_count net + n)"

lemma pushes_upto_bind:
  assumes "pushes_upto n m" and "\<And>a. pushes_upto k (f a)"
  shows "pushes_upto (n + k) (bind_op m f)"
  unfolding pushes_upto_def
proof
  fix net
  have m: "push_count (snd (m net)) \<le> push_count net + n"
    using assms(1) by (simp add: pushes_upto_def)
  show "push_count (snd (bind_op m f net)) \<le> push_count net + (n + k)"
  proof (cases "m net")
    case (Pair r net')
    show ?thesis
    proof (cases r)
      case (Inr a)
      have "push_count (snd (f a net')) \<le> push_count net' + k"
        using assms(2) by (simp add: pushes_upto_def)
      with Inr Pair m show ?thesis
        by (simp add: bind_op_def)
    qed (use Pair m in \<open>simp add: bind_op_def\<close>)
  qed
qed

lemma pushes_upto_reads:
  assumes "sends (read_only cl) m"
  shows "pushes_upto 0 m"
  unfolding pushes_upto_def
proof
  fix net
  obtain new where "net_sent (snd (m net)) = net_sent net @ new" "list_all (read_only cl) new"
    using assms by (auto simp: sends_def)
  then show "push_count (snd (m net)) \<le> push_count net + 0"
    using read_only_not_push by (auto simp: push_count_def filter_empty_conv list_all_iff)
qed

lemma pushes_upto_lift: "pushes_upto 0 (lift_result r)"
  by (simp add: pushes_upto_def)

lemma pushes_upto_if: "pushes_upto n m \<Longrightarrow> pushes_upto n m' \<Longrightarrow> pushes_upto n (if b then m else m')"
  by simp

lemma pushes_upto_request: "pushes_upto 1 (request env de cl meth params)"
  by (auto simp: pushes_upto_def push_count_def request_def bind_op_def lift_result_def post_def Let_def
      split: prod.splits sum.splits)

lemma pushes_upto_push: "pushes_upto 1 (mpool_push_message env cl msg)"
  unfolding mpool_push_message_def
  using pushes_upto_bind [OF pushes_upto_lift pushes_upto_bind [OF pushes_upto_request pushes_upto_lift]]
  by simp

end
