(* ===== verification/Subnet_Manager.thy ===== *)
theory Subnet_Manager
  imports Lotus_Client
begin

text \<open>
  The operations on subnets of \<^verbatim>\<open>src/src/manager/lotus.rs\<close> (the trait is in
  \<^verbatim>\<open>src/src/manager/subnet.rs\<close>): each one checks that the node belongs to the right network, builds a
  message for an actor, pushes it to the node and waits until it is executed.

  A manager is the client of its node.
\<close>

section \<open>Operations\<close>

definition fail :: "string \<Rightarrow> ('s, agent_error, 'a) op" where
  "fail msg = lift_result (Inl (Failed msg))"

definition mpool_push_and_wait where
  "mpool_push_and_wait env cl message =
     bind_op (mpool_push_message env cl message) (\<lambda>r.
     bind_op (lift_result (mpool_response_cid env r)) (\<lambda>cid.
     state_wait_msg env cl cid))"

definition is_network_match where
  "is_network_match env cl network =
     bind_op (state_network_name env cl) (\<lambda>name.
     lift_result (Inr (ae_sid_to_string env network = name)))"

definition get_subnet_actor_code_cid where
  "get_subnet_actor_code_cid env cl =
     bind_op (state_network_version env cl []) (\<lambda>v.
     bind_op (state_actor_code_cids env cl v) (\<lambda>m.
     lift_result (case m (ae_manifest_id env) of None \<Rightarrow> Inl (Failed ''actor cid not found'') | Some c \<Rightarrow> Inr c)))"

definition cbor_serialize where
  "cbor_serialize env p = lift_result (map_err Failed (ae_cbor env p))"

definition parent_of where
  "parent_of env sid msg =
     lift_result (case ae_sid_parent env sid of None \<Rightarrow> Inl (Failed msg) | Some p \<Rightarrow> Inr p)"

text \<open>\<open>if !self.is_network_match(network).await? { return Err(..) }\<close>.\<close>

definition guard_network where
  "guard_network env cl network msg op =
     bind_op (is_network_match env cl network) (\<lambda>ok. if ok then op else fail msg)"

definition wrong_parent :: string where
  "wrong_parent = ''subnet actor being deployed in the wrong parent network, parent network names do not match''"

definition create_subnet where
  "create_subnet env cl from params =
     guard_network env cl (cp_parent params) wrong_parent (
     bind_op (get_subnet_actor_code_cid env cl) (\<lambda>code_cid.
     bind_op (cbor_serialize env (Construct_Params params)) (\<lambda>constructor_params.
     bind_op (cbor_serialize env (Exec_Params code_cid constructor_params)) (\<lambda>init_params.
     bind_op (mpool_push_and_wait env cl
         (mpool_push_message_new (ae_init_actor env) from (ae_method_num env Init_Exec) init_params)) (\<lambda>r.
     lift_result (parse_result_into env (sw_receipt r)))))))"

definition join_subnet where
  "join_subnet env cl subnet from collateral validator_net_addr =
     bind_op (parent_of env subnet ''cannot join root'') (\<lambda>parent.
     guard_network env cl parent wrong_parent (
     bind_op (cbor_serialize env (Join_Params validator_net_addr)) (\<lambda>params.
     bind_op (mpool_push_and_wait env cl
         ((mpool_push_message_new (ae_subnet_actor env subnet) from (ae_method_num env Join) params)
            \<lparr>mp_value := collateral\<rparr>)) (\<lambda>_.
     lift_result (Inr ())))))"

definition leave_subnet where
  "leave_subnet env cl subnet from =
     bind_op (parent_of env subnet ''cannot leave root'') (\<lambda>parent.
     guard_network env cl parent wrong_parent (
     bind_op (mpool_push_and_wait env cl
         (mpool_push_message_new (ae_subnet_actor env subnet) from (ae_method_num env Leave) [])) (\<lambda>_.
     lift_result (Inr ()))))"

definition kill_subnet where
  "kill_subnet env cl subnet from =
     bind_op (parent_of env subnet ''cannot kill root'') (\<lambda>parent.
     guard_network env cl parent wrong_parent (
     bind_op (mpool_push_and_wait env cl
         (mpool_push_message_new (ae_subnet_actor env subnet) from (ae_method_num env Kill) [])) (\<lambda>_.
     lift_result (Inr ()))))"

definition list_child_subnets where
  "list_child_subnets env cl gateway_addr =
     bind_op (ipc_list_child_subnets env cl gateway_addr) (\<lambda>subnets.
     lift_result (Inr (fold (\<lambda>s m. m(si_id s \<mapsto> s)) subnets Map.empty)))"

definition fund where
  "fund env cl subnet gateway_addr from amount =
     bind_op (parent_of env subnet ''cannot fund root'') (\<lambda>parent.
     guard_network env cl parent ''subnet actor being funded not matching current network'' (
     bind_op (cbor_serialize env (Fund_Params subnet)) (\<lambda>params.
     bind_op (mpool_push_and_wait env cl
         ((mpool_push_message_new gateway_addr from (ae_method_num env Fund) params)\<lparr>mp_value := amount\<rparr>)) (\<lambda>_.
     lift_result (Inr ())))))"

definition release where
  "release env cl subnet gateway_addr from amount =
     guard_network env cl subnet ''subnet actor being released not matching current network'' (
     bind_op (mpool_push_and_wait env cl
         ((mpool_push_message_new gateway_addr from (ae_method_num env Release) [])\<lparr>mp_value := amount\<rparr>)) (\<lambda>_.
     lift_result (Inr ())))"

definition propagate where
  "propagate env cl subnet gateway_addr from postbox_msg_cid =
     guard_network env cl subnet ''propagation not targeting the correct network'' (
     bind_op (cbor_serialize env (Propagate_Params postbox_msg_cid)) (\<lambda>params.
     bind_op (mpool_push_and_wait env cl
         (mpool_push_message_new gateway_addr from (ae_method_num env Propagate) params)) (\<lambda>_.
     lift_result (Inr ()))))"

definition set_validator_net_addr where
  "set_validator_net_addr env cl subnet from validator_net_addr =
     bind_op (parent_of env subnet ''cannot fund root'') (\<lambda>parent.
     guard_network env cl parent ''set validator net addr not targeting the correct parent network'' (
     bind_op (cbor_serialize env (Join_Params validator_net_addr)) (\<lambda>params.
     bind_op (mpool_push_and_wait env cl
         (mpool_push_message_new (ae_subnet_actor env subnet) from (ae_method_num env SetValidatorNetAddr) params)) (\<lambda>_.
     lift_result (Inr ())))))"

definition whitelist_propagator where
  "whitelist_propagator env cl subnet gateway_addr postbox_msg_cid from to_add =
     guard_network env cl subnet ''whitelist not targeting the correct network'' (
     bind_op (cbor_serialize env (Whitelist_Params postbox_msg_cid to_add)) (\<lambda>params.
     bind_op (mpool_push_and_wait env cl
         (mpool_push_message_new gateway_addr from (ae_method_num env WhiteListPropagator) params)) (\<lambda>_.
     lift_result (Inr ()))))"

definition send_value where
  "send_value env cl from to amount =
     bind_op (mpool_push_and_wait env cl
         ((mpool_push_message_new to from (ae_method_num env Send) [])\<lparr>mp_value := amount\<rparr>)) (\<lambda>_.
     lift_result (Inr ()))"

definition manager_wallet_new where
  "manager_wallet_new env cl key_type =
     bind_op (wallet_new env cl key_type) (\<lambda>s.
     lift_result (map_err (\<lambda>_. Failed ''cannot get address from string output'') (ae_addr_from_str env s)))"

definition manager_wallet_list where
  "manager_wallet_list env cl =
     bind_op (wallet_list env cl) (\<lambda>raws.
     lift_result (collect_results (\<lambda>raw. map_err (\<lambda>_. Failed (''invalid addr: '' @ raw)) (ae_addr_from_str env raw)) raws))"

definition manager_wallet_balance where
  "manager_wallet_balance env cl address = wallet_balance env cl address"

definition list_checkpoints where
  "list_checkpoints env cl sid from_epoch to_epoch = ipc_list_checkpoints env cl sid from_epoch to_epoch"

definition last_topdown_executed where
  "last_topdown_executed env cl =
     bind_op (chain_head env cl) (\<lambda>head.
     bind_op (lift_result (first_tip_set env head)) (\<lambda>tip_set.
     bind_op (ipc_read_gateway_state env cl tip_set) (\<lambda>gw_state.
     lift_result (Inr (vo_last_voting_executed (gs_top_down_checkpoint_voting gw_state))))))"

definition manager_from_subnet where
  "manager_from_subnet subnet = from_subnet subnet"

section \<open>Calls\<close>

text \<open>
  The operations that push a message, as data. \<open>target\<close> is the network that the node has to belong
  to (\<open>None\<close> if the call fails before asking, \<open>Some None\<close> if it does not care), \<open>message\<close> the message
  that is pushed, given the encoded parameters.
\<close>

datatype ('cid, 'addr, 'sid) manager_call =
    Create_Subnet 'addr "'sid construct_params"
  | Join_Subnet 'sid 'addr int string
  | Leave_Subnet 'sid 'addr
  | Kill_Subnet 'sid 'addr
  | Fund_Subnet 'sid 'addr 'addr int
  | Release_Subnet 'sid 'addr 'addr int
  | Propagate_Msg 'sid 'addr 'addr 'cid
  | Set_Net_Addr 'sid 'addr string
  | Whitelist 'sid 'addr 'cid 'addr "'addr list"
  | Send_Value 'addr 'addr int

fun manager_apply where
  "manager_apply env cl (Create_Subnet from params) =
     bind_op (create_subnet env cl from params) (\<lambda>_. lift_result (Inr ()))"
| "manager_apply env cl (Join_Subnet subnet from collateral addr) = join_subnet env cl subnet from collateral addr"
| "manager_apply env cl (Leave_Subnet subnet from) = leave_subnet env cl subnet from"
| "manager_apply env cl (Kill_Subnet subnet from) = kill_subnet env cl subnet from"
| "manager_apply env cl (Fund_Subnet subnet gateway from amount) = fund env cl subnet gateway from amount"
| "manager_apply env cl (Release_Subnet subnet gateway from amount) = release env cl subnet gateway from amount"
| "manager_apply env cl (Propagate_Msg subnet gateway from cid) = propagate env cl subnet gateway from cid"
| "manager_apply env cl (Set_Net_Addr subnet from addr) = set_validator_net_addr env cl subnet from addr"
| "manager_apply env cl (Whitelist subnet gateway cid from to_add) =
     whitelist_propagator env cl subnet gateway cid from to_add"
| "manager_apply env cl (Send_Value from to amount) = send_value env cl from to amount"

fun target where
  "target env (Create_Subnet from params) = Some (Some (cp_parent params))"
| "target env (Join_Subnet subnet from collateral addr) = map_option Some (ae_sid_parent env subnet)"
| "target env (Leave_Subnet subnet from) = map_option Some (ae_sid_parent env subnet)"
| "target env (Kill_Subnet subnet from) = map_option Some (ae_sid_parent env subnet)"
| "target env (Fund_Subnet subnet gateway from amount) = map_option Some (ae_sid_parent env subnet)"
| "target env (Release_Subnet subnet gateway from amount) = Some (Some subnet)"
| "target env (Propagate_Msg subnet gateway from cid) = Some (Some subnet)"
| "target env (Set_Net_Addr subnet from addr) = map_option Some (ae_sid_parent env subnet)"
| "target env (Whitelist subnet gateway cid from to_add) = Some (Some subnet)"
| "target env (Send_Value from to amount) = Some None"

text \<open>Recipient, sender, value and method of the pushed message.\<close>

fun envelope where
  "envelope env (Create_Subnet from params) = (ae_init_actor env, from, 0, ae_method_num env Init_Exec)"
| "envelope env (Join_Subnet subnet from collateral addr) =
     (ae_subnet_actor env subnet, from, collateral, ae_method_num env Join)"
| "envelope env (Leave_Subnet subnet from) = (ae_subnet_actor env subnet, from, 0, ae_method_num env Leave)"
| "envelope env (Kill_Subnet subnet from) = (ae_subnet_actor env subnet, from, 0, ae_method_num env Kill)"
| "envelope env (Fund_Subnet subnet gateway from amount) = (gateway, from, amount, ae_method_num env Fund)"
| "envelope env (Release_Subnet subnet gateway from amount) = (gateway, from, amount, ae_method_num env Release)"
| "envelope env (Propagate_Msg subnet gateway from cid) = (gateway, from, 0, ae_method_num env Propagate)"
| "envelope env (Set_Net_Addr subnet from addr) =
     (ae_subnet_actor env subnet, from, 0, ae_method_num env SetValidatorNetAddr)"
| "envelope env (Whitelist subnet gateway cid from to_add) =
     (gateway, from, 0, ae_method_num env WhiteListPropagator)"
| "envelope env (Send_Value from to amount) = (to, from, amount, ae_method_num env Send)"

text \<open>The parameters of the pushed message.\<close>

fun encodes where
  "encodes env (Create_Subnet from params) bs \<longleftrightarrow>
     (\<exists>code_cid cs. ae_cbor env (Construct_Params params) = Inr cs \<and> ae_cbor env (Exec_Params code_cid cs) = Inr bs)"
| "encodes env (Join_Subnet subnet from collateral addr) bs \<longleftrightarrow> ae_cbor env (Join_Params addr) = Inr bs"
| "encodes env (Fund_Subnet subnet gateway from amount) bs \<longleftrightarrow> ae_cbor env (Fund_Params subnet) = Inr bs"
| "encodes env (Propagate_Msg subnet gateway from cid) bs \<longleftrightarrow> ae_cbor env (Propagate_Params cid) = Inr bs"
| "encodes env (Set_Net_Addr subnet from addr) bs \<longleftrightarrow> ae_cbor env (Join_Params addr) = Inr bs"
| "encodes env (Whitelist subnet gateway cid from to_add) bs \<longleftrightarrow> ae_cbor env (Whitelist_Params cid to_add) = Inr bs"
| "encodes env (Leave_Subnet subnet from) bs \<longleftrightarrow> bs = []"
| "encodes env (Kill_Subnet subnet from) bs \<longleftrightarrow> bs = []"
| "encodes env (Release_Subnet subnet gateway from amount) bs \<longleftrightarrow> bs = []"
| "encodes env (Send_Value from to amount) bs \<longleftrightarrow> bs = []"

definition message_of where
  "message_of env call msg \<longleftrightarrow>
     (mp_to msg, mp_from msg, mp_value msg, mp_method msg) = envelope env call \<and> encodes env call (mp_params msg)"

definition pushed_for where
  "pushed_for env cl call r \<longleftrightarrow> read_only cl r \<or> 
     (\<exists>msg :: ('cid, 'addr) mpool_push_message. message_of env call msg \<and> pushes env cl msg r)"

section \<open>Lemmas\<close>

lemma sends_fail [sends_intros]: "sends P (fail msg)"
  unfolding fail_def by (rule sends_Inl)

lemma sends_pure [sends_intros]:
  "sends P (cbor_serialize env p)" "sends P (parent_of env sid msg)"
  unfolding cbor_serialize_def parent_of_def by (rule sends_Inl)+

lemma sends_is_network_match [sends_intros]: "sends (read_only cl) (is_network_match env cl network)"
  unfolding is_network_match_def by (intro sends_intros)

lemma sends_guard_network:
  "(\<And>r. read_only cl r \<Longrightarrow> P r) \<Longrightarrow> sends P op \<Longrightarrow> sends P (guard_network env cl network msg op)"
  unfolding guard_network_def
  by (intro sends_bind sends_if sends_fail) (auto intro: sends_mono [OF sends_is_network_match])

lemma sends_code_cid [sends_intros]: "sends (read_only cl) (get_subnet_actor_code_cid env cl)"
  unfolding get_subnet_actor_code_cid_def by (intro sends_intros)

lemma sends_manager_reads [sends_intros]:
  "sends (read_only cl) (list_child_subnets env cl a)"
  "sends (read_only cl) (manager_wallet_list env cl)"
  "sends (read_only cl) (manager_wallet_balance env cl a)"
  "sends (read_only cl) (list_checkpoints env cl sid e e')"
  "sends (read_only cl) (last_topdown_executed env cl)"
  unfolding list_child_subnets_def manager_wallet_list_def manager_wallet_balance_def
    list_checkpoints_def last_topdown_executed_def
  by (intro sends_intros)+

lemma sends_push_and_wait:
  assumes "\<And>r. read_only cl r \<Longrightarrow> P r" and "\<And>r. pushes env cl msg r \<Longrightarrow> P r"
  shows "sends P (mpool_push_and_wait env cl msg)"
  unfolding mpool_push_and_wait_def
  by (intro sends_bind sends_Inl) (auto intro: sends_mono [OF sends_mpool_push assms(2)] sends_mono [OF reads_only(1) assms(1)])

lemma sends_pushed_reads: "sends (read_only cl) m \<Longrightarrow> sends (pushed_for env cl call) m"
  by (erule sends_mono) (simp add: pushed_for_def)

lemma sends_pushed_guard:
  "sends (pushed_for env cl call) op \<Longrightarrow> sends (pushed_for env cl call) (guard_network env cl network msg op)"
  by (rule sends_guard_network) (simp_all add: pushed_for_def)

lemma cbor_serialize_Inr [simp]: "cbor_serialize env p net = (Inr bs, net') \<longleftrightarrow> ae_cbor env p = Inr bs \<and> net' = net"
  by (auto simp: cbor_serialize_def)

lemma sends_pushed_push:
  fixes env :: "('w, 'cid, 'addr, 'sid, 'ipc, 'x) agent_env_scheme"
    and msg :: "('cid, 'addr) mpool_push_message"
  shows "message_of env call msg \<Longrightarrow> sends (pushed_for env cl call) (mpool_push_and_wait env cl msg)"
  by (rule sends_push_and_wait) (auto simp: pushed_for_def)

lemmas manager_operations = create_subnet_def join_subnet_def leave_subnet_def kill_subnet_def
  fund_def release_def propagate_def set_validator_net_addr_def whitelist_propagator_def send_value_def

lemma sends_manager_apply: "sends (pushed_for env cl call) (manager_apply env cl call)"
  by (cases call)
    (simp_all only: manager_apply.simps manager_operations,
     (intro sends_pushed_guard sends_bind_result sends_Inl sends_pure sends_pushed_push
        sends_code_cid [THEN sends_pushed_reads];
      auto simp: message_of_def mpool_push_message_new_def)+)

lemma pushes_upto_guard:
  "pushes_upto n op \<Longrightarrow> pushes_upto n (guard_network env cl network msg op)"
proof -
  assume op: "pushes_upto n op"
  have "pushes_upto n (if ok then op else fail msg)" for ok
    using op by (auto simp: fail_def pushes_upto_def)
  then have "pushes_upto (0 + n) (guard_network env cl network msg op)"
    unfolding guard_network_def
    by (intro pushes_upto_bind pushes_upto_reads [OF sends_is_network_match])
  then show ?thesis
    by simp
qed

lemma pushes_upto_push_and_wait: "pushes_upto 1 (mpool_push_and_wait env cl msg)"
  unfolding mpool_push_and_wait_def
  using pushes_upto_bind [OF pushes_upto_push pushes_upto_bind [OF pushes_upto_lift pushes_upto_reads [OF reads_only(1)]]]
  by simp

lemma pushes_upto_then: "pushes_upto 0 m \<Longrightarrow> (\<And>a. pushes_upto 1 (f a)) \<Longrightarrow> pushes_upto 1 (bind_op m f)"
  using pushes_upto_bind [of 0 m 1 f] by simp

lemma pushes_upto_finish: "pushes_upto 1 m \<Longrightarrow> pushes_upto 1 (bind_op m (\<lambda>a. lift_result (g a)))"
  using pushes_upto_bind [of 1 m 0 "\<lambda>a. lift_result (g a)", OF _ pushes_upto_lift] by simp

lemma pushes_upto_pure: "pushes_upto 0 (cbor_serialize env p)" "pushes_upto 0 (parent_of env sid msg)"
  unfolding cbor_serialize_def parent_of_def by (rule pushes_upto_lift)+

lemma pushes_upto_manager_apply: "pushes_upto 1 (manager_apply env cl call)"
  by (cases call)
    (simp_all only: manager_apply.simps manager_operations,
     (intro pushes_upto_guard pushes_upto_finish pushes_upto_push_and_wait
        pushes_upto_then [OF pushes_upto_pure(1)] pushes_upto_then [OF pushes_upto_pure(2)]
        pushes_upto_then [OF pushes_upto_reads [OF sends_code_cid]])+)

lemma bind_op_fst_snd:
  "fst (bind_op m f s) = (case fst (m s) of Inl e \<Rightarrow> Inl e | Inr a \<Rightarrow> fst (f a (snd (m s))))"
  "snd (bind_op m f s) = (case fst (m s) of Inl e \<Rightarrow> snd (m s) | Inr a \<Rightarrow> snd (f a (snd (m s))))"
  by (simp_all add: bind_op_def split: prod.splits sum.splits)

lemma guard_network_mismatch:
  assumes "fst (state_network_name env cl net) \<noteq> Inr (ae_sid_to_string env network)"
  shows "guard_network env cl network msg op net =
    (Inl (case fst (state_network_name env cl net) of Inl e \<Rightarrow> e | Inr _ \<Rightarrow> Failed msg),
     snd (state_network_name env cl net))"
  using assms
  by (auto simp: guard_network_def is_network_match_def bind_op_def fail_def lift_result_def split: prod.splits sum.splits)

lemma sends_net: "sends P m \<Longrightarrow> \<exists>new. net_sent (snd (m net)) = net_sent net @ new \<and> list_all P new"
  by (simp add: sends_def)

section \<open>Properties\<close>

text \<open>
  C15. Whatever the node answers, an operation on a subnet sends only read-only requests and the one
  message it stands for, at most once, to its own node: with the recipient, the sender, the value,
  the method and the encoded parameters that belong to the operation.
\<close>

theorem manager_sends_its_message:
  "\<exists>new. net_sent (snd (manager_apply env cl call net)) = net_sent net @ new \<and>
     list_all (pushed_for env cl call) new \<and> length (filter is_push new) \<le> 1"
proof -
  obtain new where "net_sent (snd (manager_apply env cl call net)) = net_sent net @ new"
    "list_all (pushed_for env cl call) new"
    using sends_net [OF sends_manager_apply] by metis
  moreover have "push_count (snd (manager_apply env cl call net)) \<le> push_count net + 1"
    using pushes_upto_manager_apply unfolding pushes_upto_def by metis
  ultimately show ?thesis
    by (auto simp: push_count_def)
qed

text \<open>
  C27. Nothing is pushed to the wrong network: when the node does not report the name of the network
  that the operation is meant for, or when there is no such network because the subnet is the root,
  the operation fails and has only sent read-only requests.
\<close>

theorem manager_refuses_wrong_network:
  assumes "target env call \<noteq> Some None"
    and "\<forall>network. target env call = Some (Some network) \<longrightarrow>
      fst (state_network_name env cl net) \<noteq> Inr (ae_sid_to_string env network)"
  shows "(\<exists>e. fst (manager_apply env cl call net) = Inl e) \<and>
    (\<exists>new. net_sent (snd (manager_apply env cl call net)) = net_sent net @ new \<and> list_all (read_only cl) new)"
proof -
  have none: "(\<exists>e. fst (manager_apply env cl call net) = Inl e) \<and> snd (manager_apply env cl call net) = net"
    if "target env call = None"
    using that
    by (cases call) (simp_all add: manager_operations parent_of_def bind_op_def lift_result_def)
  have some: "(\<exists>e. fst (manager_apply env cl call net) = Inl e) \<and>
      snd (manager_apply env cl call net) = snd (state_network_name env cl net)"
    if "target env call = Some (Some network)" for network
  proof -
    have "fst (state_network_name env cl net) \<noteq> Inr (ae_sid_to_string env network)"
      using assms(2) that by blast
    note mismatch = guard_network_mismatch [OF this]
    show ?thesis
      using that by (cases call) (auto simp: manager_operations parent_of_def bind_op_fst_snd mismatch)
  qed
  show ?thesis
  proof (cases "target env call")
    case None
    with none show ?thesis
      by simp
  next
    case (Some t)
    then obtain network where "target env call = Some (Some network)"
      using assms(1) by (cases t) auto
    with some [OF this] sends_net [OF reads_only(2), of env cl net] show ?thesis
      by simp
  qed
qed

theorem manager_refuses_wrong_network_witness:
  "\<exists>e. fst (manager_apply (sample_agent (\<lambda>_. reply (JStr ''/root/tt''))) \<lparr>cl_url = ''u'', cl_bearer_token = None\<rparr>
      (Fund_Subnet [3] 9 5 100) \<lparr>net_remote = [''t''], net_sent = []\<rparr>) = Inl e"
  by (rule manager_refuses_wrong_network [THEN conjunct1])
    (simp_all add: sample_agent_with_def sample_sid_to_string_def state_network_name_def request_def bind_op_def
      post_def build_jsonrpc_request_def read_response_reply lift_result_def)

end
