(* ===== verification/Checkpoint_Json.thy ===== *)
theory Checkpoint_Json
  imports Lotus_Types
begin

text \<open>
  The two JSON forms of bottom-up checkpoints: the form in which the agent returns them,
  \<^verbatim>\<open>src/src/serialization/checkpoint.rs\<close>, and the form in which a Lotus node sends them, with the
  conversion of \<^verbatim>\<open>src/src/lotus/message/ipc.rs\<close>.
\<close>

section \<open>Checkpoints returned by the agent\<close>

text \<open>\<open>to_u64().unwrap_or_default()\<close>.\<close>

definition to_u64_or_default :: "int \<Rightarrow> int" where
  "to_u64_or_default n = (if 0 \<le> n \<and> n < 2 ^ 64 then n else 0)"

definition unwrap :: "(string, 'a) result \<Rightarrow> (agent_error, 'a) result" where
  "unwrap r = map_err Panicked r"

definition cross_msg_to_json where
  "cross_msg_to_json env c =
     bind_result (unwrap (ae_ipc_to_string env (sm_from (xm_msg c)))) (\<lambda>from.
     bind_result (unwrap (ae_ipc_to_string env (sm_to (xm_msg c)))) (\<lambda>to.
     Inr (JObj
       [(''from'', JStr from), (''to'', JStr to), (''method'', JNum (uint (sm_method (xm_msg c)))),
        (''params'', JStr (ae_b64_encode env (sm_params (xm_msg c)))),
        (''value'', JNum (to_u64_or_default (sm_value (xm_msg c)))),
        (''nonce'', JNum (uint (sm_nonce (xm_msg c))))])))"

definition batch_cross_msgs_to_json where
  "batch_cross_msgs_to_json env b =
     bind_result
       (case bm_cross_msgs b of
          Some msgs \<Rightarrow> collect_results (cross_msg_to_json env) msgs
        | None \<Rightarrow> Inr []) (\<lambda>vs.
     Inr (JObj [(''fee'', ae_amount_to_json env (bm_fee b)), (''cross_msgs'', JArr vs)]))"

definition child_check_to_json where
  "child_check_to_json env c =
     JObj [(''source'', JStr (ae_sid_to_string env (cch_source c))),
           (''checks'', JArr (map (\<lambda>cid. JStr (ae_cid_to_string env cid)) (cch_checks c)))]"

definition check_data_to_json where
  "check_data_to_json env d =
     bind_result (batch_cross_msgs_to_json env (cd_cross_msgs d)) (\<lambda>cross_msgs.
     Inr (JObj
       [(''source'', JStr (ae_sid_to_string env (cd_source d))),
        (''proof'', JStr (ae_b64_encode env (cd_proof d))),
        (''epoch'', JNum (cd_epoch d)),
        (''prev_check'', JStr (ae_cid_to_string env (cd_prev_check d))),
        (''children'', JArr (map (child_check_to_json env) (cd_children d))),
        (''cross_msgs'', cross_msgs)]))"

definition checkpoint_to_json where
  "checkpoint_to_json env cp =
     bind_result (check_data_to_json env (bu_data cp)) (\<lambda>data.
     Inr (JObj [(''data'', data), (''sig'', JStr (ae_b64_encode env (bu_sig cp)))]))"

section \<open>Checkpoints sent by a node\<close>

record 'ipc storable_msgs_wrapper =
  sw_from :: 'ipc
  sw_to :: 'ipc
  sw_method :: u64
  sw_params :: bytes
  sw_value :: int
  sw_nonce :: u64

record 'ipc cross_msgs_wrapper =
  xw_msg :: "'ipc storable_msgs_wrapper"
  xw_wrapped :: bool

record 'ipc batch_cross_msgs_wrapper =
  bw_cross_msgs :: "'ipc cross_msgs_wrapper list option"
  bw_fee :: int

record 'sid check_data_child =
  cw_source :: 'sid
  cw_checks :: "cid_map list"

record ('sid, 'ipc) check_data_wrapper =
  dw_source :: 'sid
  dw_proof :: "bytes option"
  dw_epoch :: int
  dw_prev_check :: "cid_map option"
  dw_children :: "'sid check_data_child list option"
  dw_cross_msgs :: "'ipc batch_cross_msgs_wrapper option"

record ('sid, 'ipc) checkpoint_wrapper =
  uw_data :: "('sid, 'ipc) check_data_wrapper"
  uw_sig :: "bytes option"

definition cross_msg_of_wrapper :: "'ipc cross_msgs_wrapper \<Rightarrow> 'ipc cross_msg" where
  "cross_msg_of_wrapper w =
     \<lparr>xm_msg = \<lparr>sm_from = sw_from (xw_msg w), sm_to = sw_to (xw_msg w), sm_method = sw_method (xw_msg w),
        sm_params = sw_params (xw_msg w), sm_value = sw_value (xw_msg w), sm_nonce = sw_nonce (xw_msg w)\<rparr>,
      xm_wrapped = xw_wrapped w\<rparr>"

definition batch_of_wrapper :: "'ipc batch_cross_msgs_wrapper \<Rightarrow> 'ipc batch_cross_msgs" where
  "batch_of_wrapper w =
     \<lparr>bm_cross_msgs = map_option (map cross_msg_of_wrapper) (bw_cross_msgs w), bm_fee = bw_fee w\<rparr>"

definition child_of_wrapper where
  "child_of_wrapper env c =
     bind_result (collect_results (cid_of_map env) (cw_checks c)) (\<lambda>checks.
     Inr \<lparr>cch_source = cw_source c, cch_checks = checks\<rparr>)"

definition checkpoint_of_wrapper where
  "checkpoint_of_wrapper env w =
     bind_result (case dw_prev_check (uw_data w) of Some m \<Rightarrow> cid_of_map env m | None \<Rightarrow> Inr (ae_cid_default env)) (\<lambda>prev_check.
     bind_result (case dw_children (uw_data w) of Some cs \<Rightarrow> collect_results (child_of_wrapper env) cs | None \<Rightarrow> Inr []) (\<lambda>children.
     Inr \<lparr>bu_data =
            \<lparr>cd_source = dw_source (uw_data w),
             cd_proof = (case dw_proof (uw_data w) of Some p \<Rightarrow> p | None \<Rightarrow> []),
             cd_epoch = dw_epoch (uw_data w), cd_prev_check = prev_check, cd_children = children,
             cd_cross_msgs = (case dw_cross_msgs (uw_data w) of Some b \<Rightarrow> batch_of_wrapper b | None \<Rightarrow> ae_batch_default env)\<rparr>,
          bu_sig = (case uw_sig w of Some s \<Rightarrow> s | None \<Rightarrow> [])\<rparr>))"

section \<open>What a node sends for a checkpoint\<close>

text \<open>The wrapper of a checkpoint: the form that the conversion has to invert.\<close>

definition wrap_cross_msg :: "'ipc cross_msg \<Rightarrow> 'ipc cross_msgs_wrapper" where
  "wrap_cross_msg c =
     \<lparr>xw_msg = \<lparr>sw_from = sm_from (xm_msg c), sw_to = sm_to (xm_msg c), sw_method = sm_method (xm_msg c),
        sw_params = sm_params (xm_msg c), sw_value = sm_value (xm_msg c), sw_nonce = sm_nonce (xm_msg c)\<rparr>,
      xw_wrapped = xm_wrapped c\<rparr>"

definition wrap_checkpoint where
  "wrap_checkpoint env cp =
     (let d = bu_data cp
      in \<lparr>uw_data =
            \<lparr>dw_source = cd_source d, dw_proof = Some (cd_proof d), dw_epoch = cd_epoch d,
             dw_prev_check = Some (map_of_cid env (cd_prev_check d)),
             dw_children = Some (map (\<lambda>c. \<lparr>cw_source = cch_source c, cw_checks = map (map_of_cid env) (cch_checks c)\<rparr>)
               (cd_children d)),
             dw_cross_msgs = Some \<lparr>bw_cross_msgs = map_option (map wrap_cross_msg) (bm_cross_msgs (cd_cross_msgs d)),
               bw_fee = bm_fee (cd_cross_msgs d)\<rparr>\<rparr>,
          uw_sig = Some (bu_sig cp)\<rparr>)"

section \<open>Lemmas\<close>

lemma cid_map_roundtrip: "codec_roundtrips env \<Longrightarrow> cid_of_map env (map_of_cid env c) = Inr c"
  by (simp add: codec_roundtrips_def cid_of_map_def map_of_cid_def)

lemma collect_results_map_Inr:
  "(\<And>x. x \<in> set xs \<Longrightarrow> f (g x) = Inr (h x)) \<Longrightarrow> collect_results f (map g xs) = Inr (map h xs)"
  by (induction xs) auto

lemma cross_msg_wrapper_inverse [simp]: "cross_msg_of_wrapper (wrap_cross_msg c) = (c :: 'ipc cross_msg)"
  by (simp add: cross_msg_of_wrapper_def wrap_cross_msg_def)

section \<open>Properties\<close>



text \<open>
  The value of a cross-net message is only reported if it fits into 64 bits: every larger amount
  (from about 18.4 FIL on) is shown as zero.
\<close>

theorem cross_msg_value_reported:
  assumes "cross_msg_to_json env c = Inr (JObj fs)"
  shows "values_of ''value'' fs = [JNum (if 0 \<le> sm_value (xm_msg c) \<and> sm_value (xm_msg c) < 2 ^ 64 then sm_value (xm_msg c) else 0)]"
  using assms by (auto simp: cross_msg_to_json_def to_u64_or_default_def)

theorem cross_msg_value_reported_witness:
  "\<exists>fs. cross_msg_to_json (sample_agent JStr) \<lparr>xm_msg = \<lparr>sm_from = ''a'', sm_to = ''b'', sm_method = 0, sm_params = [],
       sm_value = 20 * 10 ^ 18, sm_nonce = 0\<rparr>, xm_wrapped = False\<rparr> = Inr (JObj fs) \<and> values_of ''value'' fs = [JNum 0]"
proof -
  let ?c = "\<lparr>xm_msg = \<lparr>sm_from = ''a'', sm_to = ''b'', sm_method = 0, sm_params = [], sm_value = 20 * 10 ^ 18, sm_nonce = 0\<rparr>,
    xm_wrapped = False\<rparr>"
  obtain fs where "cross_msg_to_json (sample_agent JStr) ?c = Inr (JObj fs)"
    by (simp add: cross_msg_to_json_def unwrap_def sample_agent_with_def)
  with cross_msg_value_reported [OF this] show ?thesis
    by auto
qed

end
