(* ===== verification/Rpc_Server.thy ===== *)
theory Rpc_Server
  imports Subnet_Manager Checkpoint_Json
begin

text \<open>
  The JSON-RPC server of the agent, \<^verbatim>\<open>src/src/server/**\<close>: the handlers of its methods, their table, and
  the processing of an HTTP request.

  The state of the server is the network it talks to and its reloadable configuration. The handlers
  for subnets take the configuration they find in the pool; each of them decodes its parameters,
  looks up the node to talk to, and calls the subnet manager.
\<close>

section \<open>Methods\<close>

datatype rpc_method =
    CREATE_SUBNET | JOIN_SUBNET | LEAVE_SUBNET | KILL_SUBNET | FUND | RELEASE | PROPAGATE
  | WHITELIST_PROPAGATOR | LIST_CHILD_SUBNETS | RELOAD_CONFIG | QUERY_VALIDATOR_SET
  | SET_VALIDATOR_NET_ADDR | SEND_VALUE | RPC_WALLET_NEW | RPC_WALLET_LIST
  | LIST_BOTTOMUP_CHECKPOINTS | LAST_TOPDOWN_EXECUTED

fun json_rpc_methods :: "rpc_method \<Rightarrow> string" where
  "json_rpc_methods CREATE_SUBNET = ''ipc_createSubnet''"
| "json_rpc_methods JOIN_SUBNET = ''ipc_joinSubnet''"
| "json_rpc_methods LEAVE_SUBNET = ''ipc_leaveSubnet''"
| "json_rpc_methods KILL_SUBNET = ''ipc_killSubnet''"
| "json_rpc_methods FUND = ''ipc_fund''"
| "json_rpc_methods RELEASE = ''ipc_release''"
| "json_rpc_methods PROPAGATE = ''ipc_propagate''"
| "json_rpc_methods WHITELIST_PROPAGATOR = ''ipc_whitelistPropagator''"
| "json_rpc_methods LIST_CHILD_SUBNETS = ''ipc_listChildSubnets''"
| "json_rpc_methods RELOAD_CONFIG = ''ipc_reloadConfig''"
| "json_rpc_methods QUERY_VALIDATOR_SET = ''ipc_queryValidatorSet''"
| "json_rpc_methods SET_VALIDATOR_NET_ADDR = ''ipc_setValidatorNetAddr''"
| "json_rpc_methods SEND_VALUE = ''ipc_sendValue''"
| "json_rpc_methods RPC_WALLET_NEW = ''ipc_walletNew''"
| "json_rpc_methods RPC_WALLET_LIST = ''ipc_walletList''"
| "json_rpc_methods LIST_BOTTOMUP_CHECKPOINTS = ''ipc_listBottomUpCheckpoints''"
| "json_rpc_methods LAST_TOPDOWN_EXECUTED = ''ipc_lastTopDownCheckpointExecuted''"

section \<open>The pool and the shared checks\<close>

definition pool_get where
  "pool_get config sid = co_subnets config sid"

definition check_subnet where
  "check_subnet subnet =
     lift_result (if sn_auth_token subnet = None then Inl (Failed ''Internal server error'') else Inr ())"

definition parse_from where
  "parse_from env subnet from =
     lift_result
       (case from of
          Some addr \<Rightarrow> map_err Failed (ae_addr_from_str env addr)
        | None \<Rightarrow>
            (case sn_accounts subnet of
               [] \<Rightarrow> Inl (Failed ''Internal server error'')
             | a # _ \<Rightarrow> Inr a))"

definition parse_subnet where
  "parse_subnet env s = lift_result (map_err Failed (ae_sid_from_str env s))"

definition parse_addr where
  "parse_addr env s = lift_result (map_err Failed (ae_addr_from_str env s))"

definition find_subnet where
  "find_subnet config sid msg =
     lift_result (case pool_get config sid of None \<Rightarrow> Inl (Failed msg) | Some s \<Rightarrow> Inr s)"

abbreviation no_parent_subnet :: string where
  "no_parent_subnet \<equiv> ''target parent subnet not found''"

abbreviation no_subnet :: string where
  "no_subnet \<equiv> ''target subnet not found''"

text \<open>The decoding of the parameters with \<open>serde_json::from_value\<close>.\<close>

text \<open>The parameter structs of the methods: the names of their fields, in the order of the declaration.\<close>

fun param_names :: "rpc_method \<Rightarrow> string list" where
  "param_names CREATE_SUBNET = [''from'', ''parent'', ''name'', ''min_validator_stake'', ''min_validators'', ''bottomup_check_period'', ''topdown_check_period'']"
| "param_names JOIN_SUBNET = [''subnet'', ''from'', ''collateral'', ''validator_net_addr'']"
| "param_names LEAVE_SUBNET = [''subnet'', ''from'']"
| "param_names KILL_SUBNET = [''subnet'', ''from'']"
| "param_names FUND = [''subnet'', ''from'', ''amount'']"
| "param_names RELEASE = [''subnet'', ''from'', ''amount'']"
| "param_names PROPAGATE = [''subnet'', ''from'', ''postbox_msg_cid'']"
| "param_names WHITELIST_PROPAGATOR = [''subnet'', ''from'', ''postbox_msg_cid'', ''to_add'']"
| "param_names LIST_CHILD_SUBNETS = [''gateway_address'', ''subnet_id'']"
| "param_names RELOAD_CONFIG = [''path'']"
| "param_names QUERY_VALIDATOR_SET = [''subnet'']"
| "param_names SET_VALIDATOR_NET_ADDR = [''subnet'', ''from'', ''validator_net_addr'']"
| "param_names SEND_VALUE = [''subnet'', ''from'', ''to'', ''amount'']"
| "param_names RPC_WALLET_NEW = [''subnet'', ''key_type'']"
| "param_names RPC_WALLET_LIST = [''subnet'']"
| "param_names LIST_BOTTOMUP_CHECKPOINTS = [''subnet_id'', ''from_epoch'', ''to_epoch'']"
| "param_names LAST_TOPDOWN_EXECUTED = [''subnet_id'']"

definition with_fields where
  "with_fields m params f = bind_op (lift_result (map_err Failed (struct_fields (param_names m) params))) f"

definition arg where
  "arg k de fs f = bind_op (lift_result (map_err Failed (required k de fs))) f"

definition opt_arg where
  "opt_arg k de fs f = bind_op (lift_result (map_err Failed (optional k de fs))) f"

section \<open>Handlers that change a subnet\<close>

definition create_handle where
  "create_handle env config params =
     with_fields CREATE_SUBNET params (\<lambda>fs.
     opt_arg ''from'' de_string fs (\<lambda>from.
     arg ''parent'' de_string fs (\<lambda>parent.
     arg ''name'' de_string fs (\<lambda>name.
     arg ''min_validator_stake'' de_word fs (\<lambda>stake.
     arg ''min_validators'' de_word fs (\<lambda>min_validators.
     arg ''bottomup_check_period'' de_i64 fs (\<lambda>bottomup.
     arg ''topdown_check_period'' de_i64 fs (\<lambda>topdown.
     bind_op (parse_subnet env parent) (\<lambda>parent.
     bind_op (find_subnet config parent no_parent_subnet) (\<lambda>subnet.
     bind_op (check_subnet subnet) (\<lambda>_.
     bind_op (lift_result (map_err Failed (ae_addr_id env (sn_gateway_addr subnet)))) (\<lambda>gateway_id.
     bind_op (parse_from env subnet from) (\<lambda>from.
     bind_op (create_subnet env (manager_from_subnet subnet) from
       \<lparr>cp_parent = parent, cp_name = name, cp_ipc_gateway_addr = gateway_id, cp_consensus = Mir,
        cp_min_validator_stake = ae_from_whole env stake, cp_min_validators = min_validators,
        cp_bottomup_check_period = bottomup, cp_topdown_check_period = topdown, cp_genesis = []\<rparr>) (\<lambda>addr.
     lift_result (Inr (JObj [(''address'', JStr (ae_addr_to_string env addr))]))))))))))))))))"

text \<open>The answer \<open>()\<close> of the handlers that return nothing.\<close>

definition answer_unit where
  "answer_unit op = bind_op op (\<lambda>_. lift_result (Inr JNull))"

definition with_parent where
  "with_parent env config sid msg f =
     bind_op (parent_of env sid msg) (\<lambda>parent.
     bind_op (find_subnet config parent no_parent_subnet) f)"

definition join_handle where
  "join_handle env config params =
     with_fields JOIN_SUBNET params (\<lambda>fs.
     arg ''subnet'' de_string fs (\<lambda>subnet_str.
     opt_arg ''from'' de_string fs (\<lambda>from.
     arg ''collateral'' de_word fs (\<lambda>collateral.
     arg ''validator_net_addr'' de_string fs (\<lambda>net_addr.
     bind_op (parse_subnet env subnet_str) (\<lambda>sid.
     with_parent env config sid ''no parent found'' (\<lambda>subnet.
     bind_op (check_subnet subnet) (\<lambda>_.
     bind_op (parse_from env subnet from) (\<lambda>from.
     answer_unit (join_subnet env (manager_from_subnet subnet) sid from (ae_from_whole env collateral) net_addr))))))))))"

definition leave_handle where
  "leave_handle env config params =
     with_fields LEAVE_SUBNET params (\<lambda>fs.
     arg ''subnet'' de_string fs (\<lambda>subnet_str.
     opt_arg ''from'' de_string fs (\<lambda>from.
     bind_op (parse_subnet env subnet_str) (\<lambda>sid.
     with_parent env config sid ''no parent found'' (\<lambda>subnet.
     bind_op (check_subnet subnet) (\<lambda>_.
     bind_op (parse_from env subnet from) (\<lambda>from.
     answer_unit (leave_subnet env (manager_from_subnet subnet) sid from))))))))"

definition kill_handle where
  "kill_handle env config params =
     with_fields KILL_SUBNET params (\<lambda>fs.
     arg ''subnet'' de_string fs (\<lambda>subnet_str.
     opt_arg ''from'' de_string fs (\<lambda>from.
     bind_op (parse_subnet env subnet_str) (\<lambda>sid.
     with_parent env config sid ''no parent found'' (\<lambda>subnet.
     bind_op (check_subnet subnet) (\<lambda>_.
     bind_op (parse_from env subnet from) (\<lambda>from.
     answer_unit (kill_subnet env (manager_from_subnet subnet) sid from))))))))"

definition fund_handle where
  "fund_handle env config params =
     with_fields FUND params (\<lambda>fs.
     arg ''subnet'' de_string fs (\<lambda>subnet_str.
     opt_arg ''from'' de_string fs (\<lambda>from.
     arg ''amount'' de_word fs (\<lambda>amount.
     bind_op (parse_subnet env subnet_str) (\<lambda>sid.
     with_parent env config sid ''no parent found'' (\<lambda>subnet.
     bind_op (check_subnet subnet) (\<lambda>_.
     bind_op (parse_from env subnet from) (\<lambda>from.
     answer_unit (fund env (manager_from_subnet subnet) sid (sn_gateway_addr subnet) from (ae_from_whole env amount))))))))))"

definition release_handle where
  "release_handle env config params =
     with_fields RELEASE params (\<lambda>fs.
     arg ''subnet'' de_string fs (\<lambda>subnet_str.
     opt_arg ''from'' de_string fs (\<lambda>from.
     arg ''amount'' de_word fs (\<lambda>amount.
     bind_op (parse_subnet env subnet_str) (\<lambda>sid.
     bind_op (find_subnet config sid no_subnet) (\<lambda>subnet.
     bind_op (check_subnet subnet) (\<lambda>_.
     bind_op (parse_from env subnet from) (\<lambda>from.
     answer_unit (release env (manager_from_subnet subnet) sid (sn_gateway_addr subnet) from (ae_from_whole env amount))))))))))"

definition propagate_handle where
  "propagate_handle env config params =
     with_fields PROPAGATE params (\<lambda>fs.
     arg ''subnet'' de_string fs (\<lambda>subnet_str.
     opt_arg ''from'' de_string fs (\<lambda>from.
     arg ''postbox_msg_cid'' (ae_de_cid env) fs (\<lambda>cid.
     bind_op (parse_subnet env subnet_str) (\<lambda>sid.
     bind_op (find_subnet config sid no_subnet) (\<lambda>subnet.
     bind_op (check_subnet subnet) (\<lambda>_.
     bind_op (parse_from env subnet from) (\<lambda>from.
     bind_op (parse_subnet env subnet_str) (\<lambda>sid.
     answer_unit (propagate env (manager_from_subnet subnet) sid (sn_gateway_addr subnet) from cid))))))))))"

definition net_addr_handle where
  "net_addr_handle env config params =
     with_fields SET_VALIDATOR_NET_ADDR params (\<lambda>fs.
     arg ''subnet'' de_string fs (\<lambda>subnet_str.
     opt_arg ''from'' de_string fs (\<lambda>from.
     arg ''validator_net_addr'' de_string fs (\<lambda>net_addr.
     bind_op (parse_subnet env subnet_str) (\<lambda>sid.
     with_parent env config sid ''no parent found'' (\<lambda>subnet.
     bind_op (check_subnet subnet) (\<lambda>_.
     bind_op (parse_from env subnet from) (\<lambda>from.
     answer_unit (set_validator_net_addr env (manager_from_subnet subnet) sid from net_addr)))))))))"

definition whitelist_handle where
  "whitelist_handle env config params =
     with_fields WHITELIST_PROPAGATOR params (\<lambda>fs.
     arg ''subnet'' de_string fs (\<lambda>subnet_str.
     opt_arg ''from'' de_string fs (\<lambda>from.
     arg ''postbox_msg_cid'' (ae_de_cid env) fs (\<lambda>cid.
     arg ''to_add'' (de_list de_string) fs (\<lambda>to_add.
     bind_op (parse_subnet env subnet_str) (\<lambda>sid.
     bind_op (find_subnet config sid no_subnet) (\<lambda>subnet.
     bind_op (check_subnet subnet) (\<lambda>_.
     bind_op (lift_result (map_err Failed (collect_results (ae_addr_from_str env) to_add))) (\<lambda>to_add.
     bind_op (parse_from env subnet from) (\<lambda>from.
     answer_unit (whitelist_propagator env (manager_from_subnet subnet) sid (sn_gateway_addr subnet) cid from to_add)))))))))))"

definition send_value_handle where
  "send_value_handle env config params =
     with_fields SEND_VALUE params (\<lambda>fs.
     arg ''subnet'' de_string fs (\<lambda>subnet_str.
     opt_arg ''from'' de_string fs (\<lambda>from.
     arg ''to'' de_string fs (\<lambda>to.
     arg ''amount'' de_word fs (\<lambda>amount.
     bind_op (parse_subnet env subnet_str) (\<lambda>sid.
     bind_op (find_subnet config sid no_parent_subnet) (\<lambda>subnet.
     bind_op (check_subnet subnet) (\<lambda>_.
     bind_op (parse_from env subnet from) (\<lambda>from.
     bind_op (parse_addr env to) (\<lambda>to.
     answer_unit (send_value env (manager_from_subnet subnet) from to (ae_from_whole env amount))))))))))))"

section \<open>Other handlers\<close>

definition list_subnets_handle where
  "list_subnets_handle env config params =
     with_fields LIST_CHILD_SUBNETS params (\<lambda>fs.
     arg ''gateway_address'' de_string fs (\<lambda>gateway.
     arg ''subnet_id'' de_string fs (\<lambda>subnet_str.
     bind_op (parse_subnet env subnet_str) (\<lambda>sid.
     bind_op (find_subnet config sid no_parent_subnet) (\<lambda>subnet.
     bind_op (check_subnet subnet) (\<lambda>_.
     bind_op (parse_addr env gateway) (\<lambda>gateway_addr.
     bind_op (list_child_subnets env (manager_from_subnet subnet) gateway_addr) (\<lambda>m.
     let entries = map (\<lambda>k. (ae_sid_to_string env k, the (m k))) (ae_sid_order env (dom m));
         by_name = map_of (rev entries)
     in lift_result (Inr (JObj (map (\<lambda>name. (name, subnet_info_to_json env (the (by_name name))))
          (ae_string_order env (dom by_name)))))))))))))"

definition list_checkpoints_handle where
  "list_checkpoints_handle env config params =
     with_fields LIST_BOTTOMUP_CHECKPOINTS params (\<lambda>fs.
     arg ''subnet_id'' de_string fs (\<lambda>subnet_str.
     arg ''from_epoch'' de_i64 fs (\<lambda>from_epoch.
     arg ''to_epoch'' de_i64 fs (\<lambda>to_epoch.
     bind_op (parse_subnet env subnet_str) (\<lambda>sid.
     with_parent env config sid ''subnet id does not have a parent'' (\<lambda>subnet.
     bind_op (check_subnet subnet) (\<lambda>_.
     bind_op (list_checkpoints env (manager_from_subnet subnet) sid from_epoch to_epoch) (\<lambda>cps.
     bind_op (lift_result (collect_results (checkpoint_to_json env) cps)) (\<lambda>js.
     lift_result (Inr (JArr js)))))))))))"

definition last_topdown_handle where
  "last_topdown_handle env config params =
     with_fields LAST_TOPDOWN_EXECUTED params (\<lambda>fs.
     arg ''subnet_id'' de_string fs (\<lambda>subnet_str.
     bind_op (parse_subnet env subnet_str) (\<lambda>sid.
     bind_op (find_subnet config sid no_subnet) (\<lambda>subnet.
     bind_op (check_subnet subnet) (\<lambda>_.
     bind_op (last_topdown_executed env (manager_from_subnet subnet)) (\<lambda>epoch.
     lift_result (Inr (JNum epoch))))))))"

definition wallet_new_handle where
  "wallet_new_handle env config params =
     with_fields RPC_WALLET_NEW params (\<lambda>fs.
     arg ''subnet'' de_string fs (\<lambda>subnet_str.
     arg ''key_type'' de_string fs (\<lambda>key_type.
     bind_op (parse_subnet env subnet_str) (\<lambda>sid.
     bind_op (find_subnet config sid no_subnet) (\<lambda>subnet.
     bind_op (lift_result (map_err Failed (key_type_from_str key_type))) (\<lambda>key_type.
     bind_op (manager_wallet_new env (manager_from_subnet subnet) key_type) (\<lambda>address.
     lift_result (Inr (JObj [(''address'', JStr (ae_addr_to_string env address))])))))))))"

text \<open>
  All balances are requested, even if one of the requests fails; the requests run concurrently and
  are independent of each other, here they run one after the other.
\<close>

fun join_all where
  "join_all f [] net = ([], net)"
| "join_all f (x # xs) net = (let (r, net) = f x net; (rs, net) = join_all f xs net in (r # rs, net))"

definition wallet_list_handle where
  "wallet_list_handle env config params =
     with_fields RPC_WALLET_LIST params (\<lambda>fs.
     arg ''subnet'' de_string fs (\<lambda>subnet_str.
     bind_op (parse_subnet env subnet_str) (\<lambda>sid.
     bind_op (find_subnet config sid no_subnet) (\<lambda>subnet.
     bind_op (manager_wallet_list env (manager_from_subnet subnet)) (\<lambda>addresses.
     bind_op (\<lambda>net. let (rs, net) = join_all (manager_wallet_balance env (manager_from_subnet subnet)) addresses net
                   in (collect_results (\<lambda>r. r) rs, net)) (\<lambda>balances.
     let m = map_of (rev (map (\<lambda>(balance, addr). (ae_addr_to_string env addr, ae_amount_to_string env balance))
               (zip balances addresses)))
     in lift_result (Inr (JObj (map (\<lambda>name. (name, JStr (the (m name)))) (ae_string_order env (dom m)))))))))))"

definition validator_set_to_json :: "validator_set \<Rightarrow> json" where
  "validator_set_to_json vs =
     JObj [(''validators'',
            case vs_validators vs of
              None \<Rightarrow> JNull
            | Some v \<Rightarrow> JArr (map (\<lambda>v. JObj [(''addr'', JStr (va_addr v)), (''net_addr'', JStr (va_net_addr v)),
                                             (''weight'', JStr (va_weight v))]) v)),
           (''configuration_number'', JNum (uint (vs_configuration_number vs)))]"

definition query_validator_set_handle where
  "query_validator_set_handle env config params =
     with_fields QUERY_VALIDATOR_SET params (\<lambda>fs.
     arg ''subnet'' de_string fs (\<lambda>subnet_str.
     bind_op (parse_subnet env subnet_str) (\<lambda>sid.
     with_parent env config sid ''cannot get for root'' (\<lambda>subnet.
     let lotus = from_subnet subnet in
     bind_op (chain_head env lotus) (\<lambda>head.
     bind_op (lift_result (first_tip_set env head)) (\<lambda>tip_set.
     bind_op (ipc_read_subnet_actor_state env lotus sid tip_set) (\<lambda>state.
     bind_op (ipc_get_genesis_epoch_for_subnet env lotus sid (sn_gateway_addr subnet)) (\<lambda>genesis_epoch.
     lift_result (Inr (JObj [(''validator_set'', validator_set_to_json (sa_validator_set state)),
                             (''min_validators'', JNum (uint (sa_min_validators state))),
                             (''genesis_epoch'', JNum genesis_epoch)]))))))))))"

section \<open>The table of handlers\<close>

record ('w, 'cfg) server_state =
  ss_net :: "'w net"
  ss_config :: "'cfg reloadable"

definition on_net where
  "on_net handle params st =
     (let (r, net) = handle (get_config (ss_config st)) params (ss_net st) in (r, st\<lparr>ss_net := net\<rparr>))"

definition reload_handle where
  "reload_handle env read params st =
     (case map_err Failed (bind_result (struct_fields (param_names RELOAD_CONFIG) params) (optional ''path'' de_string)) of
        Inl e \<Rightarrow> (Inl e, st)
      | Inr path \<Rightarrow>
          let (r, rl) = reload_config_handle env read path (ss_config st)
          in (map_sum id (\<lambda>_. JNull) r, st\<lparr>ss_config := rl\<rparr>))"

fun handler_of where
  "handler_of env read RELOAD_CONFIG = reload_handle env read"
| "handler_of env read CREATE_SUBNET = on_net (create_handle env)"
| "handler_of env read LEAVE_SUBNET = on_net (leave_handle env)"
| "handler_of env read KILL_SUBNET = on_net (kill_handle env)"
| "handler_of env read JOIN_SUBNET = on_net (join_handle env)"
| "handler_of env read FUND = on_net (fund_handle env)"
| "handler_of env read RELEASE = on_net (release_handle env)"
| "handler_of env read PROPAGATE = on_net (propagate_handle env)"
| "handler_of env read WHITELIST_PROPAGATOR = on_net (whitelist_handle env)"
| "handler_of env read SEND_VALUE = on_net (send_value_handle env)"
| "handler_of env read RPC_WALLET_NEW = on_net (wallet_new_handle env)"
| "handler_of env read RPC_WALLET_LIST = on_net (wallet_list_handle env)"
| "handler_of env read SET_VALIDATOR_NET_ADDR = on_net (net_addr_handle env)"
| "handler_of env read LIST_CHILD_SUBNETS = on_net (list_subnets_handle env)"
| "handler_of env read LIST_BOTTOMUP_CHECKPOINTS = on_net (list_checkpoints_handle env)"
| "handler_of env read LAST_TOPDOWN_EXECUTED = on_net (last_topdown_handle env)"
| "handler_of env read QUERY_VALIDATOR_SET = on_net (query_validator_set_handle env)"

definition all_methods :: "rpc_method list" where
  "all_methods =
     [RELOAD_CONFIG, CREATE_SUBNET, LEAVE_SUBNET, KILL_SUBNET, JOIN_SUBNET, FUND, RELEASE, PROPAGATE,
      WHITELIST_PROPAGATOR, SEND_VALUE, RPC_WALLET_NEW, RPC_WALLET_LIST, SET_VALIDATOR_NET_ADDR,
      LIST_CHILD_SUBNETS, LIST_BOTTOMUP_CHECKPOINTS, LAST_TOPDOWN_EXECUTED, QUERY_VALIDATOR_SET]"

definition handlers_new where
  "handlers_new env read = map_of (map (\<lambda>m. (json_rpc_methods m, handler_of env read m)) all_methods)"

definition handlers_handle where
  "handlers_handle env read method params st =
     (case handlers_new env read method of
        Some handler \<Rightarrow> handler params st
      | None \<Rightarrow> (Inl (Failed ''method not supported''), st))"

section \<open>Requests and responses\<close>

definition JSON_RPC_VERSION :: string where
  "JSON_RPC_VERSION = ''2.0''"

definition INVALID_REQUEST_CODE :: int where
  "INVALID_REQUEST_CODE = - 32600"

record jsonrpc_request =
  rq_id :: u64
  rq_jsonrpc :: string
  rq_method :: string
  rq_params :: json

definition de_jsonrpc_request :: "jsonrpc_request decoder" where
  "de_jsonrpc_request j =
     bind_result (struct_fields [''id'', ''jsonrpc'', ''method'', ''params''] j) (\<lambda>fs.
     bind_result (required ''id'' de_word fs) (\<lambda>i.
     bind_result (required ''jsonrpc'' de_string fs) (\<lambda>v.
     bind_result (required ''method'' de_string fs) (\<lambda>m.
     bind_result (required ''params'' de_value fs) (\<lambda>p.
     Inr \<lparr>rq_id = i, rq_jsonrpc = v, rq_method = m, rq_params = p\<rparr>)))))"

definition result_response :: "u64 \<Rightarrow> json \<Rightarrow> json" where
  "result_response i r =
     JObj [(''id'', JNum (uint i)), (''jsonrpc'', JStr JSON_RPC_VERSION), (''result'', r)]"

definition error_response :: "u64 \<Rightarrow> int \<Rightarrow> string \<Rightarrow> json" where
  "error_response i code message =
     JObj [(''id'', JNum (uint i)), (''jsonrpc'', JStr JSON_RPC_VERSION),
           (''error'', JObj [(''code'', JNum code), (''message'', JStr message), (''data'', JNull)])]"

definition invalid_request :: "u64 \<Rightarrow> json" where
  "invalid_request i = error_response i INVALID_REQUEST_CODE ''Invalid Request''"

text \<open>A panic of a handler ends the connection without a response.\<close>

definition handle_request where
  "handle_request env read req st =
     (if rq_jsonrpc req \<noteq> JSON_RPC_VERSION then (Inr (invalid_request (rq_id req)), st)
      else case handlers_handle env read (rq_method req) (rq_params req) st of
             (Inr response, st) \<Rightarrow> (Inr (result_response (rq_id req) response), st)
           | (Inl (Failed e), st) \<Rightarrow> (Inr (error_response (rq_id req) (- 1) e), st)
           | (Inl (Panicked e), st) \<Rightarrow> (Inl e, st))"

text \<open>
  The filter of the HTTP server. What warp rejects before the filter runs is not found, or a wrong
  HTTP method; the rejections are turned into a status and a text.
\<close>

definition JSON_RPC_ENDPOINT :: string where
  "JSON_RPC_ENDPOINT = ''json_rpc''"

datatype rejection = Method_Not_Allowed | Not_Found | Invalid_Parameter

definition handle_rejection :: "rejection \<Rightarrow> string \<times> nat" where
  "handle_rejection r =
     (case r of
        Not_Found \<Rightarrow> (''NOT_FOUND'', 404)
      | Invalid_Parameter \<Rightarrow> (''BAD_REQUEST'', 400)
      | Method_Not_Allowed \<Rightarrow> (''INTERNAL_SERVER_ERROR'', 500))"

datatype http_reply = Json_Reply json | Text_Reply string nat | Connection_Aborted

definition to_json_rpc_request where
  "to_json_rpc_request env body =
     (case bind_result (he_parse env body) de_jsonrpc_request of
        Inl _ \<Rightarrow> Inl Invalid_Parameter
      | Inr req \<Rightarrow> Inr req)"

definition json_rpc_filter where
  "json_rpc_filter env read is_post path body st =
     (let reject = (\<lambda>r. case handle_rejection r of (t, status) \<Rightarrow> (Text_Reply t status, st))
      in if \<not> is_post then reject Method_Not_Allowed
         else if path \<noteq> JSON_RPC_ENDPOINT then reject Not_Found
         else case to_json_rpc_request env body of
                Inl r \<Rightarrow> reject r
              | Inr req \<Rightarrow>
                  (case handle_request env read req st of
                     (Inr j, st) \<Rightarrow> (Json_Reply j, st)
                   | (Inl _, st) \<Rightarrow> (Connection_Aborted, st)))"

section \<open>What the handlers send\<close>

text \<open>
  The methods that only read, the methods that insist on a token for the node, and the parameter
  that holds the amount of tokens which a method moves, in whole tokens.
\<close>

definition read_method :: "rpc_method \<Rightarrow> bool" where
  "read_method m \<longleftrightarrow> m \<in> {LIST_CHILD_SUBNETS, LIST_BOTTOMUP_CHECKPOINTS, LAST_TOPDOWN_EXECUTED, RPC_WALLET_LIST,
     QUERY_VALIDATOR_SET}"

definition checks_token :: "rpc_method \<Rightarrow> bool" where
  "checks_token m \<longleftrightarrow> m \<notin> {RPC_WALLET_NEW, RPC_WALLET_LIST, QUERY_VALIDATOR_SET}"

definition amount_field :: "rpc_method \<Rightarrow> string option" where
  "amount_field m =
     (if m = JOIN_SUBNET then Some ''collateral''
      else if m \<in> {FUND, RELEASE, SEND_VALUE} then Some ''amount'' else None)"

definition spends :: "rpc_method \<Rightarrow> (string \<times> json) list \<Rightarrow> int \<Rightarrow> bool" where
  "spends m fs value \<longleftrightarrow>
     (case amount_field m of
        None \<Rightarrow> value = 0
      | Some k \<Rightarrow> \<exists>n. values_of k fs = [JNum n] \<and> value = n * 10 ^ 18)"

text \<open>The sender: the address given as \<open>from\<close>, or the first account of the subnet.\<close>

definition sender_ok where
  "sender_ok env subnet fs a \<longleftrightarrow>
     (\<exists>s. values_of ''from'' fs = [JStr s] \<and> ae_addr_from_str env s = Inr a) \<or>
     values_of ''from'' fs \<in> {[], [JNull]} \<and> (\<exists>as. sn_accounts subnet = a # as)"

definition served where
  "served env config m params r \<longleftrightarrow>
     (\<exists>subnet fs. struct_fields (param_names m) params = Inr fs \<and> subnet \<in> ran (co_subnets config) \<and> sent_by (from_subnet subnet) r \<and>
        (checks_token m \<longrightarrow> sn_auth_token subnet \<noteq> None) \<and>
        (read_method m \<longrightarrow> read_only (from_subnet subnet) r) \<and>
        (is_push r \<longrightarrow> (\<exists>msg :: ('cid, 'addr) mpool_push_message. pushes env (from_subnet subnet) msg r \<and> sender_ok env subnet fs (mp_from msg) \<and>
           spends m fs (mp_value msg))))"

lemma sends_with_fields:
  "(\<And>fs. struct_fields (param_names m) params = Inr fs \<Longrightarrow> sends P (f fs)) \<Longrightarrow> sends P (with_fields m params f)"
  unfolding with_fields_def by (intro sends_bind_result sends_Inl) simp

lemma sends_arg: "(\<And>a. required k de fs = Inr a \<Longrightarrow> sends P (f a)) \<Longrightarrow> sends P (arg k de fs f)"
  unfolding arg_def by (intro sends_bind_result sends_Inl) simp

lemma sends_opt_arg: "(\<And>a. optional k de fs = Inr a \<Longrightarrow> sends P (f a)) \<Longrightarrow> sends P (opt_arg k de fs f)"
  unfolding opt_arg_def by (intro sends_bind_result sends_Inl) simp

lemma sends_find_subnet:
  "(\<And>subnet. subnet \<in> ran (co_subnets config) \<Longrightarrow> sends P (f subnet)) \<Longrightarrow> sends P (bind_op (find_subnet config sid msg) f)"
  unfolding find_subnet_def pool_get_def
  by (intro sends_bind_result sends_Inl) (auto simp: ranI split: option.splits)

lemma sends_with_parent:
  "(\<And>subnet. subnet \<in> ran (co_subnets config) \<Longrightarrow> sends P (f subnet)) \<Longrightarrow> sends P (with_parent env config sid msg f)"
  unfolding with_parent_def by (intro sends_bind sends_pure sends_find_subnet)

lemma sends_check_subnet:
  "(sn_auth_token subnet \<noteq> None \<Longrightarrow> sends P (f ())) \<Longrightarrow> sends P (bind_op (check_subnet subnet) f)"
  unfolding check_subnet_def by (intro sends_bind_result sends_Inl) (auto split: if_splits)

lemma de_string_Inr [simp]: "de_string j = Inr s \<longleftrightarrow> j = JStr s"
  by (cases j) auto

lemma sends_parse_from:
  assumes "optional ''from'' de_string fs = Inr from" and "\<And>a. sender_ok env subnet fs a \<Longrightarrow> sends P (f a)"
  shows "sends P (bind_op (parse_from env subnet from) f)"
  unfolding parse_from_def
  by (intro sends_bind_result sends_Inl assms(2))
    (use assms(1) in \<open>auto simp: sender_ok_def optional_Inr_iff split: option.splits list.splits\<close>)

lemma sends_parse:
  "(\<And>a. sends P (f a)) \<Longrightarrow> sends P (bind_op (parse_subnet env s) f)"
  "(\<And>a. sends P (g a)) \<Longrightarrow> sends P (bind_op (parse_addr env s) g)"
  unfolding parse_subnet_def parse_addr_def by (intro sends_bind sends_Inl; simp)+

lemma sends_answer_unit: "sends P op \<Longrightarrow> sends P (answer_unit op)"
  unfolding answer_unit_def by (intro sends_bind sends_Inl)

lemma served_read:
  assumes "struct_fields (param_names m) params = Inr fs" and "subnet \<in> ran (co_subnets config)" and "checks_token m \<Longrightarrow> sn_auth_token subnet \<noteq> None"
    and "read_only (from_subnet subnet) r"
  shows "served env config m params r"
proof -
  have "sent_by (from_subnet subnet) r" "\<not> is_push r"
    using assms(4) read_only_not_push by (auto simp: read_only_def)
  with assms show ?thesis
    unfolding served_def by blast
qed

lemma sends_served_read:
  assumes "struct_fields (param_names m) params = Inr fs" and "subnet \<in> ran (co_subnets config)" and "checks_token m \<Longrightarrow> sn_auth_token subnet \<noteq> None"
    and "sends (read_only (from_subnet subnet)) op"
  shows "sends (served env config m params) op"
  using assms(4) by (rule sends_mono) (rule served_read [OF assms(1-3)])

lemma sends_served_call:
  fixes env :: "('w, 'cid, 'addr, 'sid, 'ipc, 'x) agent_env_scheme"
  assumes "struct_fields (param_names m) params = Inr fs" and "subnet \<in> ran (co_subnets config)" and "sn_auth_token subnet \<noteq> None"
    and "\<not> read_method m" and "sender_ok env subnet fs (fst (snd (envelope env call)))"
    and "spends m fs (fst (snd (snd (envelope env call))))"
  shows "sends (served env config m params) (manager_apply env (from_subnet subnet) call)"
  using sends_manager_apply
proof (rule sends_mono)
  fix r assume "pushed_for env (from_subnet subnet) call r"
  then consider "read_only (from_subnet subnet) r"
    | msg :: "('cid, 'addr) mpool_push_message"
      where "message_of env call msg" "pushes env (from_subnet subnet) msg r"
    unfolding pushed_for_def by blast
  then show "served env config m params r"
  proof cases
    case 1
    then show ?thesis
      using assms(1-3) by (intro served_read)
  next
    case 2
    then have "envelope env call = (mp_to msg, mp_from msg, mp_value msg, mp_method msg)"
      and "sent_by (from_subnet subnet) r"
      by (simp_all add: message_of_def pushes_def)
    with assms(5,6) have "sender_ok env subnet fs (mp_from msg)" "spends m fs (mp_value msg)"
      by simp_all
    then show ?thesis
      unfolding served_def using assms(1-4) 2(2) \<open>sent_by (from_subnet subnet) r\<close> by blast
  qed
qed

lemma spends_amount:
  assumes "token_precision env" and "amount_field m = Some k" and "required k de_word fs = Inr n"
  shows "spends m fs (ae_from_whole env n)"
  using assms by (auto simp: spends_def token_precision_def required_Inr_iff de_word_Inr)

lemma spends_nothing: "amount_field m = None \<Longrightarrow> spends m fs 0"
  by (simp add: spends_def)

lemma sends_lift_bind: "(\<And>a. sends P (f a)) \<Longrightarrow> sends P (bind_op (lift_result r) f)"
  by (intro sends_bind sends_Inl)

lemma sends_bind_lift: "sends P (bind_op m (\<lambda>a. lift_result (g a))) \<longleftrightarrow> sends P m"
proof -
  have "snd (bind_op m (\<lambda>a. lift_result (g a)) net) = snd (m net)" for net
    by (auto simp: bind_op_def split: prod.splits sum.splits)
  then show ?thesis
    by (simp add: sends_def)
qed

lemma served_create:
  assumes "struct_fields (param_names CREATE_SUBNET) params = Inr fs" "subnet \<in> ran (co_subnets config)" "sn_auth_token subnet \<noteq> None" "sender_ok env subnet fs from"
  shows "sends (served env config CREATE_SUBNET params)
    (bind_op (create_subnet env (from_subnet subnet) from cp) (\<lambda>a. lift_result (g a)))"
  using sends_served_call [where call = "Create_Subnet from cp" and m = CREATE_SUBNET and env = env, OF assms(1-3)] assms(4)
  by (simp add: sends_bind_lift read_method_def spends_nothing amount_field_def)

lemmas sends_decode = sends_with_fields sends_arg sends_opt_arg sends_parse sends_with_parent sends_find_subnet
  sends_check_subnet sends_parse_from sends_answer_unit sends_lift_bind

lemmas served_join = sends_served_call [where call = "Join_Subnet sid sender v a", unfolded manager_apply.simps envelope.simps fst_conv snd_conv]
  for sid sender v a
lemmas served_leave = sends_served_call [where call = "Leave_Subnet sid sender", unfolded manager_apply.simps envelope.simps fst_conv snd_conv]
  for sid sender
lemmas served_kill = sends_served_call [where call = "Kill_Subnet sid sender", unfolded manager_apply.simps envelope.simps fst_conv snd_conv]
  for sid sender
lemmas served_fund = sends_served_call [where call = "Fund_Subnet sid g sender v", unfolded manager_apply.simps envelope.simps fst_conv snd_conv]
  for sid g sender v
lemmas served_release = sends_served_call [where call = "Release_Subnet sid g sender v", unfolded manager_apply.simps envelope.simps fst_conv snd_conv]
  for sid g sender v
lemmas served_propagate = sends_served_call [where call = "Propagate_Msg sid g sender c", unfolded manager_apply.simps envelope.simps fst_conv snd_conv]
  for sid g sender c
lemmas served_net_addr = sends_served_call [where call = "Set_Net_Addr sid sender a", unfolded manager_apply.simps envelope.simps fst_conv snd_conv]
  for sid sender a
lemmas served_whitelist = sends_served_call [where call = "Whitelist sid g c sender l", unfolded manager_apply.simps envelope.simps fst_conv snd_conv]
  for sid g c sender l
lemmas served_send_value = sends_served_call [where call = "Send_Value sender t v", unfolded manager_apply.simps envelope.simps fst_conv snd_conv]
  for sender t v

lemma served_changes:
  assumes "token_precision env"
  shows "sends (served env config CREATE_SUBNET params) (create_handle env config params)"
    and "sends (served env config JOIN_SUBNET params) (join_handle env config params)"
    and "sends (served env config LEAVE_SUBNET params) (leave_handle env config params)"
    and "sends (served env config KILL_SUBNET params) (kill_handle env config params)"
    and "sends (served env config FUND params) (fund_handle env config params)"
    and "sends (served env config RELEASE params) (release_handle env config params)"
    and "sends (served env config PROPAGATE params) (propagate_handle env config params)"
    and "sends (served env config SET_VALIDATOR_NET_ADDR params) (net_addr_handle env config params)"
    and "sends (served env config WHITELIST_PROPAGATOR params) (whitelist_handle env config params)"
    and "sends (served env config SEND_VALUE params) (send_value_handle env config params)"
  subgoal
    unfolding create_handle_def manager_from_subnet_def
    by (intro sends_decode served_create)
      (assumption | simp add: read_method_def amount_field_def spends_nothing spends_amount [OF assms])+
  subgoal
    unfolding join_handle_def manager_from_subnet_def
    by (intro sends_decode served_join)
      (assumption | simp add: read_method_def amount_field_def spends_nothing spends_amount [OF assms])+
  subgoal
    unfolding leave_handle_def manager_from_subnet_def
    by (intro sends_decode served_leave)
      (assumption | simp add: read_method_def amount_field_def spends_nothing spends_amount [OF assms])+
  subgoal
    unfolding kill_handle_def manager_from_subnet_def
    by (intro sends_decode served_kill)
      (assumption | simp add: read_method_def amount_field_def spends_nothing spends_amount [OF assms])+
  subgoal
    unfolding fund_handle_def manager_from_subnet_def
    by (intro sends_decode served_fund)
      (assumption | simp add: read_method_def amount_field_def spends_nothing spends_amount [OF assms])+
  subgoal
    unfolding release_handle_def manager_from_subnet_def
    by (intro sends_decode served_release)
      (assumption | simp add: read_method_def amount_field_def spends_nothing spends_amount [OF assms])+
  subgoal
    unfolding propagate_handle_def manager_from_subnet_def
    by (intro sends_decode served_propagate)
      (assumption | simp add: read_method_def amount_field_def spends_nothing spends_amount [OF assms])+
  subgoal
    unfolding net_addr_handle_def manager_from_subnet_def
    by (intro sends_decode served_net_addr)
      (assumption | simp add: read_method_def amount_field_def spends_nothing spends_amount [OF assms])+
  subgoal
    unfolding whitelist_handle_def manager_from_subnet_def
    by (intro sends_decode served_whitelist)
      (assumption | simp add: read_method_def amount_field_def spends_nothing spends_amount [OF assms])+
  subgoal
    unfolding send_value_handle_def manager_from_subnet_def
    by (intro sends_decode served_send_value)
      (assumption | simp add: read_method_def amount_field_def spends_nothing spends_amount [OF assms])+
  done

lemma join_all_sends:
  assumes "\<And>x. sends P (f x)"
  shows "\<exists>new. net_sent (snd (join_all f xs net)) = net_sent net @ new \<and> list_all P new"
proof (induction xs arbitrary: net)
  case (Cons x xs)
  obtain r net1 where f: "f x net = (r, net1)"
    by fastforce
  moreover obtain new where "net_sent net1 = net_sent net @ new" "list_all P new"
    using assms [of x] f unfolding sends_def by (metis snd_conv)
  moreover obtain new' where "net_sent (snd (join_all f xs net1)) = net_sent net1 @ new'" "list_all P new'"
    using Cons.IH by blast
  ultimately show ?case
    by (auto simp: case_prod_beta)
qed simp

lemma sends_balances:
  "sends (read_only cl) (\<lambda>net. let (rs, net) = join_all (manager_wallet_balance env cl) addresses net
     in (collect_results (\<lambda>r. r) rs, net))"
  using join_all_sends [where f = "manager_wallet_balance env cl", OF sends_manager_reads(3)]
  by (simp add: sends_def case_prod_beta)

lemma served_wallet_new:
  assumes "struct_fields (param_names RPC_WALLET_NEW) params = Inr fs" "subnet \<in> ran (co_subnets config)"
  shows "sends (served env config RPC_WALLET_NEW params) (manager_wallet_new env (from_subnet subnet) key_type)"
  unfolding manager_wallet_new_def wallet_new_def
  by (intro sends_bind sends_Inl sends_request)
    (use assms in \<open>auto simp: served_def checks_token_def read_method_def is_push_def methods_inj\<close>)

lemma served_wallet_new_handle:
  "sends (served env config RPC_WALLET_NEW params) (wallet_new_handle env config params)"
  unfolding wallet_new_handle_def manager_from_subnet_def
  by (intro sends_decode sends_bind_lift [THEN iffD2] served_wallet_new)

lemma served_reads:
  "sends (served env config LIST_CHILD_SUBNETS params) (list_subnets_handle env config params)"
  "sends (served env config LIST_BOTTOMUP_CHECKPOINTS params) (list_checkpoints_handle env config params)"
  "sends (served env config LAST_TOPDOWN_EXECUTED params) (last_topdown_handle env config params)"
  "sends (served env config RPC_WALLET_LIST params) (wallet_list_handle env config params)"
  "sends (served env config QUERY_VALIDATOR_SET params) (query_validator_set_handle env config params)"
  subgoal
    unfolding list_subnets_handle_def manager_from_subnet_def Let_def
    by (intro sends_decode, rule sends_served_read, assumption+) (intro sends_intros)
  subgoal
    unfolding list_checkpoints_handle_def manager_from_subnet_def
    by (intro sends_decode, rule sends_served_read, assumption+) (intro sends_intros)
  subgoal
    unfolding last_topdown_handle_def manager_from_subnet_def
    by (intro sends_decode, rule sends_served_read, assumption+) (intro sends_intros)
  subgoal
    unfolding wallet_list_handle_def manager_from_subnet_def
    by (intro sends_decode, rule sends_served_read, assumption+, simp add: checks_token_def)
      (intro sends_bind sends_manager_reads(2) sends_balances, simp add: Let_def sends_Inl)
  subgoal
    unfolding query_validator_set_handle_def Let_def
    by (intro sends_decode, rule sends_served_read, assumption+, simp add: checks_token_def) (intro sends_intros)
  done

lemma on_net_sends:
  assumes "sends (served env (get_config (ss_config st)) m params) (handle (get_config (ss_config st)) params)"
  shows "\<exists>new. net_sent (ss_net (snd (on_net handle params st))) = net_sent (ss_net st) @ new \<and>
    list_all (served env (get_config (ss_config st)) m params) new"
  using sends_net [OF assms] by (simp add: on_net_def case_prod_beta)

lemma reload_handle_net: "ss_net (snd (reload_handle env read params st)) = ss_net st"
  by (simp add: reload_handle_def case_prod_beta split: sum.split)

lemma handler_of_sends:
  assumes "token_precision env"
  shows "\<exists>new. net_sent (ss_net (snd (handler_of env read m params st))) = net_sent (ss_net st) @ new \<and>
    list_all (served env (get_config (ss_config st)) m params) new"
  by (cases m) (simp_all add: reload_handle_net on_net_sends served_changes [OF assms] served_reads served_wallet_new_handle)

lemma json_rpc_methods_inj: "json_rpc_methods m = json_rpc_methods m' \<longleftrightarrow> m = m'"
  by (cases m; cases m') simp_all

lemma all_methods_UNIV: "set all_methods = UNIV"
proof -
  have "m \<in> set all_methods" for m
    by (cases m) (simp_all add: all_methods_def)
  then show ?thesis
    by auto
qed

lemma map_of_methods:
  "m \<in> set ms \<Longrightarrow> map_of (map (\<lambda>m. (json_rpc_methods m, f m)) ms) (json_rpc_methods m) = Some (f m)"
  by (induction ms) (auto simp: json_rpc_methods_inj)

lemma handlers_new_eq:
  "handlers_new env read method = (if method \<in> range json_rpc_methods
     then Some (handler_of env read (inv json_rpc_methods method)) else None)"
proof (cases "method \<in> range json_rpc_methods")
  case True
  then obtain m where m: "method = json_rpc_methods m"
    by blast
  have "inv json_rpc_methods (json_rpc_methods m) = m"
    by (intro inv_f_f injI) (simp add: json_rpc_methods_inj)
  then show ?thesis
    using True m by (simp add: handlers_new_def all_methods_UNIV map_of_methods)
next
  case False
  then show ?thesis
    by (auto simp: handlers_new_def map_of_eq_None_iff)
qed

lemma handlers_handle_cases:
  obtains (Method) m where "method = json_rpc_methods m" "handlers_handle env read method params st = handler_of env read m params st"
  | (Unknown) "method \<notin> range json_rpc_methods" "handlers_handle env read method params st = (Inl (Failed ''method not supported''), st)"
proof (cases "method \<in> range json_rpc_methods")
  case True
  then have "json_rpc_methods (inv json_rpc_methods method) = method"
    by (rule f_inv_into_f)
  with True Method [of "inv json_rpc_methods method"] show ?thesis
    by (simp add: handlers_handle_def handlers_new_eq)
next
  case False
  with Unknown show ?thesis
    by (simp add: handlers_handle_def handlers_new_eq)
qed

text \<open>
  The state of the server after a sequence of HTTP requests, each given by whether it is a POST, its
  path and its body.
\<close>

definition serve where
  "serve env read reqs st = fold (\<lambda>(is_post, path, body) st. snd (json_rpc_filter env read is_post path body st)) reqs st"

lemma reload_config_wf:
  "config_wf (get_config rl) \<Longrightarrow> config_wf (get_config (snd (reload_config_handle env read path rl)))"
  by (auto simp: reload_config_handle_def reload_def get_config_def set_path_def from_file_wf split: sum.splits option.splits)

lemma handler_of_config_wf:
  assumes "config_wf (get_config (ss_config st))"
  shows "config_wf (get_config (ss_config (snd (handler_of env read m params st))))"
  using assms
  by (cases m) (simp_all add: on_net_def reload_handle_def case_prod_beta reload_config_wf split: sum.split)

lemma handlers_handle_config_wf:
  assumes "config_wf (get_config (ss_config st))"
  shows "config_wf (get_config (ss_config (snd (handlers_handle env read meth params st))))"
  by (rule handlers_handle_cases [of meth env read params st]) (simp_all add: handler_of_config_wf assms)

lemma handle_request_snd:
  "snd (handle_request env read req st) =
     (if rq_jsonrpc req \<noteq> JSON_RPC_VERSION then st else snd (handlers_handle env read (rq_method req) (rq_params req) st))"
  by (simp add: handle_request_def case_prod_beta split: sum.split agent_error.split)

lemma json_rpc_filter_snd:
  "snd (json_rpc_filter env read is_post path body st) =
     (case to_json_rpc_request env body of
        Inr req \<Rightarrow> if is_post \<and> path = JSON_RPC_ENDPOINT then snd (handle_request env read req st) else st
      | Inl _ \<Rightarrow> st)"
  by (simp add: json_rpc_filter_def case_prod_beta split: sum.split)

lemma json_rpc_filter_sends:
  assumes "token_precision env"
  shows "\<exists>new. net_sent (ss_net (snd (json_rpc_filter env read is_post path body st))) = net_sent (ss_net st) @ new \<and>
    list_all (\<lambda>r. \<exists>req m. is_post \<and> path = JSON_RPC_ENDPOINT \<and> to_json_rpc_request env body = Inr req \<and>
      rq_jsonrpc req = JSON_RPC_VERSION \<and> rq_method req = json_rpc_methods m \<and>
      served env (get_config (ss_config st)) m (rq_params req) r) new"
proof (cases "\<exists>req. is_post \<and> path = JSON_RPC_ENDPOINT \<and> to_json_rpc_request env body = Inr req \<and>
    rq_jsonrpc req = JSON_RPC_VERSION")
  case True
  then obtain req where req: "is_post" "path = JSON_RPC_ENDPOINT" "to_json_rpc_request env body = Inr req"
    "rq_jsonrpc req = JSON_RPC_VERSION"
    by blast
  show ?thesis
  proof (cases rule: handlers_handle_cases [of "rq_method req" env read "rq_params req" st])
    case (Method m)
    then show ?thesis
      using req handler_of_sends [OF assms, of read m "rq_params req" st]
      by (simp add: json_rpc_filter_snd handle_request_snd json_rpc_methods_inj)
  qed (use req in \<open>simp add: json_rpc_filter_snd handle_request_snd\<close>)
next
  case False
  then show ?thesis
    by (auto simp: json_rpc_filter_snd handle_request_snd split: sum.split)
qed

text \<open>An agent with one subnet whose node is unreachable, and a body that asks to send 3 tokens.\<close>

definition sample_body :: json where
  "sample_body =
     JObj [(''id'', JNum 7), (''jsonrpc'', JStr ''2.0''), (''method'', JStr ''ipc_sendValue''),
           (''params'', JObj [(''subnet'', JStr ''/root''), (''to'', JStr ''tt''), (''amount'', JNum 3)])]"

abbreviation sample_server_env :: "(string list, string, nat, nat list, string) agent_env" where
  "sample_server_env \<equiv> sample_agent (\<lambda>_. sample_body)"

definition sample_server :: "(string list, (nat, nat list) config) server_state" where
  "sample_server =
     \<lparr>ss_net = \<lparr>net_remote = [], net_sent = []\<rparr>,
      ss_config = \<lparr>rl_path = ''config.toml'',
        rl_config = \<lparr>co_json_rpc_address = ''0.0.0.0:3030'',
          co_subnets = [[] \<mapsto> \<lparr>sn_id = [], sn_gateway_addr = 64, sn_network_name = ''root'',
            sn_jsonrpc_api_http = ''http'', sn_jsonrpc_api_ws = None, sn_auth_token = Some ''secret'', sn_accounts = [5, 6]\<rparr>]\<rparr>,
        rl_notifications = 0\<rparr>\<rparr>"

section \<open>Properties\<close>



text \<open>
  A request with another version of JSON-RPC or for a method that is not in the table is answered
  with an error that carries the identifier of the request, and changes neither the configuration
  nor anything on a node.
\<close>

theorem unsupported_request_refused:
  assumes "rq_jsonrpc req \<noteq> ''2.0'' \<or> rq_method req \<notin> range json_rpc_methods"
  shows "handle_request env read req st =
    (Inr (if rq_jsonrpc req \<noteq> ''2.0'' then error_response (rq_id req) (- 32600) ''Invalid Request''
          else error_response (rq_id req) (- 1) ''method not supported''), st)"
proof (cases "rq_jsonrpc req = ''2.0''")
  case True
  with assms show ?thesis
    by (simp add: handle_request_def handlers_handle_def handlers_new_eq JSON_RPC_VERSION_def)
next
  case False
  then show ?thesis
    by (simp add: handle_request_def invalid_request_def INVALID_REQUEST_CODE_def JSON_RPC_VERSION_def)
qed

theorem unsupported_request_refused_witness:
  "handle_request sample_server_env (\<lambda>_. Inl ''no file'')
     \<lparr>rq_id = 7, rq_jsonrpc = ''1.0'', rq_method = ''ipc_fund'', rq_params = JNull\<rparr> sample_server =
   (Inr (error_response 7 (- 32600) ''Invalid Request''), sample_server)"
  by (subst unsupported_request_refused) simp_all

text \<open>
  C30. Whatever sequence of HTTP requests the server handles, including requests that reload the
  configuration from other files, its configuration stays well-formed: it has finitely many
  subnets, each of them under its own identifier, so that the requests for a subnet go to the node
  of that subnet.
\<close>

theorem server_config_wf:
  assumes "config_wf (get_config (ss_config st))"
  shows "config_wf (get_config (ss_config (serve env read reqs st)))"
  using assms
proof (induction reqs arbitrary: st)
  case (Cons q reqs)
  have "config_wf (get_config (ss_config (snd (json_rpc_filter env read (fst q) (fst (snd q)) (snd (snd q)) st))))"
    using Cons.prems by (simp add: json_rpc_filter_snd handle_request_snd handlers_handle_config_wf split: sum.split)
  from Cons.IH [OF this] show ?case
    by (simp add: serve_def case_prod_beta)
qed (simp add: serve_def)

theorem server_config_wf_witness:
  "config_wf (get_config (ss_config (serve sample_server_env (\<lambda>_. Inr ''text'')
     [(True, ''json_rpc'', ''body''), (False, ''json_rpc'', ''body'')] sample_server)))"
  by (rule server_config_wf) (simp add: config_wf_def sample_server_def get_config_def)

end
