(* ===== verification/Checkpoint_Loop.thy ===== *)
theory Checkpoint_Loop
  imports Lotus_Client Transitions
begin

text \<open>
  The loop that the managers of top-down and of bottom-up checkpoints
  (\<^verbatim>\<open>src/src/manager/{topdown,bottomup}.rs\<close>) run for a pair of a child and a parent subnet. The two
  functions have the same shape: read the chains, and if the next checkpoint is due, submit it on
  behalf of every own account that is a validator; after each success keep submitting as long as
  checkpoints are lagging behind; then wait for the next round or for the signal to stop. What they
  read and how they submit are the fields of \<open>loop_ops\<close>.

  The function never returns unless it is stopped or fails, so it is a state machine: a phase is a
  place in the code between two visits of a loop head, with the local variables that are live there,
  and \<open>loop_step\<close> runs the code up to the next such place.
\<close>

section \<open>The loop\<close>

record 'ctx observation =
  ob_initialized :: bool
  ob_curr_epoch :: int
  ob_last_exec :: int
  ob_ctx :: 'ctx

record ('w, 'addr, 'ctx) loop_ops =
  lp_start :: "('w, int) agent_op"
  lp_observe :: "('w, 'ctx observation) agent_op"
  lp_validators :: "'ctx \<Rightarrow> ('w, 'addr set \<times> 'ctx) agent_op"
  lp_submit :: "int \<Rightarrow> 'ctx \<Rightarrow> 'addr \<Rightarrow> ('w, unit) agent_op"
  lp_reobserve :: "'ctx \<Rightarrow> ('w, 'ctx observation) agent_op"
  lp_wait :: "'w net \<Rightarrow> bool \<times> 'w net"
  lp_context :: string

datatype ('addr, 'ctx) phase =
    Starting
  | Checking int
  | Accounts int "'ctx observation" "'addr set" "'addr list"
  | Lagging int "'ctx observation" "'addr set" 'addr "'addr list"
  | Finished "(agent_error, unit) result"

definition submission_epoch :: "int \<Rightarrow> 'ctx observation \<Rightarrow> int" where
  "submission_epoch period obs = wrap_i64 (ob_last_exec obs + period)"

definition finish_error where
  "finish_error ops e = Finished (Inl (in_context (lp_context ops) e))"

text \<open>\<open>wait_next_iteration\<close>: go on after the timeout, return if the stop signal fires first.\<close>

definition after_wait where
  "after_wait ops phase net =
     (let (go_on, net) = lp_wait ops net in (if go_on then phase else Finished (Inr ()), net))"

text \<open>Submitting for an account: the loop handles errors, but not panics.\<close>

definition submit_then where
  "submit_then ops epoch ctx a on_ok on_err net =
     (case lp_submit ops epoch ctx a net of
        (Inr _, net) \<Rightarrow> (on_ok, net)
      | (Inl (Failed _), net) \<Rightarrow> after_wait ops on_err net
      | (Inl (Panicked m), net) \<Rightarrow> (Finished (Inl (Panicked m)), net))"

definition check_step where
  "check_step ops accounts period net =
     (case lp_observe ops net of
        (Inl e, net) \<Rightarrow> (finish_error ops e, net)
      | (Inr obs, net) \<Rightarrow>
          if ob_initialized obs \<and> ob_curr_epoch obs \<ge> submission_epoch period obs
          then (case lp_validators ops (ob_ctx obs) net of
                  (Inl e, net) \<Rightarrow> (finish_error ops e, net)
                | (Inr (vals, ctx), net) \<Rightarrow> (Accounts period (obs\<lparr>ob_ctx := ctx\<rparr>) vals accounts, net))
          else after_wait ops (Checking period) net)"

definition lagging_step where
  "lagging_step ops period obs vals a as net =
     (case lp_reobserve ops (ob_ctx obs) net of
        (Inl e, net) \<Rightarrow> (finish_error ops e, net)
      | (Inr obs', net) \<Rightarrow>
          if ob_curr_epoch obs' \<ge> submission_epoch period obs'
          then submit_then ops (submission_epoch period obs') (ob_ctx obs') a
                 (Lagging period obs vals a as) (Accounts period obs vals as) net
          else (Accounts period obs vals as, net))"

fun loop_step where
  "loop_step ops accounts (Starting, net) =
     (case lp_start ops net of
        (Inl e, net) \<Rightarrow> (finish_error ops e, net)
      | (Inr period, net) \<Rightarrow> (Checking period, net))"
| "loop_step ops accounts (Checking period, net) = check_step ops accounts period net"
| "loop_step ops accounts (Accounts period obs vals [], net) = after_wait ops (Checking period) net"
| "loop_step ops accounts (Accounts period obs vals (a # as), net) =
     (if a \<in> vals
      then submit_then ops (submission_epoch period obs) (ob_ctx obs) a
             (Lagging period obs vals a as) (Accounts period obs vals as) net
      else (Accounts period obs vals as, net))"
| "loop_step ops accounts (Lagging period obs vals a as, net) = lagging_step ops period obs vals a as net"
| "loop_step ops accounts (Finished r, net) = (Finished r, net)"

section \<open>The invariant of the phases\<close>

definition due :: "int \<Rightarrow> 'ctx observation \<Rightarrow> bool" where
  "due period obs \<longleftrightarrow> submission_epoch period obs \<le> ob_curr_epoch obs"

text \<open>The values that the phases carry are answers of the nodes, read right after each other.\<close>

definition read_period where
  "read_period ops period \<longleftrightarrow> (\<exists>net net'. lp_start ops net = (Inr period, net'))"

definition read_round where
  "read_round ops obs vals \<longleftrightarrow>
     (\<exists>net net' net'' ctx. lp_observe ops net = (Inr (obs\<lparr>ob_ctx := ctx\<rparr>), net') \<and>
        lp_validators ops ctx net' = (Inr (vals, ob_ctx obs), net''))"

fun phase_inv where
  "phase_inv ops accounts (Checking period) \<longleftrightarrow> read_period ops period"
| "phase_inv ops accounts (Accounts period obs vals as) \<longleftrightarrow>
     read_period ops period \<and> read_round ops obs vals \<and> ob_initialized obs \<and> due period obs \<and>
     set as \<subseteq> set accounts"
| "phase_inv ops accounts (Lagging period obs vals a as) \<longleftrightarrow>
     read_period ops period \<and> read_round ops obs vals \<and> ob_initialized obs \<and> due period obs \<and>
     a \<in> set accounts \<and> a \<in> vals \<and> set as \<subseteq> set accounts"
| "phase_inv ops accounts _ \<longleftrightarrow> True"

text \<open>
  The checkpoint that a step submits, if any: the account, the epoch and what was observed. In the
  phase \<open>Accounts\<close> that is the observation of the round, in the phase \<open>Lagging\<close> a new one.
\<close>

fun submission where
  "submission ops (Accounts period obs vals (a # as)) net a' epoch \<longleftrightarrow>
     a' = a \<and> a \<in> vals \<and> epoch = submission_epoch period obs"
| "submission ops (Lagging period obs vals a as) net a' epoch \<longleftrightarrow>
     a' = a \<and> (\<exists>obs' net'. lp_reobserve ops (ob_ctx obs) net = (Inr obs', net') \<and>
       due period obs' \<and> epoch = submission_epoch period obs')"
| "submission ops _ net a' epoch \<longleftrightarrow> False"

lemma snd_after_wait [simp]: "snd (after_wait ops phase net) = snd (lp_wait ops net)"
  by (simp add: after_wait_def split: prod.splits)

lemma phase_inv_after_wait: "phase_inv ops accounts phase \<Longrightarrow> phase_inv ops accounts (fst (after_wait ops phase net))"
  by (simp add: after_wait_def split: prod.splits)

lemma phase_inv_submit_then:
  assumes "phase_inv ops accounts on_ok" and "phase_inv ops accounts on_err"
  shows "phase_inv ops accounts (fst (submit_then ops epoch ctx a on_ok on_err net))"
  using assms
  by (auto simp: submit_then_def phase_inv_after_wait split: prod.splits sum.splits agent_error.splits)

lemma phase_inv_check:
  assumes "read_period ops period"
  shows "phase_inv ops accounts (fst (check_step ops accounts period net))"
proof (cases "\<exists>obs net'. lp_observe ops net = (Inr obs, net') \<and> ob_initialized obs \<and> due period obs")
  case True
  then obtain obs net' where obs: "lp_observe ops net = (Inr obs, net')" "ob_initialized obs" "due period obs"
    by blast
  have "read_round ops (obs\<lparr>ob_ctx := ctx\<rparr>) vals"
    if "lp_validators ops (ob_ctx obs) net' = (Inr (vals, ctx), net'')" for vals ctx net''
    unfolding read_round_def using obs(1) that
    by (intro exI [of _ net] exI [of _ net'] exI [of _ net''] exI [of _ "ob_ctx obs"]) simp
  then show ?thesis
    using assms obs
    by (auto simp: check_step_def finish_error_def due_def submission_epoch_def split: prod.splits sum.splits)
next
  case False
  then show ?thesis
    using assms
    by (auto simp: check_step_def finish_error_def due_def phase_inv_after_wait split: prod.splits sum.splits)
qed

lemma read_periodI: "lp_start ops net = (Inr period, net') \<Longrightarrow> read_period ops period"
  by (auto simp: read_period_def)

lemma phase_inv_step:
  assumes "phase_inv ops accounts phase"
  shows "phase_inv ops accounts (fst (loop_step ops accounts (phase, net)))"
  using assms
  by (cases "(ops, accounts, phase, net)" rule: loop_step.cases)
    (auto simp: lagging_step_def finish_error_def
      intro!: phase_inv_submit_then phase_inv_after_wait phase_inv_check dest: read_periodI
      split: prod.splits sum.splits)

text \<open>
  A justified submission: for an own account that is in the validator set, when the gateway is
  initialized and the checkpoint after the last executed one is due.
\<close>

fun justified where
  "justified ops accounts (Accounts period obs vals as) net a epoch \<longleftrightarrow>
     read_period ops period \<and> read_round ops obs vals \<and> a \<in> set accounts \<and> a \<in> vals \<and> ob_initialized obs \<and>
     epoch = wrap_i64 (ob_last_exec obs + period) \<and> epoch \<le> ob_curr_epoch obs"
| "justified ops accounts (Lagging period obs vals a' as) net a epoch \<longleftrightarrow>
     read_period ops period \<and> read_round ops obs vals \<and> a \<in> set accounts \<and> a \<in> vals \<and> ob_initialized obs \<and>
     (\<exists>obs' net'. lp_reobserve ops (ob_ctx obs) net = (Inr obs', net') \<and>
        epoch = wrap_i64 (ob_last_exec obs' + period) \<and> epoch \<le> ob_curr_epoch obs')"
| "justified ops accounts _ net a epoch \<longleftrightarrow> False"

lemma submission_justified:
  "phase_inv ops accounts phase \<Longrightarrow> submission ops phase net a epoch \<Longrightarrow> justified ops accounts phase net a epoch"
  by (cases "(ops, phase, net, a, epoch)" rule: submission.cases)
    (auto simp: due_def submission_epoch_def)

interpretation loop: invariant_system "\<lambda>s (l :: unit) t. t = loop_step ops accounts s" "\<lambda>_. True"
  "\<lambda>(phase, net). phase_inv ops accounts phase"
  by unfold_locales (auto dest: phase_inv_step [of _ _ _ _] split: prod.splits simp: split_beta)

text \<open>
  The contract of the operations: everything but \<open>lp_submit\<close> only reads, and \<open>lp_submit\<close> sends besides
  only what is \<open>allowed\<close> for its epoch and its account.
\<close>

locale checkpoint_loop =
  fixes ops :: "('w, 'addr, 'ctx) loop_ops"
    and accounts :: "'addr list"
    and reads :: "http_request \<Rightarrow> bool"
    and allowed :: "int \<Rightarrow> 'addr \<Rightarrow> http_request \<Rightarrow> bool"
  assumes start_reads: "sends reads (lp_start ops)"
    and observe_reads: "sends reads (lp_observe ops)"
    and validators_reads: "sends reads (lp_validators ops ctx)"
    and reobserve_reads: "sends reads (lp_reobserve ops ctx)"
    and submit_sends: "sends (\<lambda>r. reads r \<or> allowed epoch a r) (lp_submit ops epoch ctx a)"
    and wait_sends: "net_sent (snd (lp_wait ops net)) = net_sent net"
begin

definition sends_in_step :: "(http_request \<Rightarrow> bool) \<Rightarrow> 'w net \<Rightarrow> 'w net \<Rightarrow> bool" where
  "sends_in_step P net net' \<longleftrightarrow> (\<exists>new. net_sent net' = net_sent net @ new \<and> list_all P new)"

lemma sends_in_step_refl: "sends_in_step P net net"
  by (simp add: sends_in_step_def)

lemma sends_in_step_trans:
  "sends_in_step P net net' \<Longrightarrow> sends_in_step P net' net'' \<Longrightarrow> sends_in_step P net net''"
  by (auto simp: sends_in_step_def)

lemma sends_in_step_op:
  "sends P m \<Longrightarrow> m net = (r, net') \<Longrightarrow> (\<And>r. P r \<Longrightarrow> Q r) \<Longrightarrow> sends_in_step Q net net'"
  unfolding sends_in_step_def sends_def by (metis list.pred_mono_strong snd_conv)

lemma after_wait_sends: "sends_in_step P net (snd (after_wait ops phase net))"
  by (simp add: sends_in_step_def wait_sends)

lemma submit_then_sends:
  "sends_in_step (\<lambda>r. reads r \<or> allowed epoch a r) net (snd (submit_then ops epoch ctx a on_ok on_err net))"
proof (cases "lp_submit ops epoch ctx a net")
  case (Pair r net')
  have "sends_in_step (\<lambda>r. reads r \<or> allowed epoch a r) net net'"
    using sends_in_step_op [OF submit_sends Pair] by simp
  moreover have "snd (submit_then ops epoch ctx a on_ok on_err net) \<in> {net', snd (lp_wait ops net')}"
    using Pair by (auto simp: submit_then_def split: sum.splits agent_error.splits)
  ultimately show ?thesis
    using wait_sends by (auto simp: sends_in_step_def)
qed

lemma check_step_sends: "sends_in_step reads net (snd (check_step ops accounts period net))"
proof (cases "lp_observe ops net")
  case (Pair r net')
  have obs: "sends_in_step reads net net'"
    using sends_in_step_op [OF observe_reads Pair] by simp
  show ?thesis
  proof (cases r)
    case (Inr obs)
    have "sends_in_step reads net' (snd (lp_validators ops (ob_ctx obs) net'))"
      using sends_in_step_op [OF validators_reads] by (metis prod.collapse)
    then show ?thesis
      using Pair Inr obs wait_sends
      by (auto simp: check_step_def sends_in_step_def split: prod.splits sum.splits)
  qed (use Pair obs in \<open>simp add: check_step_def\<close>)
qed

lemma lagging_step_sends:
  "sends_in_step (\<lambda>r. reads r \<or> (\<exists>a' epoch. submission ops (Lagging period obs vals a as) net a' epoch \<and> allowed epoch a' r))
     net (snd (lagging_step ops period obs vals a as net))"
proof (cases "lp_reobserve ops (ob_ctx obs) net")
  case (Pair r net')
  have obs: "sends_in_step reads net net'"
    using sends_in_step_op [OF reobserve_reads Pair] by simp
  then have obs': "sends_in_step (\<lambda>r. reads r \<or> P r) net net'" for P
    by (auto simp: sends_in_step_def list_all_iff)
  show ?thesis
  proof (cases "\<exists>obs'. r = Inr obs' \<and> due period obs'")
    case True
    then obtain obs' where obs'': "r = Inr obs'" "due period obs'"
      by blast
    let ?e = "submission_epoch period obs'"
    let ?res = "submit_then ops ?e (ob_ctx obs') a (Lagging period obs vals a as) (Accounts period obs vals as) net'"
    have "sends_in_step (\<lambda>r. reads r \<or> allowed ?e a r) net (snd ?res)"
      using sends_in_step_trans [OF obs' submit_then_sends] .
    moreover have "snd (lagging_step ops period obs vals a as net) = snd ?res"
      using Pair obs'' by (simp add: lagging_step_def due_def)
    moreover have "submission ops (Lagging period obs vals a as) net a ?e"
      using Pair obs'' by auto
    ultimately show ?thesis
      by (auto simp: sends_in_step_def list_all_iff)
  next
    case False
    then show ?thesis
      using Pair obs obs' by (auto simp: lagging_step_def due_def split: sum.splits)
  qed
qed

text \<open>A step sends reads, and what is allowed for the checkpoint that it submits.\<close>

lemma loop_step_sends:
  "sends_in_step (\<lambda>r. reads r \<or> (\<exists>a epoch. submission ops phase net a epoch \<and> allowed epoch a r))
     net (snd (loop_step ops accounts (phase, net)))"
proof (cases "(ops, accounts, phase, net)" rule: loop_step.cases)
  case (1 ops accounts net)
  then show ?thesis
    using sends_in_step_op [OF start_reads]
    by (auto split: prod.splits sum.splits)
next
  case (2 ops accounts period net)
  with check_step_sends [of net period] show ?thesis
    by (auto simp: sends_in_step_def list_all_iff)
next
  case (3 ops accounts period obs vals net)
  with after_wait_sends show ?thesis
    by simp
next
  case (4 ops accounts period obs vals a as net)
  with submit_then_sends [of "submission_epoch period obs" a net "ob_ctx obs" "Lagging period obs vals a as" "Accounts period obs vals as"]
  show ?thesis
    by (auto simp: sends_in_step_def list_all_iff)
next
  case (5 ops accounts period obs vals a as net)
  with lagging_step_sends [of period obs vals a as net] show ?thesis
    by simp
next
  case (6 ops accounts r net)
  with sends_in_step_refl show ?thesis
    by simp
qed

end

section \<open>Catching up\<close>

text \<open>
  A chain on which submitted checkpoints are executed at once: reading it gives the epoch \<open>head\<close> and
  the last executed epoch \<open>last net\<close>, and a submission succeeds and becomes the last executed one.
\<close>

definition chain_executes where
  "chain_executes ops head last_exec \<longleftrightarrow>
     (\<forall>ctx net. \<exists>obs net'. lp_reobserve ops ctx net = (Inr obs, net') \<and> ob_curr_epoch obs = head \<and>
        ob_last_exec obs = last_exec net \<and> last_exec net' = last_exec net) \<and>
     (\<forall>epoch ctx a net. \<exists>net'. lp_submit ops epoch ctx a net = (Inr (), net') \<and> last_exec net' = epoch)"

definition lag :: "int \<Rightarrow> int \<Rightarrow> int \<Rightarrow> nat" where
  "lag period head last_exec = nat ((head - last_exec) div period)"

lemma lagging_step_submits:
  assumes "chain_executes ops head last_exec" and "i64_range head" and "i64_range (last_exec net)"
    and "0 < period" and "last_exec net + period \<le> head"
  shows "\<exists>net'. loop_step ops accounts (Lagging period obs vals a as, net) = (Lagging period obs vals a as, net') \<and>
    last_exec net' = last_exec net + period"
proof -
  obtain obs' net' where obs': "lp_reobserve ops (ob_ctx obs) net = (Inr obs', net')" "ob_curr_epoch obs' = head"
    "ob_last_exec obs' = last_exec net" "last_exec net' = last_exec net"
    using assms(1) unfolding chain_executes_def by metis
  obtain net'' where "lp_submit ops (submission_epoch period obs') (ob_ctx obs') a net' = (Inr (), net'')"
    "last_exec net'' = submission_epoch period obs'"
    using assms(1) unfolding chain_executes_def by metis
  moreover have "i64_range (last_exec net + period)"
    using assms(2-5) by (auto simp: i64_range_def)
  ultimately show ?thesis
    using obs' assms(5) by (simp add: lagging_step_def submit_then_def submission_epoch_def)
qed

lemma lagging_step_ends:
  assumes "chain_executes ops head last_exec" and "i64_range (last_exec net + period)"
    and "head < last_exec net + period"
  shows "\<exists>net'. loop_step ops accounts (Lagging period obs vals a as, net) = (Accounts period obs vals as, net') \<and>
    last_exec net' = last_exec net"
proof -
  obtain obs' net' where obs': "lp_reobserve ops (ob_ctx obs) net = (Inr obs', net')" "ob_curr_epoch obs' = head"
    "ob_last_exec obs' = last_exec net" "last_exec net' = last_exec net"
    using assms(1) unfolding chain_executes_def by metis
  then show ?thesis
    using assms(2,3) by (simp add: lagging_step_def submission_epoch_def)
qed

lemma lagging_run:
  assumes "chain_executes ops head last_exec" and "i64_range head" and "0 < period"
    and "i64_range (head + period)"
  shows "i64_range (last_exec net) \<Longrightarrow> last_exec net \<le> head \<Longrightarrow> lag period head (last_exec net) = k \<Longrightarrow>
    \<exists>net'. (loop_step ops accounts ^^ Suc k) (Lagging period obs vals a as, net) = (Accounts period obs vals as, net') \<and>
      last_exec net' = last_exec net + int k * period"
proof (induction k arbitrary: net)
  case 0
  then have "(head - last_exec net) div period = 0"
    using assms(3) pos_imp_zdiv_nonneg_iff [of period "head - last_exec net"] by (simp add: lag_def)
  then have "head < last_exec net + period"
    using assms(3) 0(2) by (auto simp: zdiv_eq_0_iff)
  moreover have "i64_range (last_exec net + period)"
    using 0 assms(3,4) by (auto simp: i64_range_def)
  ultimately show ?case
    using lagging_step_ends [OF assms(1)] by fastforce
next
  case (Suc k)
  have "period * int (Suc k) \<le> head - last_exec net"
  proof -
    have "int (Suc k) = (head - last_exec net) div period"
      using Suc.prems(3) by (simp add: lag_def)
    moreover have "period * ((head - last_exec net) div period) \<le> head - last_exec net"
      using assms(3) mult_div_mod_eq [of period "head - last_exec net"] pos_mod_sign [of period "head - last_exec net"]
      by linarith
    ultimately show ?thesis
      by simp
  qed
  moreover have "period * 1 \<le> period * int (Suc k)"
    using assms(3) by (intro mult_left_mono) auto
  ultimately have le: "last_exec net + period \<le> head"
    by linarith
  obtain net' where step: "loop_step ops accounts (Lagging period obs vals a as, net) = (Lagging period obs vals a as, net')"
    and last': "last_exec net' = last_exec net + period"
    using lagging_step_submits [OF assms(1,2) Suc.prems(1) assms(3) le] by blast
  have "(head - (last_exec net + period)) div period = (head - last_exec net) div period - 1"
    using assms(3) div_add_self2 [of period "head - last_exec net - period"] by (simp add: algebra_simps)
  then have "lag period head (last_exec net') = k"
    using Suc.prems(3) by (simp add: lag_def last')
  moreover have "i64_range (last_exec net')"
    using Suc.prems(1) assms(2,3) le by (auto simp: i64_range_def last')
  ultimately obtain net'' where
    "(loop_step ops accounts ^^ Suc k) (Lagging period obs vals a as, net') = (Accounts period obs vals as, net'')"
    "last_exec net'' = last_exec net' + int k * period"
    using Suc.IH [of net'] le last' by auto
  then show ?case
    using step last' by (auto simp: funpow_swap1 algebra_simps)
qed

text \<open>An instance: a chain at epoch 95 whose state is its last executed epoch.\<close>

definition sample_chain :: "(int, nat, unit) loop_ops" where
  "sample_chain =
     (let read = (\<lambda>net. (Inr \<lparr>ob_initialized = True, ob_curr_epoch = 95, ob_last_exec = net_remote net, ob_ctx = ()\<rparr>, net))
      in \<lparr>lp_start = (\<lambda>net. (Inr 10, net)), lp_observe = read, lp_validators = (\<lambda>ctx net. (Inr ({3}, ctx), net)),
          lp_submit = (\<lambda>epoch ctx a net. (Inr (), net\<lparr>net_remote := epoch\<rparr>)), lp_reobserve = (\<lambda>ctx. read),
          lp_wait = (\<lambda>net. (True, net)), lp_context = ''sample''\<rparr>)"

lemma sample_chain_executes: "chain_executes sample_chain 95 net_remote"
  by (simp add: chain_executes_def sample_chain_def Let_def)

section \<open>Properties\<close>



end
