(* ===== verification/Checkpoint_Manager.thy ===== *)
theory Checkpoint_Manager
  imports Checkpoint_Loop
begin

text \<open>
  The managers of top-down and of bottom-up checkpoints, \<^verbatim>\<open>src/src/manager/topdown.rs\<close> and
  \<^verbatim>\<open>src/src/manager/bottomup.rs\<close>, as instances of the loop of \<open>Checkpoint_Loop\<close>, and the subsystem of
  \<^verbatim>\<open>src/src/manager/checkpoint.rs\<close> that starts them for every pair of subnets to manage.

  Whether a wait ends with the timeout or with the stop signal is decided by the argument \<open>wait\<close>.
\<close>

section \<open>Shared steps\<close>

text \<open>\<open>ChainEpoch::try_from(height)\<close>.\<close>

definition epoch_of_height :: "u64 \<Rightarrow> (agent_error, int) result" where
  "epoch_of_height h =
     (if uint h < 2 ^ 63 then Inr (uint h) else Inl (Failed ''out of range integral type conversion attempted''))"

text \<open>The head of a chain: its height as an epoch, and its tip set.\<close>

definition head_tip_set where
  "head_tip_set env cl =
     bind_op (chain_head env cl) (\<lambda>head.
     bind_op (lift_result (first_tip_set env head)) (\<lambda>tip_set.
     lift_result (Inr (head, tip_set))))"

definition validator_set_of where
  "validator_set_of env vs =
     (case vs_validators vs of
        None \<Rightarrow> Inr {}
      | Some validators \<Rightarrow>
          bind_result (collect_results (\<lambda>v. map_err Failed (ae_addr_from_str env (va_addr v))) validators)
            (\<lambda>addrs. Inr (set addrs)))"

definition single_cid where
  "single_cid head =
     (if length (ch_cids head) = 1 then Inr () else Inl (Panicked ''assertion failed: `(left == right)`''))"

definition push_and_commit where
  "push_and_commit env cl msg =
     bind_op (mpool_push_message env cl msg) (\<lambda>r.
     bind_op (lift_result (mpool_response_cid env r)) (\<lambda>cid.
     bind_op (state_wait_msg env cl cid) (\<lambda>_.
     lift_result (Inr ()))))"

definition wait_next_iteration :: "('w \<Rightarrow> bool \<times> 'w) \<Rightarrow> 'w net \<Rightarrow> bool \<times> 'w net" where
  "wait_next_iteration wait net =
     (let (go_on, w) = wait (net_remote net) in (go_on, net\<lparr>net_remote := w\<rparr>))"

section \<open>Top-down checkpoints\<close>

definition submit_topdown_checkpoint where
  "submit_topdown_checkpoint env child_cl parent_cl child_subnet epoch parent_tip_set child_tip_set account =
     bind_op (ipc_read_gateway_state env child_cl child_tip_set) (\<lambda>state.
     bind_op (lift_result (map_err Failed (ae_addr_from_str env GATEWAY_ACTOR_ADDRESS))) (\<lambda>gateway_addr.
     bind_op (get_tipset_by_height env parent_cl epoch parent_tip_set) (\<lambda>submission_tip_set.
     bind_op (lift_result (first_tip_set env submission_tip_set)) (\<lambda>tip_set.
     bind_op (ipc_get_topdown_msgs env parent_cl child_subnet gateway_addr tip_set
         (gs_applied_topdown_nonce state)) (\<lambda>msgs.
     bind_op (lift_result (map_err Failed (ae_cbor env (Top_Down \<lparr>td_epoch = epoch, td_top_down_msgs = msgs\<rparr>)))) (\<lambda>params.
     push_and_commit env child_cl
       (mpool_push_message_new gateway_addr account (ae_method_num env SubmitTopDownCheckpoint) params)))))))"

definition topdown_start where
  "topdown_start env child_cl =
     bind_op (head_tip_set env child_cl) (\<lambda>(head, child_tip_set).
     bind_op (ipc_read_gateway_state env child_cl child_tip_set) (\<lambda>state.
     lift_result (Inr (gs_top_down_check_period state))))"

text \<open>The context of a round is the tip set of the parent and that of the child.\<close>

definition topdown_observe where
  "topdown_observe env child_cl parent_cl =
     bind_op (chain_head env parent_cl) (\<lambda>parent_head.
     bind_op (lift_result (epoch_of_height (ch_height parent_head))) (\<lambda>curr_epoch.
     bind_op (lift_result (first_tip_set env parent_head)) (\<lambda>parent_tip_set.
     bind_op (head_tip_set env child_cl) (\<lambda>(child_head, child_tip_set).
     bind_op (ipc_read_gateway_state env child_cl child_tip_set) (\<lambda>gw.
     lift_result (Inr
       \<lparr>ob_initialized = gs_initialized gw, ob_curr_epoch = curr_epoch,
        ob_last_exec = vo_last_voting_executed (gs_top_down_checkpoint_voting gw),
        ob_ctx = (parent_tip_set, child_tip_set)\<rparr>))))))"

definition topdown_validators where
  "topdown_validators env parent_cl child_subnet = (\<lambda>(parent_tip_set, child_tip_set).
     bind_op (ipc_read_subnet_actor_state env parent_cl child_subnet parent_tip_set) (\<lambda>state.
     bind_op (lift_result (validator_set_of env (sa_validator_set state))) (\<lambda>vals.
     lift_result (Inr (vals, (parent_tip_set, child_tip_set))))))"

definition topdown_ops where
  "topdown_ops env wait child parent =
     (let child_cl = from_subnet child; parent_cl = from_subnet parent
      in \<lparr>lp_start = topdown_start env child_cl,
          lp_observe = topdown_observe env child_cl parent_cl,
          lp_validators = topdown_validators env parent_cl (sn_id child),
          lp_submit = (\<lambda>epoch (parent_tip_set, child_tip_set) account.
            submit_topdown_checkpoint env child_cl parent_cl (sn_id child) epoch parent_tip_set child_tip_set account),
          lp_reobserve = (\<lambda>_. topdown_observe env child_cl parent_cl),
          lp_wait = wait_next_iteration wait,
          lp_context = ''error in manage_topdown_checkpoints() for subnet pair''\<rparr>)"

definition manage_topdown_checkpoints where
  "manage_topdown_checkpoints env wait child parent =
     loop_step (topdown_ops env wait child parent) (sn_accounts child)"

section \<open>Bottom-up checkpoints\<close>

definition submit_checkpoint where
  "submit_checkpoint env child_cl parent_cl child_subnet child_tip_set epoch account =
     bind_op (ipc_get_checkpoint_template env child_cl epoch) (\<lambda>template.
     bind_op (ipc_get_prev_checkpoint_for_child env parent_cl child_subnet) (\<lambda>response.
     let checkpoint = ae_checkpoint_new env child_subnet epoch;
         data = (bu_data checkpoint)\<lparr>cd_children := cd_children (bu_data template),
                                     cd_cross_msgs := cd_cross_msgs (bu_data template)\<rparr>
     in bind_op (lift_result (case response of
                    None \<Rightarrow> Inr data
                  | Some m \<Rightarrow> bind_result (cid_of_map env m) (\<lambda>cid. Inr (data\<lparr>cd_prev_check := cid\<rparr>)))) (\<lambda>data.
     bind_op (lift_result (map_err Failed (ae_cbor env (Bottom_Up
         (checkpoint\<lparr>bu_data := data\<lparr>cd_proof := ae_cid_to_bytes env child_tip_set\<rparr>\<rparr>))))) (\<lambda>params.
     push_and_commit env parent_cl
       (mpool_push_message_new (ae_subnet_actor env child_subnet) account (ae_method_num env SubmitCheckpoint) params)))))"

definition bottomup_start where
  "bottomup_start env parent_cl child_subnet =
     bind_op (head_tip_set env parent_cl) (\<lambda>(head, parent_tip_set).
     bind_op (ipc_read_subnet_actor_state env parent_cl child_subnet parent_tip_set) (\<lambda>state.
     lift_result (Inr (sa_bottom_up_check_period state))))"

text \<open>
  The context of a round is the head of the child, the state of the subnet actor, and the tip set of
  the child that is used as the proof.
\<close>

definition bottomup_observe where
  "bottomup_observe env child_cl parent_cl child_subnet =
     bind_op (chain_head env child_cl) (\<lambda>child_head.
     bind_op (lift_result (epoch_of_height (ch_height child_head))) (\<lambda>curr_epoch.
     bind_op (lift_result (first_tip_set env child_head)) (\<lambda>child_tip_set.
     bind_op (ipc_read_gateway_state env child_cl child_tip_set) (\<lambda>gw.
     bind_op (chain_head env parent_cl) (\<lambda>parent_head.
     bind_op (lift_result (single_cid parent_head)) (\<lambda>_.
     bind_op (lift_result (first_tip_set env parent_head)) (\<lambda>parent_tip_set.
     bind_op (ipc_read_subnet_actor_state env parent_cl child_subnet parent_tip_set) (\<lambda>state.
     lift_result (Inr
       \<lparr>ob_initialized = gs_initialized gw, ob_curr_epoch = curr_epoch,
        ob_last_exec = vo_last_voting_executed (sa_bottom_up_checkpoint_voting state),
        ob_ctx = (child_head, state, child_tip_set)\<rparr>)))))))))"

definition bottomup_validators where
  "bottomup_validators env = (\<lambda>(child_head, state, _).
     bind_op (lift_result (validator_set_of env (sa_validator_set state))) (\<lambda>vals.
     bind_op (lift_result (single_cid child_head)) (\<lambda>_.
     bind_op (lift_result (first_tip_set env child_head)) (\<lambda>child_tip_set.
     lift_result (Inr (vals, (child_head, state, child_tip_set)))))))"

text \<open>The lagging loop keeps the tip set of the round, and does not look at the gateway again.\<close>

definition bottomup_reobserve where
  "bottomup_reobserve env child_cl parent_cl child_subnet = (\<lambda>(child_head, state, child_tip_set).
     bind_op (chain_head env child_cl) (\<lambda>head.
     bind_op (lift_result (epoch_of_height (ch_height head))) (\<lambda>curr_epoch.
     bind_op (head_tip_set env parent_cl) (\<lambda>(parent_head, parent_tip_set).
     bind_op (ipc_read_subnet_actor_state env parent_cl child_subnet parent_tip_set) (\<lambda>state'.
     lift_result (Inr
       \<lparr>ob_initialized = True, ob_curr_epoch = curr_epoch,
        ob_last_exec = vo_last_voting_executed (sa_bottom_up_checkpoint_voting state'),
        ob_ctx = (child_head, state, child_tip_set)\<rparr>))))))"

definition bottomup_ops where
  "bottomup_ops env wait child parent =
     (let child_cl = from_subnet child; parent_cl = from_subnet parent
      in \<lparr>lp_start = bottomup_start env parent_cl (sn_id child),
          lp_observe = bottomup_observe env child_cl parent_cl (sn_id child),
          lp_validators = bottomup_validators env,
          lp_submit = (\<lambda>epoch (child_head, state, child_tip_set) account.
            submit_checkpoint env child_cl parent_cl (sn_id child) child_tip_set epoch account),
          lp_reobserve = bottomup_reobserve env child_cl parent_cl (sn_id child),
          lp_wait = wait_next_iteration wait,
          lp_context = ''error in subnet pair''\<rparr>)"

definition manage_bottomup_checkpoints where
  "manage_bottomup_checkpoints env wait child parent =
     loop_step (bottomup_ops env wait child parent) (sn_accounts child)"

section \<open>The subsystem\<close>

definition subnets_to_manage where
  "subnets_to_manage env ord subnets =
     map (\<lambda>s. (s, the (subnets (the (ae_sid_parent env (sn_id s))))))
       (filter (\<lambda>s. ae_sid_parent env (sn_id s) \<noteq> None \<and> subnets (the (ae_sid_parent env (sn_id s))) \<noteq> None)
         (filter (\<lambda>s. sn_accounts s \<noteq> []) (map (\<lambda>k. the (subnets k)) (ord (dom subnets)))))"

datatype ('addr, 'sid) spawned_manager =
    Bottomup_Manager "('addr, 'sid) subnet" "('addr, 'sid) subnet"
  | Topdown_Manager "('addr, 'sid) subnet" "('addr, 'sid) subnet"

definition managers_for where
  "managers_for env ord config =
     concat (map (\<lambda>(child, parent). [Bottomup_Manager child parent, Topdown_Manager child parent])
       (subnets_to_manage env ord (co_subnets config)))"

text \<open>
  The loop of the subsystem. Each round loads the configuration, starts the managers for it, and
  waits for a request to shut down or for a notification of the configuration; an error of the
  channel counts as a shutdown. Then the managers are stopped and awaited, which fails if one of
  them has panicked. The input is what each round finds: the configuration, the event, and whether
  a manager of the round has panicked. The result is the managers started in each round, and what
  the subsystem returns, if it returns.
\<close>

datatype subsystem_event = Shutdown_Requested | Config_Received "(string, unit) result"

fun subsystem_run where
  "subsystem_run env ord [] = ([], None)"
| "subsystem_run env ord ((config, ev, panicked) # rounds) =
     (let started = managers_for env ord config;
          is_shutdown = (case ev of Shutdown_Requested \<Rightarrow> True | Config_Received (Inr _) \<Rightarrow> False
                                  | Config_Received (Inl _) \<Rightarrow> True)
      in if panicked then ([started], Some (Inl (Failed ''task panicked'')))
         else if is_shutdown then ([started], Some (Inr ()))
         else let (later, returned) = subsystem_run env ord rounds in (started # later, returned))"

section \<open>What the managers send\<close>

definition reads_from where
  "reads_from child parent r \<longleftrightarrow> read_only (from_subnet child) r \<or> read_only (from_subnet parent) r"

text \<open>The only messages of the two managers.\<close>

definition topdown_message where
  "topdown_message env child epoch a r \<longleftrightarrow>
     (\<exists>gateway msgs params.
        ae_addr_from_str env GATEWAY_ACTOR_ADDRESS = Inr gateway \<and>
        ae_cbor env (Top_Down \<lparr>td_epoch = epoch, td_top_down_msgs = msgs\<rparr>) = Inr params \<and>
        pushes env (from_subnet child)
          (mpool_push_message_new gateway a (ae_method_num env SubmitTopDownCheckpoint) params) r)"

definition bottomup_message where
  "bottomup_message env child parent epoch a r \<longleftrightarrow>
     (\<exists>checkpoint params.
        cd_source (bu_data checkpoint) = cd_source (bu_data (ae_checkpoint_new env (sn_id child) epoch)) \<and>
        cd_epoch (bu_data checkpoint) = cd_epoch (bu_data (ae_checkpoint_new env (sn_id child) epoch)) \<and>
        ae_cbor env (Bottom_Up checkpoint) = Inr params \<and>
        pushes env (from_subnet parent)
          (mpool_push_message_new (ae_subnet_actor env (sn_id child)) a (ae_method_num env SubmitCheckpoint) params) r)"

section \<open>A sample pair of subnets\<close>

text \<open>
  Two nodes at epoch 30 whose last executed checkpoint is that of epoch 10, with a period of 10 and
  address 3 as the only validator; the agent has the accounts 3 and 4.
\<close>

definition sample_head :: json where
  "sample_head = JObj [(''Cids'', JArr [JObj [(''/'', JStr ''tip'')]]), (''Blocks'', JArr []), (''Height'', JNum 30)]"

definition sample_voting :: json where
  "sample_voting = JObj [(''GenesisEpoch'', JNum 0), (''LastVotingExecuted'', JNum 10)]"

definition sample_pushed :: json where
  "sample_pushed = JObj [(''Message'', JObj [(''To'', JStr []), (''From'', JStr []), (''Value'', JStr []),
     (''Method'', JNum 2), (''Params'', JStr []), (''Nonce'', JNum 0), (''GasLimit'', JNum 0), (''GasFeeCap'', JStr []),
     (''GasPremium'', JStr []), (''Version'', JNum 0), (''CID'', JObj [(''/'', JStr ''msg'')])]),
     (''CID'', JObj [])]"

definition sample_answer :: "string \<Rightarrow> json" where
  "sample_answer t =
     (if t = methods CHAIN_HEAD \<or> t = methods GET_TIPSET_BY_HEIGHT then sample_head
      else if t = methods IPC_READ_GATEWAY_STATE then
        JObj [(''BottomUpCheckPeriod'', JNum 10), (''TopDownCheckPeriod'', JNum 10), (''AppliedTopdownNonce'', JNum 0),
              (''TopDownCheckpointVoting'', sample_voting), (''Initialized'', JBool True)]
      else if t = methods IPC_READ_SUBNET_ACTOR_STATE then
        JObj [(''BottomUpCheckPeriod'', JNum 10),
              (''ValidatorSet'', JObj [(''validators'', JArr [JObj [(''addr'', JStr ''ttt''), (''net_addr'', JStr []),
                 (''weight'', JStr [])]]), (''configuration_number'', JNum 0)]),
              (''MinValidators'', JNum 1), (''BottomUpCheckpointVoting'', sample_voting)]
      else if t = methods IPC_GET_TOPDOWN_MESSAGES then JArr []
      else if t = methods IPC_GET_PREV_CHECKPOINT_FOR_CHILD then JObj [(''/'', JStr ''prev'')]
      else if t = methods MPOOL_PUSH_MESSAGE then sample_pushed
      else if t = methods STATE_WAIT_MSG then
        JObj [(''Message'', JObj []), (''Receipt'', JObj [(''ExitCode'', JNum 0), (''GasUsed'', JNum 0)]),
              (''TipSet'', JArr []), (''Height'', JNum 31)]
      else JStr [])"

definition sample_child :: "(nat, nat list) subnet" where
  "sample_child = \<lparr>sn_id = [3], sn_gateway_addr = 64, sn_network_name = ''child'', sn_jsonrpc_api_http = ''http://child'',
     sn_jsonrpc_api_ws = None, sn_auth_token = Some ''secret'', sn_accounts = [3, 4]\<rparr>"

definition sample_parent :: "(nat, nat list) subnet" where
  "sample_parent = \<lparr>sn_id = [], sn_gateway_addr = 64, sn_network_name = ''root'', sn_jsonrpc_api_http = ''http://root'',
     sn_jsonrpc_api_ws = None, sn_auth_token = None, sn_accounts = []\<rparr>"

abbreviation sample_nodes where
  "sample_nodes \<equiv> answering_node sample_answer"

abbreviation sample_wait :: "unit \<Rightarrow> bool \<times> unit" where
  "sample_wait \<equiv> \<lambda>w. (True, w)"

section \<open>Lemmas\<close>

lemma wait_next_iteration_sent [simp]: "net_sent (snd (wait_next_iteration wait net)) = net_sent net"
  by (simp add: wait_next_iteration_def split: prod.splits)

lemma sends_head_tip_set [sends_intros]: "sends (read_only cl) (head_tip_set env cl)"
  unfolding head_tip_set_def by (intro sends_intros)

lemma sends_prod [sends_intros]:
  "(\<And>a b. x = (a, b) \<Longrightarrow> sends P (f a b)) \<Longrightarrow> sends P (case x of (a, b) \<Rightarrow> f a b)"
  by (cases x) simp

lemma sends_reads_from:
  "sends (read_only (from_subnet child)) m \<Longrightarrow> sends (reads_from child parent) m"
  "sends (read_only (from_subnet parent)) m \<Longrightarrow> sends (reads_from child parent) m"
  by (auto simp: reads_from_def intro: sends_mono)

lemma sends_or: "sends P m \<Longrightarrow> sends (\<lambda>r. P r \<or> Q r) m"
  by (erule sends_mono) simp

lemmas reads_head = reads_only(9) and reads_gateway = reads_only(14) and reads_actor = reads_only(15)

lemma sends_push_and_commit:
  assumes "\<And>r. read_only cl r \<Longrightarrow> P r" and "\<And>r. pushes env cl msg r \<Longrightarrow> P r"
  shows "sends P (push_and_commit env cl msg)"
  unfolding push_and_commit_def
  by (intro sends_bind sends_Inl)
    (auto intro: sends_mono [OF sends_mpool_push assms(2)] sends_mono [OF reads_only(1) assms(1)])

lemma topdown_observe_reads:
  "sends (reads_from child parent) (topdown_observe env (from_subnet child) (from_subnet parent))"
  unfolding topdown_observe_def
  by (intro sends_bind sends_prod sends_Inl sends_reads_from(1) [OF sends_head_tip_set]
      sends_reads_from(1) [OF reads_gateway] sends_reads_from(2) [OF reads_head])

lemma submit_topdown_sends:
  "sends (\<lambda>r. reads_from child parent r \<or> topdown_message env child epoch a r)
     (submit_topdown_checkpoint env (from_subnet child) (from_subnet parent) (sn_id child) epoch t t' a)"
  unfolding submit_topdown_checkpoint_def
  by (intro sends_bind_result sends_Inl sends_push_and_commit sends_or [OF sends_reads_from(1) [OF reads_gateway]]
      sends_or [OF sends_reads_from(2) [OF reads_only(10)]] sends_or [OF sends_reads_from(2) [OF reads_only(19)]])
    (auto simp: reads_from_def topdown_message_def)

lemma sends_push_bottomup:
  assumes "ae_cbor env (Bottom_Up checkpoint) = Inr params"
    and "cd_source (bu_data checkpoint) = cd_source (bu_data (ae_checkpoint_new env (sn_id child) epoch))"
    and "cd_epoch (bu_data checkpoint) = cd_epoch (bu_data (ae_checkpoint_new env (sn_id child) epoch))"
  shows "sends (\<lambda>r. reads_from child parent r \<or> bottomup_message env child parent epoch a r)
    (push_and_commit env (from_subnet parent)
      (mpool_push_message_new (ae_subnet_actor env (sn_id child)) a (ae_method_num env SubmitCheckpoint) params))"
proof (rule sends_push_and_commit)
  show "reads_from child parent r \<or> bottomup_message env child parent epoch a r"
    if "pushes env (from_subnet parent)
      (mpool_push_message_new (ae_subnet_actor env (sn_id child)) a (ae_method_num env SubmitCheckpoint) params) r" for r
    unfolding bottomup_message_def using that assms by blast
qed (simp add: reads_from_def)

lemma sends_cbor_bottomup:
  assumes "cd_source (bu_data checkpoint) = cd_source (bu_data (ae_checkpoint_new env (sn_id child) epoch))"
    and "cd_epoch (bu_data checkpoint) = cd_epoch (bu_data (ae_checkpoint_new env (sn_id child) epoch))"
  shows "sends (\<lambda>r. reads_from child parent r \<or> bottomup_message env child parent epoch a r)
    (bind_op (lift_result (map_err Failed (ae_cbor env (Bottom_Up checkpoint)))) (\<lambda>params.
     push_and_commit env (from_subnet parent)
      (mpool_push_message_new (ae_subnet_actor env (sn_id child)) a (ae_method_num env SubmitCheckpoint) params)))"
  by (intro sends_bind_result sends_Inl sends_push_bottomup [OF _ assms]) simp

lemma submit_bottomup_sends:
  "sends (\<lambda>r. reads_from child parent r \<or> bottomup_message env child parent epoch a r)
     (submit_checkpoint env (from_subnet child) (from_subnet parent) (sn_id child) t epoch a)"
  unfolding submit_checkpoint_def Let_def
  by (intro sends_cbor_bottomup sends_bind_result sends_Inl
      sends_or [OF sends_reads_from(1) [OF reads_only(12)]] sends_or [OF sends_reads_from(2) [OF reads_only(11)]])
    (auto split: option.splits)

interpretation topdown: checkpoint_loop "topdown_ops env wait child parent" "sn_accounts child"
  "reads_from child parent" "topdown_message env child"
proof
  show "sends (reads_from child parent) (lp_start (topdown_ops env wait child parent))"
    unfolding topdown_ops_def Let_def topdown_start_def
    by (simp, intro sends_bind sends_prod sends_Inl sends_reads_from(1) [OF sends_head_tip_set]
        sends_reads_from(1) [OF reads_gateway])
qed (auto simp: topdown_ops_def Let_def topdown_observe_reads topdown_validators_def submit_topdown_sends
    intro!: sends_bind sends_Inl sends_reads_from(2) [OF reads_actor] split: prod.splits)

interpretation bottomup: checkpoint_loop "bottomup_ops env wait child parent" "sn_accounts child"
  "reads_from child parent" "bottomup_message env child parent"
proof
  show "sends (reads_from child parent) (lp_observe (bottomup_ops env wait child parent))"
    unfolding bottomup_ops_def Let_def bottomup_observe_def
    by (simp, intro sends_bind sends_Inl sends_reads_from(1) [OF reads_head] sends_reads_from(1) [OF reads_gateway]
        sends_reads_from(2) [OF reads_head] sends_reads_from(2) [OF reads_actor])
qed (auto simp: bottomup_ops_def Let_def bottomup_start_def bottomup_validators_def bottomup_reobserve_def
    submit_bottomup_sends
    intro!: sends_bind sends_Inl sends_reads_from(2) [OF reads_actor] sends_reads_from(2) [OF sends_head_tip_set]
      sends_reads_from(1) [OF reads_head] split: prod.splits)

lemmas sample_reads = answering_node_request build_jsonrpc_request_def chain_head_def ipc_read_gateway_state_def
  ipc_read_subnet_actor_state_def get_tipset_by_height_def ipc_get_topdown_msgs_def with_subnet_def
  subnet_id_to_json_def NO_PARAMS_def from_subnet_def client_new_def

lemmas sample_decoding = de_chain_head_def de_cid_map_def required_def optional_def de_word_def de_voting_def
  de_gateway_state_def de_i64_def de_subnet_actor_state_def de_validator_set_def de_validator_def
  de_mpool_push_def de_mpool_push_inner_def de_state_wait_def de_receipt_def

lemmas sample_evaluation = Let_def head_tip_set_def first_tip_set_def cid_of_map_def bind_op_def lift_result_def
  sample_reads sample_answer_def methods_inj sample_head_def sample_voting_def sample_decoding epoch_of_height_def
  single_cid_def validator_set_of_def

lemma sample_topdown_start:
  "\<exists>net'. manage_topdown_checkpoints sample_nodes wait sample_child sample_parent (Starting, net) = (Checking 10, net')"
  by (simp add: manage_topdown_checkpoints_def topdown_ops_def topdown_start_def sample_evaluation)

definition sample_observation :: "(string \<times> string) observation" where
  "sample_observation = \<lparr>ob_initialized = True, ob_curr_epoch = 30, ob_last_exec = 10, ob_ctx = (''tip'', ''tip'')\<rparr>"

lemma sample_topdown_check:
  "\<exists>net'. manage_topdown_checkpoints sample_nodes wait sample_child sample_parent (Checking 10, net) =
     (Accounts 10 sample_observation {3} [3, 4], net')"
  by (simp add: manage_topdown_checkpoints_def topdown_ops_def check_step_def topdown_observe_def topdown_validators_def
      sample_observation_def sample_child_def submission_epoch_def i64_range_def sample_evaluation)

lemma sample_topdown_submit:
  "\<exists>net'. manage_topdown_checkpoints sample_nodes wait sample_child sample_parent
     (Accounts 10 sample_observation {3} [3, 4], net) = (Lagging 10 sample_observation {3} 3 [4], net') \<and>
     push_count net' = Suc (push_count net)"
  by (simp add: manage_topdown_checkpoints_def topdown_ops_def submit_then_def submit_topdown_checkpoint_def
      sample_observation_def sample_child_def submission_epoch_def i64_range_def sample_evaluation
      GATEWAY_ACTOR_ADDRESS_def push_and_commit_def mpool_push_message_def mpool_push_params_def
      mpool_push_message_new_def to_value_def mpool_response_cid_def sample_pushed_def state_wait_msg_def push_count_def is_push_def hr_method_def)

definition sample_bottomup_observation :: "(chain_head_response \<times> subnet_actor_state \<times> string) observation" where
  "sample_bottomup_observation =
     \<lparr>ob_initialized = True, ob_curr_epoch = 30, ob_last_exec = 10,
      ob_ctx = (\<lparr>ch_cids = [\<lparr>cm_cid = Some ''tip''\<rparr>], ch_blocks = [], ch_height = 30\<rparr>,
        \<lparr>sa_bottom_up_check_period = 10,
         sa_validator_set = \<lparr>vs_validators = Some [\<lparr>va_addr = ''ttt'', va_net_addr = [], va_weight = []\<rparr>],
           vs_configuration_number = 0\<rparr>,
         sa_min_validators = 1,
         sa_bottom_up_checkpoint_voting = \<lparr>vo_genesis_epoch = 0, vo_last_voting_executed = 10\<rparr>\<rparr>, ''tip'')\<rparr>"

lemma sample_bottomup_start:
  "\<exists>net'. manage_bottomup_checkpoints sample_nodes sample_wait sample_child sample_parent (Starting, net) = (Checking 10, net')"
  by (simp add: manage_bottomup_checkpoints_def bottomup_ops_def bottomup_start_def sample_child_def sample_evaluation)

lemma sample_bottomup_check:
  "\<exists>net'. manage_bottomup_checkpoints sample_nodes sample_wait sample_child sample_parent (Checking 10, net) =
     (Accounts 10 sample_bottomup_observation {3} [3, 4], net')"
  by (simp add: manage_bottomup_checkpoints_def bottomup_ops_def check_step_def bottomup_observe_def bottomup_validators_def
      sample_bottomup_observation_def sample_child_def submission_epoch_def i64_range_def sample_evaluation)

lemma sample_bottomup_submit:
  "\<exists>net'. manage_bottomup_checkpoints sample_nodes sample_wait sample_child sample_parent
     (Accounts 10 sample_bottomup_observation {3} [3, 4], net) = (Lagging 10 sample_bottomup_observation {3} 3 [4], net') \<and>
     push_count net' = Suc (push_count net)"
  by (simp add: manage_bottomup_checkpoints_def bottomup_ops_def submit_then_def submit_checkpoint_def
      ipc_get_checkpoint_template_def ipc_get_prev_checkpoint_for_child_def decode_checkpoint_def
      sample_bottomup_observation_def sample_child_def submission_epoch_def i64_range_def sample_evaluation
      GATEWAY_ACTOR_ADDRESS_def push_and_commit_def mpool_push_message_def mpool_push_params_def
      mpool_push_message_new_def to_value_def mpool_response_cid_def sample_pushed_def state_wait_msg_def push_count_def is_push_def hr_method_def)

lemma push_of_step:
  assumes "\<forall>r \<in> set new. is_push r \<longrightarrow> P r" and "net_sent net' = net_sent net @ new"
    and "push_count net' = Suc (push_count net)"
  shows "\<exists>r \<in> set new. is_push r \<and> P r"
proof -
  have "filter is_push new \<noteq> []"
    using assms(2,3) by (auto simp: push_count_def)
  with assms(1) show ?thesis
    by (auto simp: filter_empty_conv)
qed

lemma runs_two: "f s = t \<Longrightarrow> f t = u \<Longrightarrow> runs (\<lambda>s (l :: unit) t. t = f s) s [(), ()] u"
  by (rule runs_Cons, simp, rule runs_one, simp)

lemma pushes_justified:
  assumes "phase_inv ops accounts phase"
    and "list_all (\<lambda>r. reads_from child parent r \<or> (\<exists>a epoch. submission ops phase net a epoch \<and> M epoch a r)) new"
  shows "\<forall>r \<in> set new. is_push r \<longrightarrow> (\<exists>a epoch. justified ops accounts phase net a epoch \<and> M epoch a r)"
proof (intro ballI impI)
  fix r
  assume "r \<in> set new" "is_push r"
  then have "\<not> reads_from child parent r"
    using read_only_not_push by (auto simp: reads_from_def)
  then obtain a epoch where "submission ops phase net a epoch" "M epoch a r"
    using assms(2) \<open>r \<in> set new\<close> by (auto simp: list_all_iff)
  then show "\<exists>a epoch. justified ops accounts phase net a epoch \<and> M epoch a r"
    using submission_justified [OF assms(1)] by blast
qed

section \<open>Properties\<close>





text \<open>
  C39. The subsystem manages exactly the right pairs: for a well-formed configuration, each subnet with
  at least one account whose parent is configured too, together with that parent, once.
\<close>

theorem subnets_to_manage_exact:
  assumes "config_wf config" and "hash_order ord"
  shows "distinct (subnets_to_manage env ord (co_subnets config)) \<and>
    set (subnets_to_manage env ord (co_subnets config)) =
      {(child, parent). co_subnets config (sn_id child) = Some child \<and> sn_accounts child \<noteq> [] \<and>
         (\<exists>p. ae_sid_parent env (sn_id child) = Some p \<and> co_subnets config p = Some parent)}"
proof
  let ?subnets = "co_subnets config"
  have fin: "finite (dom ?subnets)" and ids: "\<And>k s. ?subnets k = Some s \<Longrightarrow> sn_id s = k"
    using assms(1) by (auto simp: config_wf_def)
  have "inj_on (\<lambda>k. the (?subnets k)) (dom ?subnets)"
    by (rule inj_onI) (metis domIff ids option.collapse)
  then have "distinct (map (\<lambda>k. the (?subnets k)) (ord (dom ?subnets)))"
    using assms(2) fin by (simp add: distinct_map)
  then show "distinct (subnets_to_manage env ord ?subnets)"
    unfolding subnets_to_manage_def by (simp add: distinct_map inj_on_def)
  have all: "set (map (\<lambda>k. the (?subnets k)) (ord (dom ?subnets))) = {s. ?subnets (sn_id s) = Some s}"
  proof (intro set_eqI iffI)
    fix s
    assume "s \<in> set (map (\<lambda>k. the (?subnets k)) (ord (dom ?subnets)))"
    then obtain k where "?subnets k = Some s"
      using assms(2) fin by auto
    with ids [OF this] show "s \<in> {s. ?subnets (sn_id s) = Some s}"
      by simp
  next
    fix s
    assume "s \<in> {s. ?subnets (sn_id s) = Some s}"
    then have "sn_id s \<in> dom ?subnets" "s = the (?subnets (sn_id s))"
      by auto
    then show "s \<in> set (map (\<lambda>k. the (?subnets k)) (ord (dom ?subnets)))"
      unfolding set_map using assms(2) fin by (intro image_eqI [of _ _ "sn_id s"]) auto
  qed
  show "set (subnets_to_manage env ord ?subnets) =
      {(child, parent). ?subnets (sn_id child) = Some child \<and> sn_accounts child \<noteq> [] \<and>
         (\<exists>p. ae_sid_parent env (sn_id child) = Some p \<and> ?subnets p = Some parent)}"
    unfolding subnets_to_manage_def set_map set_filter all [unfolded set_map]
    by (auto simp: image_iff)
qed

theorem subnets_to_manage_exact_witness:
  "(sample_child, sample_parent) \<in> set (subnets_to_manage sample_nodes sorted_list_of_set
      (co_subnets \<lparr>co_json_rpc_address = [], co_subnets = [[] \<mapsto> sample_parent, [3] \<mapsto> sample_child]\<rparr>))"
proof -
  let ?c = "\<lparr>co_json_rpc_address = [], co_subnets = [[] \<mapsto> sample_parent, [3] \<mapsto> sample_child]\<rparr>"
  have "config_wf ?c"
    by (auto simp: config_wf_def sample_parent_def sample_child_def)
  note exact = subnets_to_manage_exact [OF this hash_order_sorted_list, of sample_nodes, THEN conjunct2]
  show ?thesis
    unfolding exact by (simp add: sample_child_def)
qed

text \<open>
  When more than eight reloads happen while the subsystem is busy, the channel reports an error that
  the subsystem takes for a closed channel: it shuts down instead of picking up the new configuration.
\<close>

lemma reload_burst_stops_subsystem:
  assumes "rl_notifications rl > taken + CHANNEL_CAPACITY"
  shows "\<exists>e k. channel_recv rl taken = Some (Inl e, k) \<and>
    subsystem_run env ord ((get_config rl, Config_Received (Inl e), False) # rounds) =
      ([managers_for env ord (get_config rl)], Some (Inr ()))"
  using assms by (auto simp: channel_recv_def)

text \<open>As long as nothing fails, every notification replaces the managers by those of the new configuration.\<close>

lemma subsystem_follows_config:
  "subsystem_run env ord (map (\<lambda>config. (config, Config_Received (Inr ()), False)) configs) =
     (map (managers_for env ord) configs, None)"
  by (induction configs) simp_all

end
