(* ===== verification/Agent_Daemon.thy ===== *)
theory Agent_Daemon
  imports Rpc_Server Checkpoint_Manager
begin

text \<open>
  The daemon: the two subsystems that \<^verbatim>\<open>src/src/cli/commands/daemon.rs\<close> starts over one reloadable
  configuration, the checkpointing of \<^verbatim>\<open>src/src/manager/checkpoint.rs\<close> with the managers it spawns and
  the server of \<^verbatim>\<open>src/src/server/jsonrpc.rs\<close>, as one step relation. The steps of the tasks interleave
  in any order; a task is interrupted only between two visits of a loop head, or while it waits.

  The signals of \<open>tokio\<close> are modelled as documented: \<open>Notify::notify_waiters\<close> wakes the tasks that are
  waiting at that moment and leaves nothing behind for the others. When a shutdown is requested, and
  whether the address of the server can be bound, is up to the environment.
\<close>

section \<open>The tasks of the managers\<close>

datatype ('addr, 'sid, 't, 'b) manager_code =
    Topdown_Code "('addr, 'sid) subnet" "('addr, 'sid) subnet" "('addr, 't) phase"
  | Bottomup_Code "('addr, 'sid) subnet" "('addr, 'sid) subnet" "('addr, 'b) phase"

record ('addr, 'sid, 't, 'b) manager_task =
  tk_code :: "('addr, 'sid, 't, 'b) manager_code"
  tk_waiting :: bool

fun phase_outcome :: "('addr, 'ctx) phase \<Rightarrow> (agent_error, unit) result option" where
  "phase_outcome (Finished r) = Some r"
| "phase_outcome _ = None"

fun code_outcome :: "('addr, 'sid, 't, 'b) manager_code \<Rightarrow> (agent_error, unit) result option" where
  "code_outcome (Topdown_Code child parent phase) = phase_outcome phase"
| "code_outcome (Bottomup_Code child parent phase) = phase_outcome phase"

fun spawn_manager where
  "spawn_manager (Bottomup_Manager child parent) =
     \<lparr>tk_code = Bottomup_Code child parent Starting, tk_waiting = False\<rparr>"
| "spawn_manager (Topdown_Manager child parent) =
     \<lparr>tk_code = Topdown_Code child parent Starting, tk_waiting = False\<rparr>"

text \<open>
  Running a manager up to the next loop head. If it comes to a wait on the way, that is the last thing
  it does, and \<open>go_on\<close> tells how the wait ends; a manager returns without an error only from a wait.
\<close>

fun advance where
  "advance env go_on (Topdown_Code child parent phase) net =
     (let (phase, net) = manage_topdown_checkpoints env (\<lambda>w. (go_on, w)) child parent (phase, net)
      in (Topdown_Code child parent phase, net))"
| "advance env go_on (Bottomup_Code child parent phase) net =
     (let (phase, net) = manage_bottomup_checkpoints env (\<lambda>w. (go_on, w)) child parent (phase, net)
      in (Bottomup_Code child parent phase, net))"

definition reaches_wait where
  "reaches_wait env code net \<longleftrightarrow> code_outcome (fst (advance env False code net)) = Some (Inr ())"

definition task_step where
  "task_step env task net =
     (let (code, net') = advance env True (tk_code task) net
      in (\<lparr>tk_code = code, tk_waiting = reaches_wait env (tk_code task) net\<rparr>, net'))"

fun stop_code :: "('addr, 'sid, 't, 'b) manager_code \<Rightarrow> ('addr, 'sid, 't, 'b) manager_code" where
  "stop_code (Topdown_Code child parent _) = Topdown_Code child parent (Finished (Inr ()))"
| "stop_code (Bottomup_Code child parent _) = Bottomup_Code child parent (Finished (Inr ()))"

text \<open>\<open>stop_subnet_managers.notify_waiters()\<close>, as a task experiences it.\<close>

definition notify_waiter :: "('addr, 'sid, 't, 'b) manager_task \<Rightarrow> ('addr, 'sid, 't, 'b) manager_task" where
  "notify_waiter task =
     (if tk_waiting task then \<lparr>tk_code = stop_code (tk_code task), tk_waiting = False\<rparr> else task)"

definition runnable :: "('addr, 'sid, 't, 'b) manager_task \<Rightarrow> bool" where
  "runnable task \<longleftrightarrow> \<not> tk_waiting task \<and> code_outcome (tk_code task) = None"

definition panicked :: "('addr, 'sid, 't, 'b) manager_task \<Rightarrow> bool" where
  "panicked task \<longleftrightarrow> (\<exists>m. code_outcome (tk_code task) = Some (Inl (Panicked m)))"

section \<open>The daemon\<close>

datatype subsystem_phase =
    Subscribing
  | Loading
  | Watching
  | Stopping bool
  | Returned "(agent_error, unit) result"

text \<open>
  The server: it reads its address once, binds it, and spawns the task that serves. The task polls the
  future of the shutdown signal only once it runs: \<open>Server_Spawned address False\<close> is bound but has not run
  yet. \<open>Server_Stopping heard\<close> has sent the signal and awaits the task, which has received the signal or
  has missed it.
\<close>

datatype server_phase =
    Server_Starting
  | Server_Spawned string bool
  | Server_Stopping string bool
  | Server_Returned "(agent_error, unit) result"

datatype server_label = Bind_Server bool | Poll_Server | Stop_Server | Server_Over

inductive server_run :: "string \<Rightarrow> bool \<Rightarrow> server_phase \<Rightarrow> server_label \<Rightarrow> server_phase \<Rightarrow> bool"
  for json_rpc_address shutdown where
  bind_server: "server_run json_rpc_address shutdown Server_Starting (Bind_Server True) (Server_Spawned json_rpc_address False)"
| bind_failed: "server_run json_rpc_address shutdown Server_Starting (Bind_Server False)
    (Server_Returned (Inl (Panicked ''error binding'')))"
| poll_server: "server_run json_rpc_address shutdown (Server_Spawned address False) Poll_Server (Server_Spawned address True)"
| stop_server: "shutdown \<Longrightarrow>
    server_run json_rpc_address shutdown (Server_Spawned address heard) Stop_Server (Server_Stopping address heard)"
| server_over: "server_run json_rpc_address shutdown (Server_Stopping address True) Server_Over (Server_Returned (Inr ()))"

fun serving_at :: "server_phase \<Rightarrow> string option" where
  "serving_at (Server_Spawned address True) = Some address"
| "serving_at (Server_Stopping address False) = Some address"
| "serving_at _ = None"

record ('w, 'addr, 'sid, 't, 'b) daemon =
  dm_server :: "('w, ('addr, 'sid) config) server_state"
  dm_phase :: subsystem_phase
  dm_taken :: nat
  dm_loaded :: "('addr, 'sid) config option"
  dm_tasks :: "('addr, 'sid, 't, 'b) manager_task list"
  dm_server_phase :: server_phase
  dm_shutdown :: bool

definition daemon_init where
  "daemon_init net rl =
     \<lparr>dm_server = \<lparr>ss_net = net, ss_config = rl\<rparr>, dm_phase = Subscribing, dm_taken = 0, dm_loaded = None,
      dm_tasks = [], dm_server_phase = Server_Starting, dm_shutdown = False\<rparr>"

definition launch_daemon where
  "launch_daemon env read path net =
     bind_result (reloadable_new env read path) (\<lambda>reloadable_config. Inr (daemon_init net reloadable_config))"

abbreviation daemon_config where
  "daemon_config s \<equiv> get_config (ss_config (dm_server s))"

datatype ('addr, 'sid) daemon_label =
    Subscribe
  | Start_Managers "('addr, 'sid) config" "('addr, 'sid) spawned_manager list"
  | Task nat
  | Timeout nat
  | Stop_Managers subsystem_event
  | Round_Over bool
  | Server server_label
  | Http bool string string http_reply
  | Request_Shutdown

definition ends_subsystem :: "subsystem_event \<Rightarrow> bool" where
  "ends_subsystem ev =
     (case ev of Shutdown_Requested \<Rightarrow> True | Config_Received (Inr _) \<Rightarrow> False | Config_Received (Inl _) \<Rightarrow> True)"

definition stop_managers where
  "stop_managers ev taken s =
     s\<lparr>dm_phase := Stopping (ends_subsystem ev), dm_taken := taken, dm_tasks := map notify_waiter (dm_tasks s)\<rparr>"

inductive daemon_step for env read ord where
  subscribe: "dm_phase s = Subscribing \<Longrightarrow>
    daemon_step env read ord s Subscribe
      (s\<lparr>dm_phase := Loading, dm_taken := new_subscriber (ss_config (dm_server s))\<rparr>)"
| start_managers: "dm_phase s = Loading \<Longrightarrow> config = daemon_config s \<Longrightarrow>
    ms = managers_for env ord config \<Longrightarrow>
    daemon_step env read ord s (Start_Managers config ms)
      (s\<lparr>dm_phase := Watching, dm_loaded := Some config, dm_tasks := map spawn_manager ms\<rparr>)"
| run_task: "i < length (dm_tasks s) \<Longrightarrow> runnable (dm_tasks s ! i) \<Longrightarrow>
    task_step env (dm_tasks s ! i) (ss_net (dm_server s)) = (task, net) \<Longrightarrow>
    daemon_step env read ord s (Task i)
      (s\<lparr>dm_server := (dm_server s)\<lparr>ss_net := net\<rparr>, dm_tasks := (dm_tasks s)[i := task]\<rparr>)"
| wait_over: "i < length (dm_tasks s) \<Longrightarrow> tk_waiting (dm_tasks s ! i) \<Longrightarrow>
    daemon_step env read ord s (Timeout i)
      (s\<lparr>dm_tasks := (dm_tasks s)[i := (dm_tasks s ! i)\<lparr>tk_waiting := False\<rparr>]\<rparr>)"
| shutdown_seen: "dm_phase s = Watching \<Longrightarrow> dm_shutdown s \<Longrightarrow>
    daemon_step env read ord s (Stop_Managers Shutdown_Requested) (stop_managers Shutdown_Requested (dm_taken s) s)"
| config_seen: "dm_phase s = Watching \<Longrightarrow> channel_recv (ss_config (dm_server s)) (dm_taken s) = Some (r, taken) \<Longrightarrow>
    daemon_step env read ord s (Stop_Managers (Config_Received r)) (stop_managers (Config_Received r) taken s)"
| managers_panicked: "dm_phase s = Stopping is_shutdown \<Longrightarrow> \<exists>task \<in> set (dm_tasks s). panicked task \<Longrightarrow>
    daemon_step env read ord s (Round_Over True) (s\<lparr>dm_phase := Returned (Inl (Failed ''task panicked''))\<rparr>)"
| managers_over: "dm_phase s = Stopping is_shutdown \<Longrightarrow>
    \<forall>task \<in> set (dm_tasks s). code_outcome (tk_code task) \<noteq> None \<and> \<not> panicked task \<Longrightarrow>
    daemon_step env read ord s (Round_Over False) (s\<lparr>dm_phase := if is_shutdown then Returned (Inr ()) else Loading\<rparr>)"
| run_server: "server_run (co_json_rpc_address (daemon_config s)) (dm_shutdown s) (dm_server_phase s) l phase \<Longrightarrow>
    daemon_step env read ord s (Server l) (s\<lparr>dm_server_phase := phase\<rparr>)"
| http: "serving_at (dm_server_phase s) \<noteq> None \<Longrightarrow> json_rpc_filter env read is_post path body (dm_server s) = (answer, server) \<Longrightarrow>
    daemon_step env read ord s (Http is_post path body answer) (s\<lparr>dm_server := server\<rparr>)"
| request_shutdown: "daemon_step env read ord s Request_Shutdown (s\<lparr>dm_shutdown := True\<rparr>)"

inductive_cases daemon_stepE: "daemon_step env read ord s l t"

section \<open>What the tasks send\<close>

abbreviation go_on_wait :: "'w \<Rightarrow> bool \<times> 'w" where
  "go_on_wait \<equiv> \<lambda>w. (True, w)"

text \<open>
  A manager reads from the nodes of its pair, and pushes the checkpoints that its phase justifies.
\<close>

fun manager_sends where
  "manager_sends env (Topdown_Code child parent phase) net r \<longleftrightarrow>
     reads_from child parent r \<or>
     (\<exists>a epoch. justified (topdown_ops env go_on_wait child parent) (sn_accounts child) phase net a epoch \<and>
        topdown_message env child epoch a r)"
| "manager_sends env (Bottomup_Code child parent phase) net r \<longleftrightarrow>
     reads_from child parent r \<or>
     (\<exists>a epoch. justified (bottomup_ops env go_on_wait child parent) (sn_accounts child) phase net a epoch \<and>
        bottomup_message env child parent epoch a r)"

fun code_pair :: "('addr, 'sid, 't, 'b) manager_code \<Rightarrow> ('addr, 'sid) subnet \<times> ('addr, 'sid) subnet" where
  "code_pair (Topdown_Code child parent phase) = (child, parent)"
| "code_pair (Bottomup_Code child parent phase) = (child, parent)"

fun code_inv where
  "code_inv env (Topdown_Code child parent phase) \<longleftrightarrow>
     phase_inv (topdown_ops env go_on_wait child parent) (sn_accounts child) phase"
| "code_inv env (Bottomup_Code child parent phase) \<longleftrightarrow>
     phase_inv (bottomup_ops env go_on_wait child parent) (sn_accounts child) phase"

lemma code_pair_simps [simp]:
  "code_pair (stop_code code) = code_pair code"
  "code_pair (fst (advance env go_on code net)) = code_pair code"
  by (cases code; simp add: case_prod_beta)+

lemma code_outcome_stop [simp]: "code_outcome (stop_code code) = Some (Inr ())"
  by (cases code) simp_all

lemma code_inv_stop: "code_inv env (stop_code code)"
  by (cases code) simp_all

lemma code_inv_advance: "code_inv env code \<Longrightarrow> code_inv env (fst (advance env True code net))"
  by (cases code)
    (simp_all add: case_prod_beta manage_topdown_checkpoints_def manage_bottomup_checkpoints_def
      phase_inv_step)

lemma advance_sends:
  assumes "code_inv env code" and "advance env True code net = (code', net')"
  shows "\<exists>new. net_sent net' = net_sent net @ new \<and> list_all (manager_sends env code net) new"
proof (cases code)
  case (Topdown_Code child parent phase)
  let ?ops = "topdown_ops env go_on_wait child parent"
  obtain new where "net_sent net' = net_sent net @ new"
    "list_all (\<lambda>r. reads_from child parent r \<or> (\<exists>a epoch. submission ?ops phase net a epoch \<and>
       topdown_message env child epoch a r)) new"
    using topdown.loop_step_sends [of child parent env go_on_wait phase net] assms(2)
    unfolding Topdown_Code topdown.sends_in_step_def
    by (auto simp: case_prod_beta manage_topdown_checkpoints_def)
  then show ?thesis
    using assms(1) submission_justified [of ?ops "sn_accounts child" phase net]
    by (auto simp: Topdown_Code list_all_iff)
next
  case (Bottomup_Code child parent phase)
  let ?ops = "bottomup_ops env go_on_wait child parent"
  obtain new where "net_sent net' = net_sent net @ new"
    "list_all (\<lambda>r. reads_from child parent r \<or> (\<exists>a epoch. submission ?ops phase net a epoch \<and>
       bottomup_message env child parent epoch a r)) new"
    using bottomup.loop_step_sends [of child parent env go_on_wait phase net] assms(2)
    unfolding Bottomup_Code bottomup.sends_in_step_def
    by (auto simp: case_prod_beta manage_bottomup_checkpoints_def)
  then show ?thesis
    using assms(1) submission_justified [of ?ops "sn_accounts child" phase net]
    by (auto simp: Bottomup_Code list_all_iff)
qed

section \<open>The invariant of the daemon\<close>

definition managed_pair where
  "managed_pair env config = (\<lambda>(child, parent).
     co_subnets config (sn_id child) = Some child \<and> sn_accounts child \<noteq> [] \<and>
     (\<exists>p. ae_sid_parent env (sn_id child) = Some p \<and> co_subnets config p = Some parent))"

definition task_inv where
  "task_inv env loaded task \<longleftrightarrow>
     code_inv env (tk_code task) \<and>
     (\<exists>config. loaded = Some config \<and> managed_pair env config (code_pair (tk_code task)))"

definition daemon_inv where
  "daemon_inv env s \<longleftrightarrow>
     config_wf (daemon_config s) \<and> list_all (task_inv env (dm_loaded s)) (dm_tasks s)"

lemma subnets_to_manage_pairs:
  assumes "config_wf config" and "hash_order ord" and "pair \<in> set (subnets_to_manage env ord (co_subnets config))"
  shows "managed_pair env config pair"
proof -
  have fin: "finite (dom (co_subnets config))" and ids: "\<And>k s. co_subnets config k = Some s \<Longrightarrow> sn_id s = k"
    using assms(1) by (auto simp: config_wf_def)
  from assms(3) show ?thesis
    using assms(2) fin ids by (fastforce simp: subnets_to_manage_def managed_pair_def)
qed

lemma task_inv_spawn:
  assumes "config_wf config" and "hash_order ord"
  shows "list_all (task_inv env (Some config)) (map spawn_manager (managers_for env ord config))"
  using subnets_to_manage_pairs [OF assms]
  by (fastforce simp: managers_for_def list_all_iff task_inv_def)

lemma task_inv_step:
  "task_inv env loaded task \<Longrightarrow> task_step env task net = (task', net') \<Longrightarrow> task_inv env loaded task'"
  by (auto simp: task_step_def task_inv_def case_prod_beta code_inv_advance)

lemma task_inv_notify: "task_inv env loaded task \<Longrightarrow> task_inv env loaded (notify_waiter task)"
  by (simp add: notify_waiter_def task_inv_def code_inv_stop)

lemma task_inv_waiting: "task_inv env loaded task \<Longrightarrow> task_inv env loaded (task\<lparr>tk_waiting := b\<rparr>)"
  by (simp add: task_inv_def)

lemma list_all_update: "list_all P xs \<Longrightarrow> P y \<Longrightarrow> list_all P (xs[i := y])"
  by (auto simp: list_all_iff dest: set_update_subset_insert [THEN subsetD])

lemma json_rpc_filter_config_wf:
  "config_wf (get_config (ss_config st)) \<Longrightarrow>
   config_wf (get_config (ss_config (snd (json_rpc_filter env read is_post path body st))))"
  by (simp add: json_rpc_filter_snd handle_request_snd handlers_handle_config_wf split: sum.split)

lemma daemon_inv_step:
  assumes "daemon_step env read ord s l t" and "hash_order ord" and "daemon_inv env s"
  shows "daemon_inv env t"
  using assms(1)
proof (cases rule: daemon_step.cases)
  case (start_managers config ms)
  then show ?thesis
    using assms(3) task_inv_spawn [OF _ assms(2), of _ env] by (auto simp: daemon_inv_def)
next
  case (run_task i task net)
  then have "task_inv env (dm_loaded s) task"
    using assms(3) by (intro task_inv_step [OF _ run_task(5)]) (auto simp: daemon_inv_def list_all_length)
  then show ?thesis
    using run_task(2) assms(3) by (simp add: daemon_inv_def list_all_update)
next
  case (wait_over i)
  then show ?thesis
    using assms(3) by (auto simp: daemon_inv_def intro!: list_all_update task_inv_waiting) (simp add: list_all_length)
next
  case (http is_post path body answer server)
  then show ?thesis
    using assms(3) json_rpc_filter_config_wf [of "dm_server s" env read is_post path body]
    by (simp add: daemon_inv_def)
qed (use assms(3) task_inv_notify in \<open>auto simp: daemon_inv_def stop_managers_def list_all_iff\<close>)

interpretation daemon: invariant_system "daemon_step env read ord" "\<lambda>_. hash_order ord" "daemon_inv env"
  by unfold_locales (rule daemon_inv_step)

text \<open>The daemon starts with a well-formed configuration, or not at all.\<close>

lemma launch_daemon_init:
  "launch_daemon env read path net = Inr s \<Longrightarrow> \<exists>rl. s = daemon_init net rl \<and> config_wf (get_config rl)"
  by (auto simp: launch_daemon_def reloadable_new_def get_config_def from_file_wf)

lemma daemon_inv_init: "config_wf (get_config rl) \<Longrightarrow> daemon_inv env (daemon_init net rl)"
  by (simp add: daemon_inv_def daemon_init_def)

section \<open>The rounds of the subsystem\<close>

definition loaded :: "('addr, 'sid) daemon_label list \<Rightarrow> ('addr, 'sid) config list" where
  "loaded ls = List.map_filter (\<lambda>l. case l of Start_Managers config ms \<Rightarrow> Some config | _ \<Rightarrow> None) ls"

definition started :: "('addr, 'sid) daemon_label list \<Rightarrow> ('addr, 'sid) spawned_manager list list" where
  "started ls = List.map_filter (\<lambda>l. case l of Start_Managers config ms \<Rightarrow> Some ms | _ \<Rightarrow> None) ls"

definition stops :: "('addr, 'sid) daemon_label list \<Rightarrow> subsystem_event list" where
  "stops ls = List.map_filter (\<lambda>l. case l of Stop_Managers ev \<Rightarrow> Some ev | _ \<Rightarrow> None) ls"

definition overs :: "('addr, 'sid) daemon_label list \<Rightarrow> bool list" where
  "overs ls = List.map_filter (\<lambda>l. case l of Round_Over b \<Rightarrow> Some b | _ \<Rightarrow> None) ls"

definition rounds_of where
  "rounds_of ls = zip (loaded ls) (zip (stops ls) (overs ls))"

lemmas history_defs = loaded_def started_def stops_def overs_def map_filter_def

lemma history_append [simp]:
  "loaded (ls @ ks) = loaded ls @ loaded ks" "started (ls @ ks) = started ls @ started ks"
  "stops (ls @ ks) = stops ls @ stops ks" "overs (ls @ ks) = overs ls @ overs ks"
  by (simp_all add: history_defs)

lemma history_one [simp]:
  "loaded [l] = (case l of Start_Managers config ms \<Rightarrow> [config] | _ \<Rightarrow> [])"
  "started [l] = (case l of Start_Managers config ms \<Rightarrow> [ms] | _ \<Rightarrow> [])"
  "stops [l] = (case l of Stop_Managers ev \<Rightarrow> [ev] | _ \<Rightarrow> [])"
  "overs [l] = (case l of Round_Over b \<Rightarrow> [b] | _ \<Rightarrow> [])"
  by (simp_all add: history_defs split: daemon_label.split)

lemma history_nil [simp]: "loaded [] = []" "started [] = []" "stops [] = []" "overs [] = []"
  by (simp_all add: history_defs)

lemma subsystem_run_snoc:
  assumes "snd (subsystem_run env ord rounds) = None"
  shows "subsystem_run env ord (rounds @ [(config, ev, p)]) =
    (fst (subsystem_run env ord rounds) @ [managers_for env ord config],
     if p then Some (Inl (Failed ''task panicked'')) else if ends_subsystem ev then Some (Inr ()) else None)"
  using assms
proof (induction rounds)
  case (Cons r rounds)
  obtain c e q where r: "r = (c, e, q)"
    by (cases r)
  with Cons.prems have "\<not> q" "snd (subsystem_run env ord rounds) = None" "\<not> ends_subsystem e"
    by (auto simp: ends_subsystem_def Let_def case_prod_beta split: if_splits subsystem_event.splits sum.splits)
  with Cons.IH r show ?case
    by (simp add: ends_subsystem_def Let_def case_prod_beta)
qed (simp add: ends_subsystem_def Let_def)

fun returned :: "subsystem_phase \<Rightarrow> (agent_error, unit) result option" where
  "returned (Returned r) = Some r"
| "returned _ = None"

text \<open>How far the history is in the current round.\<close>

definition history_inv where
  "history_inv env ord s ls \<longleftrightarrow>
     started ls = map (managers_for env ord) (loaded ls) \<and>
     subsystem_run env ord (rounds_of ls) = (take (length (overs ls)) (started ls), returned (dm_phase s)) \<and>
     (case dm_phase s of
        Watching \<Rightarrow> length (stops ls) = length (overs ls) \<and> length (loaded ls) = Suc (length (overs ls))
      | Stopping is_shutdown \<Rightarrow>
          length (loaded ls) = Suc (length (overs ls)) \<and> length (stops ls) = Suc (length (overs ls)) \<and>
          is_shutdown = ends_subsystem (last (stops ls))
      | _ \<Rightarrow> length (stops ls) = length (overs ls) \<and> length (loaded ls) = length (overs ls))"

lemma rounds_of_open [simp]:
  assumes "length (loaded ls) = length (overs ls)" and "length (stops ls) = length (overs ls)"
  shows "zip (loaded ls @ cs) (zip (stops ls) (overs ls)) = rounds_of ls"
  using assms by (simp add: rounds_of_def zip_append1)

lemma rounds_of_stop [simp]:
  assumes "length (stops ls) = length (overs ls)"
  shows "zip (loaded ls) (zip (stops ls @ evs) (overs ls)) = rounds_of ls"
  using assms by (simp add: rounds_of_def zip_append1)

lemma rounds_of_over:
  assumes "length (loaded ls) = Suc (length (overs ls))" and "length (stops ls) = Suc (length (overs ls))"
  shows "zip (loaded ls) (zip (stops ls) (overs ls @ [b])) = rounds_of ls @ [(last (loaded ls), last (stops ls), b)]"
proof -
  obtain cs c where c: "loaded ls = cs @ [c]"
    using assms(1) by (cases "loaded ls" rule: rev_cases) auto
  obtain es e where e: "stops ls = es @ [e]"
    using assms(2) by (cases "stops ls" rule: rev_cases) auto
  have "length cs = length (overs ls)" "length es = length (overs ls)"
    using assms c e by simp_all
  then show ?thesis
    by (simp add: rounds_of_def c e zip_append1)
qed

lemma history_inv_over:
  assumes "history_inv env ord s ls" and "dm_phase s = Stopping is_shutdown"
    and "dm_phase t = (if b then Returned (Inl (Failed ''task panicked''))
      else if is_shutdown then Returned (Inr ()) else Loading)"
  shows "history_inv env ord t (ls @ [Round_Over b])"
proof -
  have len: "length (loaded ls) = Suc (length (overs ls))" "length (stops ls) = Suc (length (overs ls))"
    and last: "is_shutdown = ends_subsystem (last (stops ls))"
    and started: "started ls = map (managers_for env ord) (loaded ls)"
    and run: "subsystem_run env ord (rounds_of ls) = (take (length (overs ls)) (started ls), None)"
    using assms(1,2) by (simp_all add: history_inv_def)
  have rounds: "rounds_of (ls @ [Round_Over b]) = rounds_of ls @ [(last (loaded ls), last (stops ls), b)]"
    using rounds_of_over [OF len] by (simp add: rounds_of_def)
  have "take (Suc (length (overs ls))) (started ls) =
      take (length (overs ls)) (started ls) @ [managers_for env ord (last (loaded ls))]"
    using len(1) by (cases "loaded ls" rule: rev_cases) (auto simp: started)
  then show ?thesis
    using len last started run assms(3) unfolding history_inv_def rounds
    by (simp add: subsystem_run_snoc)
qed

lemma history_inv_other:
  assumes "history_inv env ord s ls" and "dm_phase t = dm_phase s"
    and "loaded [l] = []" "started [l] = []" "stops [l] = []" "overs [l] = []"
  shows "history_inv env ord t (ls @ [l])"
  using assms(1) unfolding history_inv_def rounds_of_def history_append assms(2-6) append_Nil2 .

lemma history_inv_stop:
  assumes "history_inv env ord s ls" and "dm_phase s = Watching"
    and "dm_phase t = Stopping (ends_subsystem ev)"
  shows "history_inv env ord t (ls @ [Stop_Managers ev])"
  using assms by (simp add: history_inv_def rounds_of_def [of "_ @ _"])

lemma history_inv_step:
  assumes "daemon_step env read ord s l t" and "history_inv env ord s ls"
  shows "history_inv env ord t (ls @ [l])"
  using assms(1)
proof (cases rule: daemon_step.cases)
  case (managers_panicked is_shutdown)
  with assms(2) show ?thesis
    by (auto intro: history_inv_over)
next
  case (managers_over is_shutdown)
  with assms(2) show ?thesis
    by (auto intro: history_inv_over)
next
  case (start_managers config ms)
  with assms(2) show ?thesis
    by (simp add: history_inv_def rounds_of_def [of "_ @ _"])
next
  case subscribe
  with assms(2) show ?thesis
    by (simp add: history_inv_def rounds_of_def)
next
  case shutdown_seen
  then show ?thesis
    by (auto simp: stop_managers_def intro!: history_inv_stop [OF assms(2)])
next
  case (config_seen r taken)
  then show ?thesis
    by (auto simp: stop_managers_def intro!: history_inv_stop [OF assms(2)])
qed (simp_all add: history_inv_other [OF assms(2)])

section \<open>A lost signal\<close>

text \<open>A set of places in the code of a manager that it never leaves by itself.\<close>

definition never_ends where
  "never_ends env P \<longleftrightarrow>
     (\<forall>code \<in> P. code_outcome code = None \<and> (\<forall>net. fst (advance env True code net) \<in> P))"

text \<open>The subsystem has given its signal, and a manager that missed it runs on.\<close>

definition signal_lost where
  "signal_lost P i s \<longleftrightarrow>
     i < length (dm_tasks s) \<and> tk_code (dm_tasks s ! i) \<in> P \<and>
     ((\<exists>is_shutdown. dm_phase s = Stopping is_shutdown) \<or>
      dm_phase s = Returned (Inl (Failed ''task panicked'')))"

lemma signal_lost_step:
  assumes "daemon_step env read ord s l t" and "never_ends env P" and "signal_lost P i s"
  shows "signal_lost P i t \<and> started [l] = []"
  using assms(1)
proof (cases rule: daemon_step.cases)
  case (run_task j task net)
  have "tk_code task = fst (advance env True (tk_code (dm_tasks s ! j)) (ss_net (dm_server s)))"
    using run_task(5) by (auto simp: task_step_def case_prod_beta)
  then show ?thesis
    using run_task(1-3) assms(2,3) by (auto simp: signal_lost_def never_ends_def nth_list_update)
next
  case (wait_over j)
  then show ?thesis
    using assms(3) by (auto simp: signal_lost_def nth_list_update)
next
  case (managers_over is_shutdown)
  moreover have "code_outcome (tk_code (dm_tasks s ! i)) = None" and "dm_tasks s ! i \<in> set (dm_tasks s)"
    using assms(2,3) by (simp_all add: signal_lost_def never_ends_def)
  ultimately show ?thesis
    by blast
qed (use assms(3) in \<open>auto simp: signal_lost_def\<close>)

section \<open>A daemon whose top-down manager keeps submitting\<close>

abbreviation sample_daemon_config :: "(nat, nat list) config" where
  "sample_daemon_config \<equiv>
     \<lparr>co_json_rpc_address = ''0.0.0.0:3030'', co_subnets = [[] \<mapsto> sample_parent, [3] \<mapsto> sample_child]\<rparr>"

type_synonym sample_daemon =
  "(unit, nat, nat list, string \<times> string, chain_head_response \<times> subnet_actor_state \<times> string) daemon"

definition sample_daemon :: sample_daemon where
  "sample_daemon =
     daemon_init \<lparr>net_remote = (), net_sent = []\<rparr>
       \<lparr>rl_path = ''config.toml'', rl_config = sample_daemon_config, rl_notifications = 0\<rparr>"

abbreviation sample_daemon_step where
  "sample_daemon_step \<equiv> daemon_step sample_nodes (\<lambda>_. Inl ''no file'') sorted_list_of_set"

lemma sample_managers:
  "managers_for sample_nodes sorted_list_of_set sample_daemon_config =
     [Bottomup_Manager sample_child sample_parent, Topdown_Manager sample_child sample_parent]"
proof -
  have "sorted_list_of_set (dom (co_subnets sample_daemon_config)) = [[], [3]]"
    by simp
  then show ?thesis
    by (simp add: managers_for_def subnets_to_manage_def sample_child_def sample_parent_def)
qed

text \<open>The chain does not execute the checkpoint, so the inner loop of the manager submits it again.\<close>

definition sample_lagging where
  "sample_lagging = {Topdown_Code sample_child sample_parent (Lagging 10 sample_observation {3} 3 [4])}"

lemma sample_topdown_lagging:
  "\<exists>net'. manage_topdown_checkpoints sample_nodes sample_wait sample_child sample_parent
     (Lagging 10 sample_observation {3} 3 [4], net) = (Lagging 10 sample_observation {3} 3 [4], net')"
  by (simp add: manage_topdown_checkpoints_def topdown_ops_def lagging_step_def topdown_observe_def submit_then_def
      submit_topdown_checkpoint_def sample_observation_def sample_child_def submission_epoch_def i64_range_def
      sample_evaluation GATEWAY_ACTOR_ADDRESS_def push_and_commit_def mpool_push_message_def mpool_push_params_def
      mpool_push_message_new_def to_value_def mpool_response_cid_def sample_pushed_def state_wait_msg_def)

lemma sample_never_ends: "never_ends sample_nodes sample_lagging"
proof -
  have "fst (manage_topdown_checkpoints sample_nodes sample_wait sample_child sample_parent
      (Lagging 10 sample_observation {3} 3 [4], net)) = Lagging 10 sample_observation {3} 3 [4]" for net
    using sample_topdown_lagging [of net] by auto
  then show ?thesis
    by (simp add: never_ends_def sample_lagging_def case_prod_beta)
qed

text \<open>The daemon in its first round, with the bottom-up manager about to start.\<close>

definition sample_round :: "(nat, string \<times> string) phase \<Rightarrow> unit net \<Rightarrow> sample_daemon" where
  "sample_round phase net =
     sample_daemon\<lparr>dm_server := (dm_server sample_daemon)\<lparr>ss_net := net\<rparr>, dm_phase := Watching,
       dm_loaded := Some sample_daemon_config,
       dm_tasks := [\<lparr>tk_code = Bottomup_Code sample_child sample_parent Starting, tk_waiting = False\<rparr>,
                    \<lparr>tk_code = Topdown_Code sample_child sample_parent phase, tk_waiting = False\<rparr>]\<rparr>"

lemma sample_round_net [simp]: "ss_net (dm_server (sample_round phase net)) = net"
  by (simp add: sample_round_def)

lemma sample_first_round:
  "runs sample_daemon_step sample_daemon
     [Subscribe, Start_Managers sample_daemon_config
        [Bottomup_Manager sample_child sample_parent, Topdown_Manager sample_child sample_parent]]
     (sample_round Starting \<lparr>net_remote = (), net_sent = []\<rparr>)"
proof -
  let ?s1 = "sample_daemon\<lparr>dm_phase := Loading\<rparr>"
  have "sample_daemon_step sample_daemon Subscribe ?s1"
    using subscribe [of sample_daemon sample_nodes "\<lambda>_. Inl ''no file''" sorted_list_of_set]
    by (simp add: sample_daemon_def daemon_init_def new_subscriber_def)
  moreover have "sample_daemon_step ?s1 (Start_Managers sample_daemon_config
        [Bottomup_Manager sample_child sample_parent, Topdown_Manager sample_child sample_parent])
     (?s1\<lparr>dm_phase := Watching, dm_loaded := Some sample_daemon_config, dm_tasks := map spawn_manager
        [Bottomup_Manager sample_child sample_parent, Topdown_Manager sample_child sample_parent]\<rparr>)"
    by (rule start_managers) (simp_all only: sample_managers,
        simp_all add: sample_daemon_def daemon_init_def get_config_def)
  then have "sample_daemon_step ?s1 (Start_Managers sample_daemon_config
        [Bottomup_Manager sample_child sample_parent, Topdown_Manager sample_child sample_parent])
     (sample_round Starting \<lparr>net_remote = (), net_sent = []\<rparr>)"
    by (simp add: sample_round_def sample_daemon_def daemon_init_def)
  ultimately show ?thesis
    by (intro runs_Cons [of sample_daemon_step, OF _ runs_one])
qed

lemma sample_topdown_task:
  assumes "\<And>wait. \<exists>net'. manage_topdown_checkpoints sample_nodes wait sample_child sample_parent (phase, net) = (phase', net')"
    and "phase_outcome phase = None" and "phase_outcome phase' = None"
  obtains net' where "manage_topdown_checkpoints sample_nodes sample_wait sample_child sample_parent (phase, net) = (phase', net')"
    and "sample_daemon_step (sample_round phase net) (Task 1) (sample_round phase' net')"
proof -
  obtain net' where eq: "manage_topdown_checkpoints sample_nodes sample_wait sample_child sample_parent (phase, net) = (phase', net')"
    using assms(1) by blast
  obtain net'' where "manage_topdown_checkpoints sample_nodes (\<lambda>w. (False, w)) sample_child sample_parent (phase, net) = (phase', net'')"
    using assms(1) by blast
  with eq assms(2,3) have "sample_daemon_step (sample_round phase net) (Task 1) (sample_round phase' net')"
    using run_task [of 1 "sample_round phase net" sample_nodes _ _ "\<lambda>_. Inl ''no file''" sorted_list_of_set]
    by (simp add: sample_round_def runnable_def task_step_def reaches_wait_def sample_daemon_def daemon_init_def)
  with eq show ?thesis
    by (rule that)
qed

lemma sample_topdown_submits:
  "\<exists>net'. manage_topdown_checkpoints sample_nodes wait sample_child sample_parent
     (Accounts 10 sample_observation {3} [3, 4], net) = (Lagging 10 sample_observation {3} 3 [4], net')"
  using sample_topdown_submit by blast

text \<open>Two steps of the top-down manager later.\<close>

lemma sample_submitting:
  "\<exists>ls net. runs sample_daemon_step sample_daemon ls (sample_round (Accounts 10 sample_observation {3} [3, 4]) net)"
proof -
  let ?net0 = "\<lparr>net_remote = (), net_sent = []\<rparr>"
  obtain net1 where "sample_daemon_step (sample_round Starting ?net0) (Task 1) (sample_round (Checking 10) net1)"
    by (rule sample_topdown_task [OF sample_topdown_start]) simp_all
  moreover obtain net2 where "sample_daemon_step (sample_round (Checking 10) net1) (Task 1)
      (sample_round (Accounts 10 sample_observation {3} [3, 4]) net2)"
    by (rule sample_topdown_task [OF sample_topdown_check]) simp_all
  ultimately show ?thesis
    using runs_snoc [of sample_daemon_step, OF runs_snoc [of sample_daemon_step, OF sample_first_round]] by blast
qed

lemma sample_precision: "token_precision sample_nodes"
  unfolding answering_node_def by (rule sample_agent_precision)

section \<open>Properties\<close>

text \<open>
  What a request of the daemon is accounted for by: a step of a manager whose pair of subnets is to
  be managed in the configuration that the subsystem has loaded, or an HTTP request.
\<close>

definition accounted where
  "accounted env s (l :: ('addr, 'sid) daemon_label) r \<longleftrightarrow>
     (case l of
        Task i \<Rightarrow>
          \<exists>config :: ('addr, 'sid) config. \<exists>code. dm_loaded s = Some config \<and> code = tk_code (dm_tasks s ! i) \<and>
            managed_pair env config (code_pair code) \<and> manager_sends env code (ss_net (dm_server s)) r
      | Http is_post path body answer \<Rightarrow>
          \<exists>req m. is_post \<and> path = JSON_RPC_ENDPOINT \<and> to_json_rpc_request env body = Inr req \<and>
            rq_jsonrpc req = JSON_RPC_VERSION \<and> rq_method req = json_rpc_methods m \<and>
            served env (daemon_config s) m (rq_params req) r
      | _ \<Rightarrow> False)"






text \<open>The same daemon after a reload, when both managers wait.\<close>

definition sample_reloaded :: sample_daemon where
  "sample_reloaded =
     (sample_round (Checking 10) \<lparr>net_remote = (), net_sent = []\<rparr>)
       \<lparr>dm_server := \<lparr>ss_net = \<lparr>net_remote = (), net_sent = []\<rparr>,
          ss_config = \<lparr>rl_path = ''config.toml'', rl_config = sample_daemon_config, rl_notifications = 1\<rparr>\<rparr>,
        dm_tasks := [\<lparr>tk_code = Bottomup_Code sample_child sample_parent (Checking 10), tk_waiting = True\<rparr>,
                     \<lparr>tk_code = Topdown_Code sample_child sample_parent (Checking 10), tk_waiting = True\<rparr>]\<rparr>"


text \<open>
  C9. The signal can be lost: if a manager is running when the subsystem gives the signal to stop, and
  by itself it never ends, then the subsystem never returns successfully and never starts the
  managers of a new configuration again.
\<close>

theorem stop_signal_lost:
  assumes "dm_phase s = Watching" and "i < length (dm_tasks s)" and "runnable (dm_tasks s ! i)"
    and "tk_code (dm_tasks s ! i) \<in> P" and "never_ends env P"
    and "daemon_step env read ord s (Stop_Managers ev) s'" and "runs (daemon_step env read ord) s' ls t"
  shows "started ls = [] \<and> dm_phase t \<noteq> Loading \<and> dm_phase t \<noteq> Returned (Inr ())"
proof -
  have "\<exists>taken. s' = stop_managers ev taken s"
    using assms(6) by (rule daemon_stepE) auto
  then have "signal_lost P i s'"
    using assms(2-4) by (auto simp: signal_lost_def stop_managers_def notify_waiter_def runnable_def)
  with assms(7) have "signal_lost P i t \<and> started ls = []"
  proof (induction rule: runs.induct)
    case (runs_snoc ls t l u)
    then show ?case
      using signal_lost_step [OF runs_snoc(2) assms(5), of i] by simp
  qed simp
  then show ?thesis
    by (auto simp: signal_lost_def)
qed

text \<open>
  The sample daemon reaches such a state: a shutdown is requested while its top-down manager submits
  a checkpoint again and again.
\<close>

theorem stop_signal_lost_witness:
  "\<exists>ls s. runs sample_daemon_step sample_daemon ls s \<and> dm_phase s = Stopping True \<and>
     (\<forall>ks t. runs sample_daemon_step s ks t \<longrightarrow> dm_phase t \<noteq> Returned (Inr ()))"
proof -
  let ?step = sample_daemon_step and ?lagging = "Lagging 10 sample_observation {3} 3 [4]"
  obtain ls net where run: "runs ?step sample_daemon ls (sample_round (Accounts 10 sample_observation {3} [3, 4]) net)"
    using sample_submitting by blast
  obtain net' where submit: "?step (sample_round (Accounts 10 sample_observation {3} [3, 4]) net) (Task 1)
      (sample_round ?lagging net')"
    by (rule sample_topdown_task [OF sample_topdown_submits]) simp_all
  let ?s = "(sample_round ?lagging net')\<lparr>dm_shutdown := True\<rparr>"
  let ?s' = "stop_managers Shutdown_Requested (dm_taken ?s) ?s"
  have stop: "?step ?s (Stop_Managers Shutdown_Requested) ?s'"
    by (rule shutdown_seen) (simp_all add: sample_round_def)
  have "runs ?step sample_daemon (((ls @ [Task 1]) @ [Request_Shutdown]) @ [Stop_Managers Shutdown_Requested]) ?s'"
    by (rule runs_snoc [of ?step, OF runs_snoc [of ?step, OF runs_snoc [of ?step, OF run submit] request_shutdown] stop])
  moreover have "dm_phase t \<noteq> Returned (Inr ())" if "runs ?step ?s' ks t" for ks t
    using stop_signal_lost [OF _ _ _ _ sample_never_ends stop that, of 1]
    by (simp add: sample_round_def runnable_def sample_lagging_def)
  ultimately show ?thesis
    by (intro exI [of _ "((ls @ [Task 1]) @ [Request_Shutdown]) @ [Stop_Managers Shutdown_Requested]"]
        exI [of _ ?s']) (simp add: stop_managers_def ends_subsystem_def)
qed

end
