(* ===== verification/Cli.thy ===== *)
theory Cli
  imports Rpc_Server
begin

text \<open>
  The command line of the agent, \<^verbatim>\<open>src/src/cli/**\<close>: every command but those that start the daemon and
  write a template sends one request to a running agent and reads its answer.

  The commands use two sets of parameters: \<open>http\<close> for the connection to the agent, \<open>env\<close> for parsing.
  The file system is \<open>read\<close>, the environment variable \<^verbatim>\<open>HOME\<close> is \<open>home\<close>. Arguments are the records
  that clap fills in; what a command prints is left out.
\<close>

section \<open>Global arguments\<close>

definition DEFAULT_CONFIG_PATH :: string where
  "DEFAULT_CONFIG_PATH = ''.ipc-agent/config.toml''"

record global_arguments =
  ga_config_path :: "string option"

definition config_path :: "string option \<Rightarrow> global_arguments \<Rightarrow> (agent_error, string) result" where
  "config_path home global =
     (case ga_config_path global of
        Some p \<Rightarrow> Inr p
      | None \<Rightarrow>
          (case home of
             Some h \<Rightarrow> Inr (h @ ''/'' @ DEFAULT_CONFIG_PATH)
           | None \<Rightarrow> Inl (Panicked ''cannot get home'')))"

definition global_config where
  "global_config env read home global = bind_result (config_path home global) (from_file env read)"

definition get_ipc_agent_url where
  "get_ipc_agent_url env read home url global =
     (case url of
        Some u \<Rightarrow> map_err Failed (ae_url env u)
      | None \<Rightarrow>
          bind_result (global_config env read home global) (\<lambda>config.
          map_err Failed (ae_url env (''http://'' @ co_json_rpc_address config @ ''/json_rpc''))))"

text \<open>The template of a configuration, line by line.\<close>

definition DEFAULT_CONFIG_TEMPLATE :: string where
  \<open>DEFAULT_CONFIG_TEMPLATE = concat (map (\<lambda>line. line @ [CHR 0x0A])
     [[],
      ''[server]'',
      ''json_rpc_address = "127.0.0.1:3030"'',
      [],
      ''[[subnets]]'',
      ''id = "/root"'',
      ''gateway_addr = "t064"'',
      ''network_name = "root"'',
      ''jsonrpc_api_http = "http://127.0.0.1:1234/rpc/v1"'',
      ''jsonrpc_api_ws = "wss://example.org/rpc/v0"'',
      ''auth_token = "YOUR TOKEN"'',
      ''accounts = ["t01"]'',
      [],
      ''[[subnets]]'',
      ''id = "/root/t01"'',
      ''gateway_addr = "t064"'',
      ''network_name = "child"'',
      ''jsonrpc_api_http = "http://127.0.0.1:1250/rpc/v1"'',
      ''auth_token = "YOUR TOKEN"'',
      ''accounts = ["t01"]''])\<close>

section \<open>Arguments\<close>

record create_subnet_args =
  cs_ipc_agent_url :: "string option"
  cs_from :: "string option"
  cs_parent :: string
  cs_name :: string
  cs_min_validator_stake :: u64
  cs_min_validators :: u64
  cs_bottomup_check_period :: int
  cs_topdown_check_period :: int

record join_subnet_args =
  js_ipc_agent_url :: "string option"
  js_from :: "string option"
  js_subnet :: string
  js_collateral :: u64
  js_validator_net_addr :: string

record kill_subnet_args =
  ks_ipc_agent_url :: "string option"
  ks_from :: "string option"
  ks_subnet :: string

record leave_subnet_args =
  le_ipc_agent_url :: "string option"
  le_from :: "string option"
  le_subnet :: string

record list_subnets_args =
  ls_ipc_agent_url :: "string option"
  ls_gateway_address :: string
  ls_subnet :: string

record set_validator_net_addr_args =
  na_ipc_agent_url :: "string option"
  na_from :: "string option"
  na_subnet :: string
  na_validator_net_addr :: string

record send_value_args =
  sd_ipc_agent_url :: "string option"
  sd_from :: "string option"
  sd_to :: string
  sd_subnet :: string
  sd_amount :: u64

record fund_args =
  fu_ipc_agent_url :: "string option"
  fu_from :: "string option"
  fu_subnet :: string
  fu_amount :: u64

record release_args =
  re_ipc_agent_url :: "string option"
  re_from :: "string option"
  re_subnet :: string
  re_amount :: u64

record 'cid propagate_args =
  pa_ipc_agent_url :: "string option"
  pa_from :: "string option"
  pa_subnet :: string
  pa_postbox_msg_cid :: 'cid

record 'cid whitelist_propagator_args =
  wp_ipc_agent_url :: "string option"
  wp_from :: "string option"
  wp_subnet :: string
  wp_postbox_msg_cid :: 'cid
  wp_to_add :: "string list"

record list_checkpoints_args =
  lc_ipc_agent_url :: "string option"
  lc_subnet :: string
  lc_from_epoch :: int
  lc_to_epoch :: int

record last_topdown_exec_args =
  lt_ipc_agent_url :: "string option"
  lt_subnet :: string

record reload_config_args =
  rr_path :: "string option"
  rr_ipc_agent_url :: "string option"

record wallet_new_args =
  wn_ipc_agent_url :: "string option"
  wn_subnet :: string
  wn_key_type :: string

record wallet_list_args =
  wl_ipc_agent_url :: "string option"
  wl_subnet :: string

section \<open>Parameters of the requests\<close>

text \<open>\<open>serde_json::to_value\<close> of the parameter structs of the server.\<close>

definition opt_to_json :: "string option \<Rightarrow> json" where
  "opt_to_json s = (case s of None \<Rightarrow> JNull | Some s \<Rightarrow> JStr s)"

definition word_to_json :: "u64 \<Rightarrow> json" where
  "word_to_json n = JNum (uint n)"

definition create_params :: "create_subnet_args \<Rightarrow> json" where
  "create_params a =
     JObj [(''from'', opt_to_json (cs_from a)), (''parent'', JStr (cs_parent a)), (''name'', JStr (cs_name a)),
           (''min_validator_stake'', word_to_json (cs_min_validator_stake a)),
           (''min_validators'', word_to_json (cs_min_validators a)),
           (''bottomup_check_period'', JNum (cs_bottomup_check_period a)),
           (''topdown_check_period'', JNum (cs_topdown_check_period a))]"

definition join_params :: "join_subnet_args \<Rightarrow> json" where
  "join_params a =
     JObj [(''subnet'', JStr (js_subnet a)), (''from'', opt_to_json (js_from a)),
           (''collateral'', word_to_json (js_collateral a)),
           (''validator_net_addr'', JStr (js_validator_net_addr a))]"

definition kill_params :: "kill_subnet_args \<Rightarrow> json" where
  "kill_params a = JObj [(''subnet'', JStr (ks_subnet a)), (''from'', opt_to_json (ks_from a))]"

definition leave_params :: "leave_subnet_args \<Rightarrow> json" where
  "leave_params a = JObj [(''subnet'', JStr (le_subnet a)), (''from'', opt_to_json (le_from a))]"

definition list_subnets_params :: "list_subnets_args \<Rightarrow> json" where
  "list_subnets_params a =
     JObj [(''gateway_address'', JStr (ls_gateway_address a)), (''subnet_id'', JStr (ls_subnet a))]"

definition net_addr_params :: "set_validator_net_addr_args \<Rightarrow> json" where
  "net_addr_params a =
     JObj [(''subnet'', JStr (na_subnet a)), (''from'', opt_to_json (na_from a)),
           (''validator_net_addr'', JStr (na_validator_net_addr a))]"

definition send_value_params :: "send_value_args \<Rightarrow> json" where
  "send_value_params a =
     JObj [(''subnet'', JStr (sd_subnet a)), (''from'', opt_to_json (sd_from a)), (''to'', JStr (sd_to a)),
           (''amount'', word_to_json (sd_amount a))]"

definition fund_params :: "fund_args \<Rightarrow> json" where
  "fund_params a =
     JObj [(''subnet'', JStr (fu_subnet a)), (''from'', opt_to_json (fu_from a)),
           (''amount'', word_to_json (fu_amount a))]"

definition release_params :: "release_args \<Rightarrow> json" where
  "release_params a =
     JObj [(''subnet'', JStr (re_subnet a)), (''from'', opt_to_json (re_from a)),
           (''amount'', word_to_json (re_amount a))]"

definition propagate_params where
  "propagate_params env a =
     JObj [(''subnet'', JStr (pa_subnet a)), (''from'', opt_to_json (pa_from a)),
           (''postbox_msg_cid'', ae_cid_to_json env (pa_postbox_msg_cid a))]"

definition whitelist_params where
  "whitelist_params env a =
     JObj [(''subnet'', JStr (wp_subnet a)), (''from'', opt_to_json (wp_from a)),
           (''postbox_msg_cid'', ae_cid_to_json env (wp_postbox_msg_cid a)),
           (''to_add'', JArr (map JStr (wp_to_add a)))]"

definition list_checkpoints_params :: "list_checkpoints_args \<Rightarrow> json" where
  "list_checkpoints_params a =
     JObj [(''subnet_id'', JStr (lc_subnet a)), (''from_epoch'', JNum (lc_from_epoch a)),
           (''to_epoch'', JNum (lc_to_epoch a))]"

definition last_topdown_params :: "last_topdown_exec_args \<Rightarrow> json" where
  "last_topdown_params a = JObj [(''subnet_id'', JStr (lt_subnet a))]"

definition reload_params :: "reload_config_args \<Rightarrow> json" where
  "reload_params a = JObj [(''path'', opt_to_json (rr_path a))]"

definition wallet_new_params :: "wallet_new_args \<Rightarrow> json" where
  "wallet_new_params a = JObj [(''subnet'', JStr (wn_subnet a)), (''key_type'', JStr (wn_key_type a))]"

definition wallet_list_params :: "wallet_list_args \<Rightarrow> json" where
  "wallet_list_params a = JObj [(''subnet'', JStr (wl_subnet a))]"

section \<open>Commands\<close>

definition agent_request where
  "agent_request http env read home global url de m params =
     bind_op (lift_result (get_ipc_agent_url env read home url global)) (\<lambda>url.
     request http de (client_new url None) (json_rpc_methods m) params)"

definition de_address_response :: "string decoder" where
  "de_address_response j = bind_result (struct_fields [''address''] j) (required ''address'' de_string)"

text \<open>A \<open>HashMap\<close> with strings as keys.\<close>

definition de_string_map :: "'a decoder \<Rightarrow> (string \<times> 'a) list decoder" where
  "de_string_map de j =
     bind_result (fields_of j) (\<lambda>fs.
     bind_result (collect_results (\<lambda>(k, v). bind_result (de v) (\<lambda>v. Inr (k, v))) fs) (\<lambda>kvs.
     Inr (map (\<lambda>k. (k, the (map_of (rev kvs) k))) (remdups (map fst kvs)))))"

record subnet_info_wrapper =
  sw_id :: string
  sw_stake :: string
  sw_circ_supply :: string
  sw_status :: int

definition de_subnet_info_wrapper :: "subnet_info_wrapper decoder" where
  "de_subnet_info_wrapper j =
     bind_result (struct_fields [''id'', ''stake'', ''circ_supply'', ''status''] j) (\<lambda>fs.
     bind_result (required ''id'' de_string fs) (\<lambda>i.
     bind_result (required ''stake'' de_string fs) (\<lambda>stake.
     bind_result (required ''circ_supply'' de_string fs) (\<lambda>supply.
     bind_result (required ''status'' (de_int (- (2 ^ 31)) (2 ^ 31 - 1)) fs) (\<lambda>status.
     Inr \<lparr>sw_id = i, sw_stake = stake, sw_circ_supply = supply, sw_status = status\<rparr>)))))"

definition unwrap_error :: "(string, 'a) result \<Rightarrow> (agent_error, 'a) result" where
  "unwrap_error r = map_err (\<lambda>e. Panicked (''called `Result::unwrap()` on an `Err` value: '' @ e)) r"

definition cli_create_subnet where
  "cli_create_subnet http env read home global a =
     bind_op (agent_request http env read home global (cs_ipc_agent_url a) de_address_response CREATE_SUBNET
       (create_params a)) (\<lambda>_. lift_result (Inr ()))"

definition cli_join_subnet where
  "cli_join_subnet http env read home global a =
     agent_request http env read home global (js_ipc_agent_url a) de_unit JOIN_SUBNET (join_params a)"

definition cli_kill_subnet where
  "cli_kill_subnet http env read home global a =
     agent_request http env read home global (ks_ipc_agent_url a) de_unit KILL_SUBNET (kill_params a)"

definition cli_leave_subnet where
  "cli_leave_subnet http env read home global a =
     agent_request http env read home global (le_ipc_agent_url a) de_unit LEAVE_SUBNET (leave_params a)"

text \<open>The amounts of the listed subnets are parsed to print them.\<close>

definition cli_list_subnets where
  "cli_list_subnets http env read home global a =
     bind_op (agent_request http env read home global (ls_ipc_agent_url a) (de_string_map de_subnet_info_wrapper)
       LIST_CHILD_SUBNETS (list_subnets_params a)) (\<lambda>subnets.
     lift_result (bind_result
       (collect_results (\<lambda>(_, s).
          bind_result (unwrap_error (ae_int_from_str env (sw_stake s))) (\<lambda>_.
          unwrap_error (ae_int_from_str env (sw_circ_supply s)))) subnets)
       (\<lambda>_. Inr ())))"

definition cli_set_validator_net_addr where
  "cli_set_validator_net_addr http env read home global a =
     agent_request http env read home global (na_ipc_agent_url a) de_unit SET_VALIDATOR_NET_ADDR (net_addr_params a)"

definition cli_send_value where
  "cli_send_value http env read home global a =
     agent_request http env read home global (sd_ipc_agent_url a) de_unit SEND_VALUE (send_value_params a)"

definition cli_fund where
  "cli_fund http env read home global a =
     agent_request http env read home global (fu_ipc_agent_url a) de_unit FUND (fund_params a)"

definition cli_release where
  "cli_release http env read home global a =
     agent_request http env read home global (re_ipc_agent_url a) de_unit RELEASE (release_params a)"

definition cli_propagate where
  "cli_propagate http env read home global a =
     agent_request http env read home global (pa_ipc_agent_url a) de_unit PROPAGATE (propagate_params env a)"

definition cli_whitelist_propagator where
  "cli_whitelist_propagator http env read home global a =
     agent_request http env read home global (wp_ipc_agent_url a) de_unit WHITELIST_PROPAGATOR (whitelist_params env a)"

definition cli_list_checkpoints where
  "cli_list_checkpoints http env read home global a =
     bind_op (agent_request http env read home global (lc_ipc_agent_url a) de_value LIST_BOTTOMUP_CHECKPOINTS
       (list_checkpoints_params a)) (\<lambda>checkpoints.
     lift_result (case checkpoints of
        JArr _ \<Rightarrow> Inr ()
      | _ \<Rightarrow> Inl (Panicked ''called `Option::unwrap()` on a `None` value'')))"

definition cli_last_topdown_exec where
  "cli_last_topdown_exec http env read home global a =
     bind_op (agent_request http env read home global (lt_ipc_agent_url a) de_value LAST_TOPDOWN_EXECUTED
       (last_topdown_params a)) (\<lambda>_. lift_result (Inr ()))"

definition cli_reload_config where
  "cli_reload_config http env read home global a =
     agent_request http env read home global (rr_ipc_agent_url a) de_unit RELOAD_CONFIG (reload_params a)"

definition cli_wallet_new where
  "cli_wallet_new http env read home global a =
     bind_op (agent_request http env read home global (wn_ipc_agent_url a) de_address_response RPC_WALLET_NEW
       (wallet_new_params a)) (\<lambda>_. lift_result (Inr ()))"

definition cli_wallet_list where
  "cli_wallet_list http env read home global a =
     bind_op (agent_request http env read home global (wl_ipc_agent_url a) (de_string_map de_string) RPC_WALLET_LIST
       (wallet_list_params a)) (\<lambda>_. lift_result (Inr ()))"

text \<open>
  Writing a template of a configuration, and starting the daemon. The operating system and the
  library that runs the subsystems are parameters.
\<close>

record 'w file_env =
  fe_parent :: "string \<Rightarrow> string option"
  fe_create_dir_all :: "string \<Rightarrow> 'w \<Rightarrow> (string, unit) result \<times> 'w"
  fe_create :: "string \<Rightarrow> 'w \<Rightarrow> (string, unit) result \<times> 'w"
  fe_write_all :: "string \<Rightarrow> string \<Rightarrow> 'w \<Rightarrow> (string, unit) result \<times> 'w"

definition cli_init_config where
  "cli_init_config files home global =
     bind_op (lift_result (config_path home global)) (\<lambda>path.
     bind_op (case fe_parent files path of
                None \<Rightarrow> lift_result (Inr ())
              | Some parent \<Rightarrow> remote_op (fe_create_dir_all files parent)) (\<lambda>_.
     bind_op (remote_op (fe_create files path)) (\<lambda>_.
     remote_op (fe_write_all files path DEFAULT_CONFIG_TEMPLATE))))"

definition cli_launch_daemon where
  "cli_launch_daemon toplevel env read home global =
     bind_op (lift_result (bind_result (config_path home global) (reloadable_new env read))) toplevel"

datatype subnet_commands =
    Subnet_Create create_subnet_args
  | Subnet_List list_subnets_args
  | Subnet_Join join_subnet_args
  | Subnet_Leave leave_subnet_args
  | Subnet_Kill kill_subnet_args
  | Subnet_Send_Value send_value_args
  | Subnet_Set_Validator_Net_Addr set_validator_net_addr_args

datatype 'cid crossmsg_commands =
    Crossmsg_Fund fund_args
  | Crossmsg_Release release_args
  | Crossmsg_Propagate "'cid propagate_args"
  | Crossmsg_Whitelist "'cid whitelist_propagator_args"

datatype wallet_commands = Wallet_New wallet_new_args | Wallet_List wallet_list_args

datatype checkpoint_commands =
    Checkpoint_List_Bottomup list_checkpoints_args
  | Checkpoint_Last_Topdown last_topdown_exec_args

datatype config_commands = Config_Reload reload_config_args | Config_Init

datatype 'cid commands =
    Daemon
  | Config config_commands
  | Subnet subnet_commands
  | Wallet wallet_commands
  | Cross_Msg "'cid crossmsg_commands"
  | Checkpoint checkpoint_commands

fun handle_subnet where
  "handle_subnet http env read home global (Subnet_Create a) = cli_create_subnet http env read home global a"
| "handle_subnet http env read home global (Subnet_List a) = cli_list_subnets http env read home global a"
| "handle_subnet http env read home global (Subnet_Join a) = cli_join_subnet http env read home global a"
| "handle_subnet http env read home global (Subnet_Leave a) = cli_leave_subnet http env read home global a"
| "handle_subnet http env read home global (Subnet_Kill a) = cli_kill_subnet http env read home global a"
| "handle_subnet http env read home global (Subnet_Send_Value a) = cli_send_value http env read home global a"
| "handle_subnet http env read home global (Subnet_Set_Validator_Net_Addr a) =
     cli_set_validator_net_addr http env read home global a"

fun handle_crossmsg where
  "handle_crossmsg http env read home global (Crossmsg_Fund a) = cli_fund http env read home global a"
| "handle_crossmsg http env read home global (Crossmsg_Release a) = cli_release http env read home global a"
| "handle_crossmsg http env read home global (Crossmsg_Propagate a) = cli_propagate http env read home global a"
| "handle_crossmsg http env read home global (Crossmsg_Whitelist a) = cli_whitelist_propagator http env read home global a"

fun handle_wallet where
  "handle_wallet http env read home global (Wallet_New a) = cli_wallet_new http env read home global a"
| "handle_wallet http env read home global (Wallet_List a) = cli_wallet_list http env read home global a"

fun handle_checkpoint where
  "handle_checkpoint http env read home global (Checkpoint_List_Bottomup a) = cli_list_checkpoints http env read home global a"
| "handle_checkpoint http env read home global (Checkpoint_Last_Topdown a) = cli_last_topdown_exec http env read home global a"

fun handle_config where
  "handle_config http files env read home global (Config_Reload a) = cli_reload_config http env read home global a"
| "handle_config http files env read home global Config_Init = cli_init_config files home global"

fun handle_command where
  "handle_command http files toplevel env read home global Daemon = cli_launch_daemon toplevel env read home global"
| "handle_command http files toplevel env read home global (Config c) = handle_config http files env read home global c"
| "handle_command http files toplevel env read home global (Subnet c) = handle_subnet http env read home global c"
| "handle_command http files toplevel env read home global (Cross_Msg c) = handle_crossmsg http env read home global c"
| "handle_command http files toplevel env read home global (Wallet c) = handle_wallet http env read home global c"
| "handle_command http files toplevel env read home global (Checkpoint c) = handle_checkpoint http env read home global c"

definition cli where
  "cli http files toplevel env read home global command net =
     (let (r, net) = handle_command http files toplevel env read home global command net
      in (map_err (in_context ''error processing command'') r, net))"

section \<open>The process\<close>

text \<open>\<open>u8::from_str\<close>: decimal digits with an optional plus sign.\<close>

definition parse_u8 :: "string \<Rightarrow> (string, u8) result" where
  "parse_u8 s =
     (let digits = (case s of c # cs \<Rightarrow> if c = CHR ''+'' then cs else s | [] \<Rightarrow> []);
          n = foldl (\<lambda>n c. 10 * n + (of_char c - 48)) 0 digits
      in if digits = [] \<or> \<not> list_all (\<lambda>c. 48 \<le> (of_char c :: nat) \<and> (of_char c :: nat) \<le> 57) digits
         then Inl ''invalid digit found in string''
         else if n < (256 :: nat) then Inr (of_nat n) else Inl ''number too large to fit in target type'')"

text \<open>
  The main function: the network is chosen by an environment variable, and the exit status of the
  process tells whether the command failed. \<open>network_from\<close> is the numbering of the networks, \<open>run\<close> the
  command line.
\<close>

definition main_process where
  "main_process network_from lotus_network run net =
     (case parse_u8 (case lotus_network of None \<Rightarrow> ''1'' | Some s \<Rightarrow> s) of
        Inl e \<Rightarrow> (Inl (Panicked e), net)
      | Inr raw \<Rightarrow>
          (case network_from raw of
             None \<Rightarrow> (Inl (Panicked ''called `Option::unwrap()` on a `None` value''), net)
           | Some network \<Rightarrow>
               (case run network net of
                  (Inr _, net) \<Rightarrow> (Inr (0 :: nat), net)
                | (Inl (Failed _), net) \<Rightarrow> (Inr 1, net)
                | (Inl (Panicked e), net) \<Rightarrow> (Inl (Panicked e), net))))"

end
