(* ===== verification/Cli_Remote.thy ===== *)
theory Cli_Remote
  imports Cli
begin

text \<open>
  The command line and the agent together: the commands of \<open>Cli\<close> run against the server of
  \<open>Rpc_Server\<close>, which takes the place of the remote side of their requests. The remote side of the
  server's own requests stays a parameter. A command turns out to have the effect of the handler of
  its method, called with the arguments that were typed.
\<close>

section \<open>The server as remote side\<close>

text \<open>What is sent is the text of a JSON value, which the receiver parses.\<close>

definition text_faithful where
  "text_faithful env print \<longleftrightarrow> (\<forall>j. he_parse env (print j) = Inr j)"

text \<open>
  A client sees the text of the answer, whatever its status is, or an error if the connection ends.
  The server listens at one address only.
\<close>

definition agent_post where
  "agent_post env read print url r st =
     (if hr_url r \<noteq> url then (Inl ''connection refused'', st)
      else case json_rpc_filter env read True JSON_RPC_ENDPOINT (print (hr_body r)) st of
             (Json_Reply j, st) \<Rightarrow> (Inr (print j), st)
           | (Text_Reply t _, st) \<Rightarrow> (Inr t, st)
           | (Connection_Aborted, st) \<Rightarrow> (Inl ''connection closed'', st))"

definition agent_http where
  "agent_http env read print url = \<lparr>he_post = agent_post env read print url, he_parse = he_parse env\<rparr>"

text \<open>The request that a command makes, if it is one that makes a request.\<close>

fun command_call where
  "command_call env (Subnet (Subnet_Create a)) = Some (cs_ipc_agent_url a, CREATE_SUBNET, create_params a)"
| "command_call env (Subnet (Subnet_List a)) = Some (ls_ipc_agent_url a, LIST_CHILD_SUBNETS, list_subnets_params a)"
| "command_call env (Subnet (Subnet_Join a)) = Some (js_ipc_agent_url a, JOIN_SUBNET, join_params a)"
| "command_call env (Subnet (Subnet_Leave a)) = Some (le_ipc_agent_url a, LEAVE_SUBNET, leave_params a)"
| "command_call env (Subnet (Subnet_Kill a)) = Some (ks_ipc_agent_url a, KILL_SUBNET, kill_params a)"
| "command_call env (Subnet (Subnet_Send_Value a)) = Some (sd_ipc_agent_url a, SEND_VALUE, send_value_params a)"
| "command_call env (Subnet (Subnet_Set_Validator_Net_Addr a)) =
     Some (na_ipc_agent_url a, SET_VALIDATOR_NET_ADDR, net_addr_params a)"
| "command_call env (Cross_Msg (Crossmsg_Fund a)) = Some (fu_ipc_agent_url a, FUND, fund_params a)"
| "command_call env (Cross_Msg (Crossmsg_Release a)) = Some (re_ipc_agent_url a, RELEASE, release_params a)"
| "command_call env (Cross_Msg (Crossmsg_Propagate a)) = Some (pa_ipc_agent_url a, PROPAGATE, propagate_params env a)"
| "command_call env (Cross_Msg (Crossmsg_Whitelist a)) =
     Some (wp_ipc_agent_url a, WHITELIST_PROPAGATOR, whitelist_params env a)"
| "command_call env (Wallet (Wallet_New a)) = Some (wn_ipc_agent_url a, RPC_WALLET_NEW, wallet_new_params a)"
| "command_call env (Wallet (Wallet_List a)) = Some (wl_ipc_agent_url a, RPC_WALLET_LIST, wallet_list_params a)"
| "command_call env (Checkpoint (Checkpoint_List_Bottomup a)) =
     Some (lc_ipc_agent_url a, LIST_BOTTOMUP_CHECKPOINTS, list_checkpoints_params a)"
| "command_call env (Checkpoint (Checkpoint_Last_Topdown a)) =
     Some (lt_ipc_agent_url a, LAST_TOPDOWN_EXECUTED, last_topdown_params a)"
| "command_call env (Config (Config_Reload a)) = Some (rr_ipc_agent_url a, RELOAD_CONFIG, reload_params a)"
| "command_call env (Config Config_Init) = None"
| "command_call env Daemon = None"

text \<open>The tokens that a command moves, in whole tokens, and the sender that it names.\<close>

fun command_amount :: "'cid commands \<Rightarrow> u64" where
  "command_amount (Subnet (Subnet_Join a)) = js_collateral a"
| "command_amount (Subnet (Subnet_Send_Value a)) = sd_amount a"
| "command_amount (Cross_Msg (Crossmsg_Fund a)) = fu_amount a"
| "command_amount (Cross_Msg (Crossmsg_Release a)) = re_amount a"
| "command_amount _ = 0"

fun command_from :: "'cid commands \<Rightarrow> string option" where
  "command_from (Subnet (Subnet_Create a)) = cs_from a"
| "command_from (Subnet (Subnet_Join a)) = js_from a"
| "command_from (Subnet (Subnet_Leave a)) = le_from a"
| "command_from (Subnet (Subnet_Kill a)) = ks_from a"
| "command_from (Subnet (Subnet_Send_Value a)) = sd_from a"
| "command_from (Subnet (Subnet_Set_Validator_Net_Addr a)) = na_from a"
| "command_from (Cross_Msg (Crossmsg_Fund a)) = fu_from a"
| "command_from (Cross_Msg (Crossmsg_Release a)) = re_from a"
| "command_from (Cross_Msg (Crossmsg_Propagate a)) = pa_from a"
| "command_from (Cross_Msg (Crossmsg_Whitelist a)) = wp_from a"
| "command_from _ = None"

section \<open>One request\<close>

text \<open>Parameters that the client does not leave out.\<close>

definition has_params :: "json \<Rightarrow> bool" where
  "has_params params \<longleftrightarrow> (\<exists>f fs. params = JObj (f # fs))"

lemma build_with_params:
  "has_params params \<Longrightarrow> build_jsonrpc_request meth params =
     Inr (JObj [(''jsonrpc'', JStr ''2.0''), (''id'', JNum 1), (''method'', JStr meth), (''params'', params)])"
  unfolding has_params_def
  by (elim exE) (simp add: build_jsonrpc_request_def DEFAULT_JSON_RPC_VERSION_def DEFAULT_JSON_RPC_ID_def)

lemma server_reads_request:
  assumes "text_faithful env print" and "build_jsonrpc_request meth params = Inr body" and "has_params params"
  shows "to_json_rpc_request env (print body) = Inr \<lparr>rq_id = 1, rq_jsonrpc = ''2.0'', rq_method = meth, rq_params = params\<rparr>"
proof -
  have "he_parse env (print body) =
      Inr (JObj [(''jsonrpc'', JStr ''2.0''), (''id'', JNum 1), (''method'', JStr meth), (''params'', params)])"
    using assms by (simp add: text_faithful_def build_with_params)
  then show ?thesis
    by (simp add: to_json_rpc_request_def de_jsonrpc_request_def required_def de_word_def)
qed

lemma handlers_handle_method:
  "handlers_handle env read (json_rpc_methods m) params st = handler_of env read m params st"
  using handlers_handle_cases [of "json_rpc_methods m" env read params st]
  by (metis json_rpc_methods_inj rangeI)

text \<open>The answer of the server to a request of a client.\<close>

definition remote_answer where
  "remote_answer print r =
     (case r of
        Inr j \<Rightarrow> Inr (print (result_response 1 j))
      | Inl (Failed e) \<Rightarrow> Inr (print (error_response 1 (- 1) e))
      | Inl (Panicked _) \<Rightarrow> Inl ''connection closed'')"

lemma agent_post_request:
  assumes "text_faithful env print" and "build_jsonrpc_request (json_rpc_methods m) params = Inr body" and "has_params params"
  shows "agent_post env read print url \<lparr>hr_url = url, hr_bearer = b, hr_body = body\<rparr> st =
    (remote_answer print (fst (handler_of env read m params st)), snd (handler_of env read m params st))"
  by (simp add: agent_post_def json_rpc_filter_def server_reads_request [OF assms] handle_request_def JSON_RPC_VERSION_def
      handlers_handle_method remote_answer_def case_prod_beta split: sum.split agent_error.split)

lemma de_result_response:
  "de_response de (result_response 1 j) =
     map_sum id (\<lambda>r. \<lparr>jr_id = 1, jr_jsonrpc = ''2.0'', jr_result = r, jr_error = None\<rparr>) (de_option de j)"
  by (cases "de_option de j")
    (simp_all add: de_response_def result_response_def required_def optional_def de_word_def JSON_RPC_VERSION_def)

lemma read_result_response:
  assumes "he_parse env text = Inr (result_response 1 j)"
  shows "read_response env de text = Inr a \<longleftrightarrow> de j = Inr a"
proof -
  have "read_response env de text = Inr a \<longleftrightarrow>
      (\<exists>r. de_option de j = Inr r \<and> (r = Some a \<or> r = None \<and> de JNull = Inr a))"
    using assms
    by (auto simp: read_response_Inr_iff de_result_response response_result_Inr_iff DEFAULT_JSON_RPC_ID_def
        DEFAULT_JSON_RPC_VERSION_def)
  then show ?thesis
    by (auto simp: de_option_Inr_iff split: if_splits)
qed

lemma read_error_response:
  assumes "he_parse env text = Inr (error_response 1 code msg)"
  shows "read_response env de text \<noteq> Inr a"
  using assms
  by (auto simp: read_response_Inr_iff de_response_Inr_iff error_response_def required_Inr_iff optional_Inr_iff
      response_result_Inr_iff)

lemma read_remote_answer:
  assumes "text_faithful env print" and "he_parse http = he_parse env"
  shows "(\<exists>text. remote_answer print r = Inr text \<and> read_response http de text = Inr a) \<longleftrightarrow>
    (\<exists>j. r = Inr j \<and> de j = Inr a)"
proof (cases r)
  case (Inl e)
  moreover have "read_response http de (print (error_response 1 (- 1) msg)) \<noteq> Inr a" for msg
    using assms by (intro read_error_response) (simp add: text_faithful_def)
  ultimately show ?thesis
    by (cases e) (simp_all add: remote_answer_def)
next
  case (Inr j)
  have "read_response http de (print (result_response 1 j)) = Inr a \<longleftrightarrow> de j = Inr a"
    using assms by (intro read_result_response) (simp add: text_faithful_def)
  with Inr show ?thesis
    by (simp add: remote_answer_def)
qed

lemma remote_request:
  assumes "text_faithful env print" and "has_params params"
  shows "fst (request (agent_http env read print url) de (client_new url b) (json_rpc_methods m) params net) = Inr a \<longleftrightarrow>
      (\<exists>j. fst (handler_of env read m params (net_remote net)) = Inr j \<and> de j = Inr a)"
    and "net_remote (snd (request (agent_http env read print url) de (client_new url b) (json_rpc_methods m) params net)) =
      snd (handler_of env read m params (net_remote net))"
proof -
  obtain body where body: "build_jsonrpc_request (json_rpc_methods m) params = Inr body"
    using build_with_params [OF assms(2)] by blast
  note post = agent_post_request [OF assms(1) body assms(2)]
  show "fst (request (agent_http env read print url) de (client_new url b) (json_rpc_methods m) params net) = Inr a \<longleftrightarrow>
      (\<exists>j. fst (handler_of env read m params (net_remote net)) = Inr j \<and> de j = Inr a)"
    using read_remote_answer [OF assms(1), of "agent_http env read print url" "fst (handler_of env read m params (net_remote net))" de a]
    by (auto simp: request_def body bind_op_def lift_result_def post_def client_new_def agent_http_def post split: sum.splits)
  show "net_remote (snd (request (agent_http env read print url) de (client_new url b) (json_rpc_methods m) params net)) =
      snd (handler_of env read m params (net_remote net))"
    by (simp add: request_def body bind_op_def lift_result_def post_def client_new_def agent_http_def post split: sum.split)
qed

lemma refused_request:
  "url' \<noteq> url \<Longrightarrow>
     net_remote (snd (request (agent_http env read print url) de (client_new url' b) meth params net)) = net_remote net"
  by (simp add: request_def bind_op_def lift_result_def post_def client_new_def agent_http_def agent_post_def split: sum.split)

lemma agent_request_remote:
  assumes "text_faithful env print" and "has_params params" and "get_ipc_agent_url env' read' home u global = Inr url"
  shows "fst (agent_request (agent_http env read print url) env' read' home global u de m params net) = Inr a \<longleftrightarrow>
      (\<exists>j. fst (handler_of env read m params (net_remote net)) = Inr j \<and> de j = Inr a)"
    and "net_remote (snd (agent_request (agent_http env read print url) env' read' home global u de m params net)) =
      snd (handler_of env read m params (net_remote net))"
  using remote_request [OF assms(1,2)] assms(3) by (simp_all add: agent_request_def)

lemma agent_request_refused:
  assumes "get_ipc_agent_url env' read' home u global \<noteq> Inr url"
  shows "net_remote (snd (agent_request (agent_http env read print url) env' read' home global u de m params net)) = net_remote net"
proof (cases "get_ipc_agent_url env' read' home u global")
  case (Inr url')
  with assms show ?thesis
    by (simp add: agent_request_def refused_request)
qed (simp add: agent_request_def)

section \<open>What the handlers answer\<close>

text \<open>\<open>returns P m\<close>: if \<open>m\<close> succeeds, its value has \<open>P\<close>.\<close>

definition returns :: "('a \<Rightarrow> bool) \<Rightarrow> ('s, 'e, 'a) op \<Rightarrow> bool" where
  "returns P m \<longleftrightarrow> (\<forall>s a s'. m s = (Inr a, s') \<longrightarrow> P a)"

lemma returns_bind: "(\<And>a. returns P (f a)) \<Longrightarrow> returns P (bind_op m f)"
  by (auto simp: returns_def)

lemma returns_bind_value: "returns Q m \<Longrightarrow> (\<And>a. Q a \<Longrightarrow> returns P (f a)) \<Longrightarrow> returns P (bind_op m f)"
  unfolding returns_def by (metis bind_op_Inr)

lemma returns_lift: "(\<And>a. r = Inr a \<Longrightarrow> P a) \<Longrightarrow> returns P (lift_result r)"
  by (auto simp: returns_def lift_result_def)

lemma returns_pure: "P a \<Longrightarrow> returns P (lift_result (Inr a))"
  by (simp add: returns_def lift_result_def)

lemma returns_answer_unit: "returns (\<lambda>j. j = JNull) (answer_unit op)"
  unfolding answer_unit_def by (intro returns_bind returns_lift) simp

lemma returns_decode:
  "(\<And>a. returns P (f1 a)) \<Longrightarrow> returns P (with_fields m params f1)"
  "(\<And>a. returns P (f2 a)) \<Longrightarrow> returns P (arg k de fs f2)"
  "(\<And>a. returns P (f3 a)) \<Longrightarrow> returns P (opt_arg k de' fs f3)"
  "(\<And>a. returns P (f4 a)) \<Longrightarrow> returns P (with_parent env config sid msg f4)"
  unfolding with_fields_def arg_def opt_arg_def with_parent_def by (simp_all add: returns_bind)

text \<open>The answers that the commands understand.\<close>

fun understood where
  "understood env CREATE_SUBNET j \<longleftrightarrow> (\<exists>s. de_address_response j = Inr s)"
| "understood env RPC_WALLET_NEW j \<longleftrightarrow> (\<exists>s. de_address_response j = Inr s)"
| "understood env LIST_CHILD_SUBNETS j \<longleftrightarrow>
     (\<exists>subnets. de_string_map de_subnet_info_wrapper j = Inr subnets \<and>
        (\<forall>(k, s) \<in> set subnets. (\<exists>n. ae_int_from_str env (sw_stake s) = Inr n) \<and> (\<exists>n. ae_int_from_str env (sw_circ_supply s) = Inr n)))"
| "understood env RPC_WALLET_LIST j \<longleftrightarrow> (\<exists>m. de_string_map de_string j = Inr m)"
| "understood env LIST_BOTTOMUP_CHECKPOINTS j \<longleftrightarrow> (\<exists>js. j = JArr js)"
| "understood env LAST_TOPDOWN_EXECUTED j \<longleftrightarrow> True"
| "understood env m j \<longleftrightarrow> j = JNull"

text \<open>The status of a subnet is written as the \<open>i32\<close> of its representation.\<close>

definition status_is_i32 where
  "status_is_i32 env \<longleftrightarrow> (\<forall>j s. ae_de_status env j = Inr s \<longrightarrow> (\<exists>n. s = JNum n \<and> - (2 ^ 31) \<le> n \<and> n \<le> 2 ^ 31 - 1))"

lemma de_string_map_ok:
  assumes "list_all (\<lambda>(k, j). \<exists>v. de j = Inr v \<and> P v) fs"
  shows "\<exists>kvs. de_string_map de (JObj fs) = Inr kvs \<and> (\<forall>(k, v) \<in> set kvs. P v)"
proof -
  have "\<exists>kvs. collect_results (\<lambda>(k, v). bind_result (de v) (\<lambda>v. Inr (k, v))) fs = Inr kvs \<and> (\<forall>(k, v) \<in> set kvs. P v)"
    using assms
  proof (induction fs)
    case (Cons f fs)
    then obtain k j v kvs where "f = (k, j)" "de j = Inr v" "P v"
      "collect_results (\<lambda>(k, v). bind_result (de v) (\<lambda>v. Inr (k, v))) fs = Inr kvs" "\<forall>(k, v) \<in> set kvs. P v"
      by (cases f) auto
    then show ?case
      by (intro exI [of _ "(k, v) # kvs"]) simp
  qed simp
  then obtain kvs where kvs: "collect_results (\<lambda>(k, v). bind_result (de v) (\<lambda>v. Inr (k, v))) fs = Inr kvs" "\<forall>(k, v) \<in> set kvs. P v"
    by blast
  have "P (the (map_of (rev kvs) k))" if "k \<in> fst ` set kvs" for k
  proof -
    have "map_of (rev kvs) k \<noteq> None"
      using that by (simp add: map_of_eq_None_iff)
    then obtain v where "map_of (rev kvs) k = Some v"
      by blast
    then have "(k, v) \<in> set kvs"
      using map_of_SomeD by fastforce
    with kvs(2) \<open>map_of (rev kvs) k = Some v\<close> show ?thesis
      by auto
  qed
  then show ?thesis
    by (auto simp: de_string_map_def kvs(1))
qed

lemma unit_answers:
  "returns (\<lambda>j. j = JNull) (join_handle env config params)"
  "returns (\<lambda>j. j = JNull) (leave_handle env config params)"
  "returns (\<lambda>j. j = JNull) (kill_handle env config params)"
  "returns (\<lambda>j. j = JNull) (fund_handle env config params)"
  "returns (\<lambda>j. j = JNull) (release_handle env config params)"
  "returns (\<lambda>j. j = JNull) (propagate_handle env config params)"
  "returns (\<lambda>j. j = JNull) (net_addr_handle env config params)"
  "returns (\<lambda>j. j = JNull) (whitelist_handle env config params)"
  "returns (\<lambda>j. j = JNull) (send_value_handle env config params)"
  unfolding join_handle_def leave_handle_def kill_handle_def fund_handle_def release_handle_def propagate_handle_def
    net_addr_handle_def whitelist_handle_def send_value_handle_def
  by (intro returns_decode returns_bind returns_answer_unit)+

lemma de_address_response_address: "de_address_response (JObj [(''address'', JStr s)]) = Inr s"
  by (simp add: de_address_response_def required_def)

lemma value_answers:
  "returns (understood env CREATE_SUBNET) (create_handle env config params)"
  "returns (understood env RPC_WALLET_NEW) (wallet_new_handle env config params)"
  "returns (understood env LIST_BOTTOMUP_CHECKPOINTS) (list_checkpoints_handle env config params)"
  unfolding create_handle_def wallet_new_handle_def list_checkpoints_handle_def
  by (intro returns_decode returns_bind returns_lift, auto simp: de_address_response_address)+

lemma wallet_list_answers:
  "returns (understood env RPC_WALLET_LIST) (wallet_list_handle env config params)"
proof -
  have "\<exists>m. de_string_map de_string (JObj (map (\<lambda>name. (name, JStr (f name))) names)) = Inr m" for f names
    using de_string_map_ok [of de_string "\<lambda>_. True" "map (\<lambda>name. (name, JStr (f name))) names"]
    by (simp add: list_all_iff)
  then show ?thesis
    unfolding wallet_list_handle_def Let_def
    by (intro returns_decode returns_bind returns_lift) auto
qed

lemma de_subnet_info_status:
  "de_subnet_info env j = Inr s \<Longrightarrow> \<exists>j'. ae_de_status env j' = Inr (si_status s)"
  by (auto simp: de_subnet_info_def required_Inr_iff)

lemma returns_request: "returns (\<lambda>a. \<exists>j. de j = Inr a) (request env de cl meth params)"
  by (auto simp: returns_def request_Inr_iff read_response_Inr_iff de_response_Inr_iff optional_Inr_iff
      response_result_Inr_iff)

lemma ran_fold_upd:
  "list_all P xs \<Longrightarrow> \<forall>s \<in> ran m. P s \<Longrightarrow> \<forall>s \<in> ran (fold (\<lambda>s m. m(f s \<mapsto> s)) xs m). P s"
proof (induction xs arbitrary: m)
  case (Cons x xs)
  have a: "ran (m(f x \<mapsto> x)) \<subseteq> insert x (ran m)"
    by (auto simp: ran_def split: if_splits)
  have b: "P x"
    using Cons.prems(1) by simp
  have "\<forall>s \<in> ran (m(f x \<mapsto> x)). P s"
  proof
    fix s assume "s \<in> ran (m(f x \<mapsto> x))"
    with a have "s \<in> insert x (ran m)"
      by (rule subsetD)
    with b Cons.prems(2) show "P s"
      by (elim insertE) simp_all
  qed
  moreover have "list_all P xs"
    using Cons.prems(1) by simp
  ultimately show ?case
    unfolding fold.simps comp_def by (intro Cons.IH)
qed simp

lemma finite_dom_fold_upd: "finite (dom m) \<Longrightarrow> finite (dom (fold (\<lambda>s m. m(f s \<mapsto> s)) xs m))"
  by (induction xs arbitrary: m) simp_all

lemma returns_list_child_subnets:
  "returns (\<lambda>m. (\<forall>s \<in> ran m. \<exists>j. ae_de_status env j = Inr (si_status s)) \<and> finite (dom m)) (list_child_subnets env cl gateway)"
proof -
  let ?ok = "\<lambda>s. \<exists>j. ae_de_status env j = Inr (si_status s)"
  have "returns (\<lambda>r. case r of None \<Rightarrow> True | Some xs \<Rightarrow> list_all ?ok xs)
      (request env (de_option (de_list (de_subnet_info env))) cl meth params)" for meth params
  proof -
    have "list_all ?ok xs" if "collect_results (de_subnet_info env) js = Inr xs" for js xs
      using that by (induction js arbitrary: xs) (auto dest: de_subnet_info_status)
    then have "list_all ?ok xs" if "de_list (de_subnet_info env) j = Inr xs" for j xs
      using that by (cases j) auto
    then show ?thesis
      using returns_request [of "de_option (de_list (de_subnet_info env))" env cl meth params]
      unfolding returns_def by (fastforce simp: de_option_Inr_iff split: option.splits if_splits)
  qed
  then have "returns (list_all ?ok) (ipc_list_child_subnets env cl gateway)"
    unfolding ipc_list_child_subnets_def by (rule returns_bind_value) (auto intro!: returns_lift split: option.splits)
  then show ?thesis
    unfolding list_child_subnets_def
  proof (rule returns_bind_value)
    fix xs assume "list_all ?ok xs"
    then have "\<forall>s \<in> ran (fold (\<lambda>s m. m(si_id s \<mapsto> s)) xs Map.empty). ?ok s"
      by (rule ran_fold_upd) simp
    then show "returns (\<lambda>m. (\<forall>s \<in> ran m. ?ok s) \<and> finite (dom m)) (lift_result (Inr (fold (\<lambda>s m. m(si_id s \<mapsto> s)) xs Map.empty)))"
      using finite_dom_fold_upd [of Map.empty si_id xs] by (intro returns_lift) auto
  qed
qed

lemma subnet_info_understood:
  assumes "codec_roundtrips env" and "status_is_i32 env" and "ae_de_status env j = Inr (si_status si)"
  shows "\<exists>s. de_subnet_info_wrapper (subnet_info_to_json env si) = Inr s \<and>
    (\<exists>n. ae_int_from_str env (sw_stake s) = Inr n) \<and> (\<exists>n. ae_int_from_str env (sw_circ_supply s) = Inr n)"
proof -
  obtain n where "si_status si = JNum n" "- (2 ^ 31) \<le> n" "n \<le> 2 ^ 31 - 1"
    using assms(2,3) unfolding status_is_i32_def by blast
  then show ?thesis
    using assms(1)
    by (simp add: de_subnet_info_wrapper_def subnet_info_to_json_def serialize_subnet_id_to_str_def
        serialize_token_amount_to_atto_def required_def codec_roundtrips_def)
qed

lemma subnet_infos_understood:
  assumes "codec_roundtrips env" and "status_is_i32 env" and "set names = dom m" and "\<forall>s \<in> ran m. \<exists>j. ae_de_status env j = Inr (si_status s)"
  shows "understood env LIST_CHILD_SUBNETS (JObj (map (\<lambda>name. (name, subnet_info_to_json env (the (m name)))) names))"
proof -
  have "\<exists>s. de_subnet_info_wrapper (subnet_info_to_json env (the (m name))) = Inr s \<and>
    (\<exists>n. ae_int_from_str env (sw_stake s) = Inr n) \<and> (\<exists>n. ae_int_from_str env (sw_circ_supply s) = Inr n)"
    if name: "name \<in> set names" for name
  proof -
    have "the (m name) \<in> ran m"
      using name assms(3) by (auto simp: ran_def)
    then obtain j where "ae_de_status env j = Inr (si_status (the (m name)))"
      using assms(4) by blast
    then show ?thesis
      by (rule subnet_info_understood [OF assms(1,2)])
  qed
  then have "list_all (\<lambda>(name, j). \<exists>s. de_subnet_info_wrapper j = Inr s \<and>
      (\<exists>n. ae_int_from_str env (sw_stake s) = Inr n) \<and> (\<exists>n. ae_int_from_str env (sw_circ_supply s) = Inr n))
      (map (\<lambda>name. (name, subnet_info_to_json env (the (m name)))) names)"
    by (simp add: list_all_iff)
  from de_string_map_ok [OF this] show ?thesis
    by simp
qed

lemma list_subnets_answers:
  assumes "codec_roundtrips env" and "status_is_i32 env" and "hash_order (ae_string_order env)" and "hash_order (ae_sid_order env)"
  shows "returns (understood env LIST_CHILD_SUBNETS) (list_subnets_handle env config params)"
proof -
  let ?by_name = "\<lambda>m. map_of (rev (map (\<lambda>k. (ae_sid_to_string env k, the (m k))) (ae_sid_order env (dom m))))"
  have "understood env LIST_CHILD_SUBNETS (JObj (map (\<lambda>name. (name, subnet_info_to_json env (the (?by_name m name))))
      (ae_string_order env (dom (?by_name m)))))"
    if m: "(\<forall>s \<in> ran m. \<exists>j. ae_de_status env j = Inr (si_status s)) \<and> finite (dom m)" for m
  proof (rule subnet_infos_understood [OF assms(1,2)])
    show "set (ae_string_order env (dom (?by_name m))) = dom (?by_name m)"
      by (rule hash_order_set [OF assms(3)]) (rule finite_dom_map_of)
    have "ran (?by_name m) \<subseteq> ran m"
    proof
      fix s assume "s \<in> ran (?by_name m)"
      then obtain name where "(name, s) \<in> set (rev (map (\<lambda>k. (ae_sid_to_string env k, the (m k))) (ae_sid_order env (dom m))))"
        unfolding ran_def by (blast dest: map_of_SomeD)
      then obtain k where "k \<in> dom m" "s = the (m k)"
        using m by (auto simp: hash_order_set [OF assms(4)])
      then show "s \<in> ran m"
        by (auto simp: ran_def)
    qed
    with m show "\<forall>s \<in> ran (?by_name m). \<exists>j. ae_de_status env j = Inr (si_status s)"
      by blast
  qed
  then show ?thesis
    unfolding list_subnets_handle_def Let_def
    by (intro returns_bind_value [OF returns_list_child_subnets] returns_decode returns_bind returns_pure)
qed

text \<open>The laws of the libraries that the answers rely on.\<close>

definition answer_laws where
  "answer_laws env \<longleftrightarrow>
     codec_roundtrips env \<and> status_is_i32 env \<and> hash_order (ae_string_order env) \<and> hash_order (ae_sid_order env)"

lemma on_net_returns:
  "returns P (handle (get_config (ss_config st)) params) \<Longrightarrow> fst (on_net handle params st) = Inr j \<Longrightarrow> P j"
  by (auto simp: on_net_def returns_def case_prod_beta prod_eq_iff)

lemma handler_of_understood:
  assumes "answer_laws env" and "m \<noteq> QUERY_VALIDATOR_SET" and "fst (handler_of env read m params st) = Inr j"
  shows "understood env m j"
proof (cases m)
  case RELOAD_CONFIG
  with assms(3) show ?thesis
    by (auto simp: reload_handle_def case_prod_beta split: sum.splits)
next
  case LIST_CHILD_SUBNETS
  have "returns (understood env LIST_CHILD_SUBNETS) (list_subnets_handle env config params)" for config
    using assms(1) by (intro list_subnets_answers) (simp_all add: answer_laws_def)
  with LIST_CHILD_SUBNETS assms(3) show ?thesis
    using on_net_returns by fastforce
next
  case LAST_TOPDOWN_EXECUTED
  then show ?thesis
    by simp
next
  case CREATE_SUBNET
  with assms(3) show ?thesis
    by (auto simp del: understood.simps intro: on_net_returns [OF value_answers(1)])
next
  case RPC_WALLET_NEW
  with assms(3) show ?thesis
    by (auto simp del: understood.simps intro: on_net_returns [OF value_answers(2)])
next
  case LIST_BOTTOMUP_CHECKPOINTS
  with assms(3) show ?thesis
    by (auto simp del: understood.simps intro: on_net_returns [OF value_answers(3)])
next
  case RPC_WALLET_LIST
  with assms(3) show ?thesis
    by (auto simp del: understood.simps intro: on_net_returns [OF wallet_list_answers])
qed (use assms in \<open>auto dest: on_net_returns [OF unit_answers(1)] on_net_returns [OF unit_answers(2)]
    on_net_returns [OF unit_answers(3)] on_net_returns [OF unit_answers(4)] on_net_returns [OF unit_answers(5)]
    on_net_returns [OF unit_answers(6)] on_net_returns [OF unit_answers(7)] on_net_returns [OF unit_answers(8)]
    on_net_returns [OF unit_answers(9)]\<close>)

section \<open>Commands\<close>

lemma has_params_commands [simp]:
  "has_params (create_params a1)" "has_params (join_params a2)" "has_params (kill_params a3)" "has_params (leave_params a4)"
  "has_params (list_subnets_params a5)" "has_params (net_addr_params a6)" "has_params (send_value_params a7)"
  "has_params (fund_params a8)" "has_params (release_params a9)" "has_params (propagate_params env b1)"
  "has_params (whitelist_params env b2)" "has_params (list_checkpoints_params b3)" "has_params (last_topdown_params b4)"
  "has_params (reload_params b5)" "has_params (wallet_new_params b6)" "has_params (wallet_list_params b7)"
  by (simp_all add: has_params_def create_params_def join_params_def kill_params_def leave_params_def list_subnets_params_def
      net_addr_params_def send_value_params_def fund_params_def release_params_def propagate_params_def whitelist_params_def
      list_checkpoints_params_def last_topdown_params_def reload_params_def wallet_new_params_def wallet_list_params_def)

lemma command_call_params: "command_call env command = Some (u, m, params) \<Longrightarrow> has_params params \<and> m \<noteq> QUERY_VALIDATOR_SET"
  by (cases "(env, command)" rule: command_call.cases) auto

lemma bind_lift_fst:
  "fst (bind_op m (\<lambda>a. lift_result (g a)) s) = Inr b \<longleftrightarrow> (\<exists>a. fst (m s) = Inr a \<and> g a = Inr b)"
  by (auto simp: bind_op_def lift_result_def split: prod.splits sum.splits)

lemma bind_lift_snd: "snd (bind_op m (\<lambda>a. lift_result (g a)) s) = snd (m s)"
  by (auto simp: bind_op_def lift_result_def split: prod.splits sum.splits)

lemmas cli_commands = cli_create_subnet_def cli_join_subnet_def cli_kill_subnet_def cli_leave_subnet_def cli_list_subnets_def
  cli_set_validator_net_addr_def cli_send_value_def cli_fund_def cli_release_def cli_propagate_def
  cli_whitelist_propagator_def cli_list_checkpoints_def cli_last_topdown_exec_def cli_reload_config_def
  cli_wallet_new_def cli_wallet_list_def

lemma de_unit_Inr: "de_unit j = Inr u \<longleftrightarrow> j = JNull"
  by (cases j) simp_all

lemma collect_units:
  "(\<exists>ys. collect_results f xs = Inr ys) \<longleftrightarrow> (\<forall>x \<in> set xs. \<exists>y. f x = Inr y)"
  by (induction xs) auto

lemma case_array_Inr: "(case j of JArr _ \<Rightarrow> Inr () | _ \<Rightarrow> Inl e) = Inr () \<longleftrightarrow> (\<exists>js. j = JArr js)"
  by (cases j) simp_all

lemma unwrap_error_Inr: "unwrap_error r = Inr a \<longleftrightarrow> r = Inr a"
  by (simp add: unwrap_error_def)

lemma amounts_parsed:
  "(\<exists>ys. collect_results (\<lambda>(_, s). bind_result (unwrap_error (parse (sw_stake s))) (\<lambda>_.
      unwrap_error (parse (sw_circ_supply s)))) subnets = Inr ys) \<longleftrightarrow>
   (\<forall>(k, s) \<in> set subnets. (\<exists>n. parse (sw_stake s) = Inr n) \<and> (\<exists>n. parse (sw_circ_supply s) = Inr n))"
  unfolding collect_units by (simp add: case_prod_beta unwrap_error_Inr)

lemma command_result:
  assumes "text_faithful env print" and "command_call env' command = Some (u, m, params)"
    and "get_ipc_agent_url env' read' home u global = Inr url" and "ae_int_from_str env' = ae_int_from_str env"
  shows "fst (handle_command (agent_http env read print url) files toplevel env' read' home global command net) = Inr () \<longleftrightarrow>
    (\<exists>j. fst (handler_of env read m params (net_remote net)) = Inr j \<and> understood env m j)"
  using assms(2,3)
  apply (cases "(env', command)" rule: command_call.cases; clarsimp simp del: understood.simps handler_of.simps)
  apply (simp_all add: cli_commands bind_lift_fst agent_request_remote(1) [OF assms(1)] de_unit_Inr case_array_Inr
      amounts_parsed assms(4) del: handler_of.simps)
  apply blast+
  done

lemma command_effect_at:
  assumes "text_faithful env print" and "command_call env' command = Some (u, m, params)"
    and "get_ipc_agent_url env' read' home u global = Inr url"
  shows "net_remote (snd (handle_command (agent_http env read print url) files toplevel env' read' home global command net)) =
      snd (handler_of env read m params (net_remote net))"
  using assms(2,3)
  by (cases "(env', command)" rule: command_call.cases; clarsimp simp del: handler_of.simps)
    (simp_all add: cli_commands bind_lift_snd agent_request_remote(2) [OF assms(1)] del: handler_of.simps)

lemma command_refused:
  assumes "command_call env' command = Some (u, m, params)" and "get_ipc_agent_url env' read' home u global \<noteq> Inr url"
  shows "net_remote (snd (handle_command (agent_http env read print url) files toplevel env' read' home global command net)) =
      net_remote net"
  using assms
  by (cases "(env', command)" rule: command_call.cases; clarsimp)
    (simp_all add: cli_commands bind_lift_snd agent_request_refused)

lemma command_effect:
  assumes "text_faithful env print" and "command_call env' command = Some (u, m, params)"
  shows "net_remote (snd (handle_command (agent_http env read print url) files toplevel env' read' home global command net)) \<in>
      {net_remote net, snd (handler_of env read m params (net_remote net))}"
  using command_effect_at [OF assms] command_refused [OF assms(2)] by blast

lemma cli_fst_snd:
  "fst (cli http files toplevel env read home global command net) =
     map_err (in_context ''error processing command'') (fst (handle_command http files toplevel env read home global command net))"
  "snd (cli http files toplevel env read home global command net) =
     snd (handle_command http files toplevel env read home global command net)"
  by (simp_all add: cli_def case_prod_beta)

section \<open>What a command spends\<close>

lemma command_spends:
  assumes "command_call env command = Some (u, m, JObj fs)" and "spends m fs value"
  shows "value = uint (command_amount command) * 10 ^ 18"
  using assms
  by (cases "(env, command)" rule: command_call.cases)
    (auto simp: spends_def amount_field_def create_params_def join_params_def kill_params_def leave_params_def list_subnets_params_def
      net_addr_params_def send_value_params_def fund_params_def release_params_def propagate_params_def whitelist_params_def
      list_checkpoints_params_def last_topdown_params_def reload_params_def wallet_new_params_def wallet_list_params_def word_to_json_def)

lemma command_sender:
  assumes "command_call env command = Some (u, m, JObj fs)" and "sender_ok env' subnet fs a"
  shows "case command_from command of Some s \<Rightarrow> ae_addr_from_str env' s = Inr a | None \<Rightarrow> \<exists>as. sn_accounts subnet = a # as"
  using assms
  by (cases "(env, command)" rule: command_call.cases)
    (auto simp: sender_ok_def create_params_def join_params_def kill_params_def leave_params_def list_subnets_params_def
      net_addr_params_def send_value_params_def fund_params_def release_params_def propagate_params_def whitelist_params_def
      list_checkpoints_params_def last_topdown_params_def reload_params_def wallet_new_params_def wallet_list_params_def
      opt_to_json_def split: option.splits)

text \<open>A handler pushes at most one message.\<close>

lemma pushes_upto_decode:
  "(\<And>a. pushes_upto 1 (f1 a)) \<Longrightarrow> pushes_upto 1 (with_fields m params f1)"
  "(\<And>a. pushes_upto 1 (f2 a)) \<Longrightarrow> pushes_upto 1 (arg k de fs f2)"
  "(\<And>a. pushes_upto 1 (f3 a)) \<Longrightarrow> pushes_upto 1 (opt_arg k de' fs f3)"
  "(\<And>a. pushes_upto 1 (f4 a)) \<Longrightarrow> pushes_upto 1 (with_parent env config sid msg f4)"
  "(\<And>a. pushes_upto 1 (f5 a)) \<Longrightarrow> pushes_upto 1 (bind_op (find_subnet config sid msg) f5)"
  "(\<And>a. pushes_upto 1 (f6 a)) \<Longrightarrow> pushes_upto 1 (bind_op (check_subnet subnet) f6)"
  "(\<And>a. pushes_upto 1 (f7 a)) \<Longrightarrow> pushes_upto 1 (bind_op (parse_from env subnet from) f7)"
  "(\<And>a. pushes_upto 1 (f8 a)) \<Longrightarrow> pushes_upto 1 (bind_op (parse_subnet env s) f8)"
  "(\<And>a. pushes_upto 1 (f9 a)) \<Longrightarrow> pushes_upto 1 (bind_op (parse_addr env s) f9)"
  "(\<And>a. pushes_upto 1 (f10 a)) \<Longrightarrow> pushes_upto 1 (bind_op (lift_result r) f10)"
  unfolding with_fields_def arg_def opt_arg_def with_parent_def find_subnet_def check_subnet_def parse_from_def
    parse_subnet_def parse_addr_def
  by (intro pushes_upto_then pushes_upto_lift pushes_upto_pure; simp)+

lemmas pushes_upto_operations =
  pushes_upto_manager_apply [where call = "Create_Subnet sender cp" for sender cp, unfolded manager_apply.simps]
  pushes_upto_manager_apply [where call = "Join_Subnet sid sender v a" for sid sender v a, unfolded manager_apply.simps]
  pushes_upto_manager_apply [where call = "Leave_Subnet sid sender" for sid sender, unfolded manager_apply.simps]
  pushes_upto_manager_apply [where call = "Kill_Subnet sid sender" for sid sender, unfolded manager_apply.simps]
  pushes_upto_manager_apply [where call = "Fund_Subnet sid g sender v" for sid g sender v, unfolded manager_apply.simps]
  pushes_upto_manager_apply [where call = "Release_Subnet sid g sender v" for sid g sender v, unfolded manager_apply.simps]
  pushes_upto_manager_apply [where call = "Propagate_Msg sid g sender c" for sid g sender c, unfolded manager_apply.simps]
  pushes_upto_manager_apply [where call = "Set_Net_Addr sid sender a" for sid sender a, unfolded manager_apply.simps]
  pushes_upto_manager_apply [where call = "Whitelist sid g c sender l" for sid g c sender l, unfolded manager_apply.simps]
  pushes_upto_manager_apply [where call = "Send_Value sender t v" for sender t v, unfolded manager_apply.simps]

lemma pushes_upto_bind_lift [simp]: "pushes_upto n (bind_op m (\<lambda>a. lift_result (g a))) \<longleftrightarrow> pushes_upto n m"
  by (simp add: pushes_upto_def bind_lift_snd)

lemma pushes_upto_answer_unit: "pushes_upto 1 op \<Longrightarrow> pushes_upto 1 (answer_unit op)"
  by (simp add: answer_unit_def)

lemma pushes_upto_create: "pushes_upto 1 (bind_op (create_subnet env cl from cp) (\<lambda>a. lift_result (g a)))"
  using pushes_upto_operations(1) by simp

lemma pushes_upto_wallet_new: "pushes_upto 1 (bind_op (manager_wallet_new env cl key_type) (\<lambda>a. lift_result (g a)))"
  using pushes_upto_request by (simp add: manager_wallet_new_def wallet_new_def)

lemma pushes_upto_handlers:
  "pushes_upto 1 (create_handle env config params)" "pushes_upto 1 (join_handle env config params)"
  "pushes_upto 1 (leave_handle env config params)" "pushes_upto 1 (kill_handle env config params)"
  "pushes_upto 1 (fund_handle env config params)" "pushes_upto 1 (release_handle env config params)"
  "pushes_upto 1 (propagate_handle env config params)" "pushes_upto 1 (net_addr_handle env config params)"
  "pushes_upto 1 (whitelist_handle env config params)" "pushes_upto 1 (send_value_handle env config params)"
  "pushes_upto 1 (wallet_new_handle env config params)"
  unfolding create_handle_def join_handle_def leave_handle_def kill_handle_def fund_handle_def release_handle_def
    propagate_handle_def net_addr_handle_def whitelist_handle_def send_value_handle_def wallet_new_handle_def
  by (intro pushes_upto_decode pushes_upto_answer_unit pushes_upto_operations(2-) pushes_upto_create pushes_upto_wallet_new)+

lemma on_net_pushes:
  "pushes_upto 1 (handle (get_config (ss_config st)) params) \<Longrightarrow>
     push_count (ss_net (snd (on_net handle params st))) \<le> push_count (ss_net st) + 1"
  by (simp add: on_net_def pushes_upto_def case_prod_beta)

lemma read_method_pushes:
  assumes "token_precision env" and "read_method m"
  shows "push_count (ss_net (snd (handler_of env read m params st))) \<le> push_count (ss_net st) + 1"
proof -
  obtain new where new: "net_sent (ss_net (snd (handler_of env read m params st))) = net_sent (ss_net st) @ new"
    "list_all (served env (get_config (ss_config st)) m params) new"
    using handler_of_sends [OF assms(1)] by blast
  have "\<not> is_push r" if "served env config m params r" for config r
    using that assms(2) read_only_not_push unfolding served_def by blast
  with new(2) have "filter is_push new = []"
    by (auto simp: filter_empty_conv list_all_iff)
  with new(1) show ?thesis
    by (simp add: push_count_def)
qed

lemma handler_of_pushes:
  assumes "token_precision env"
  shows "push_count (ss_net (snd (handler_of env read m params st))) \<le> push_count (ss_net st) + 1"
proof (cases "read_method m")
  case True
  with assms show ?thesis
    by (rule read_method_pushes)
next
  case False
  show ?thesis
    by (cases m) (use False in \<open>simp_all add: read_method_def reload_handle_net on_net_pushes [simplified] pushes_upto_handlers [simplified]\<close>)
qed

section \<open>An instance of the texts\<close>

text \<open>
  A text of a JSON value is a program for a stack machine, with two characters for each instruction:
  an operation and its argument.
\<close>

definition string_text :: "string \<Rightarrow> string" where
  "string_text s = ''s '' @ concat (map (\<lambda>c. [CHR ''c'', c]) s)"

definition int_text :: "int \<Rightarrow> string" where
  "int_text n = ''z '' @ concat (replicate (nat \<bar>n\<bar>) ''+ '') @ (if n < 0 then ''- '' else [])"

primrec json_text :: "json \<Rightarrow> string" where
  "json_text JNull = ''n ''"
| "json_text (JBool b) = (if b then ''t '' else ''b '')"
| "json_text (JNum n) = int_text n"
| "json_text (JFrac s) = string_text s @ ''f ''"
| "json_text (JStr s) = string_text s"
| "json_text (JArr js) = ''[ '' @ concat (map (\<lambda>t. t @ '', '') (map json_text js))"
| "json_text (JObj fs) = ''{ '' @ concat (map (\<lambda>(k, t). string_text k @ t @ '': '') (map (map_prod (\<lambda>k. k) json_text) fs))"

definition text_step :: "char \<Rightarrow> char \<Rightarrow> json list \<Rightarrow> json list" where
  "text_step c x st =
     (if c = CHR ''n'' then JNull # st
      else if c = CHR ''t'' then JBool True # st
      else if c = CHR ''b'' then JBool False # st
      else if c = CHR ''z'' then JNum 0 # st
      else if c = CHR ''s'' then JStr [] # st
      else if c = CHR ''['' then JArr [] # st
      else if c = CHR ''{'' then JObj [] # st
      else if c = CHR ''+'' then (case st of JNum n # st \<Rightarrow> JNum (n + 1) # st | _ \<Rightarrow> st)
      else if c = CHR ''-'' then (case st of JNum n # st \<Rightarrow> JNum (- n) # st | _ \<Rightarrow> st)
      else if c = CHR ''c'' then (case st of JStr s # st \<Rightarrow> JStr (s @ [x]) # st | _ \<Rightarrow> st)
      else if c = CHR ''f'' then (case st of JStr s # st \<Rightarrow> JFrac s # st | _ \<Rightarrow> st)
      else if c = CHR '','' then (case st of v # JArr vs # st \<Rightarrow> JArr (vs @ [v]) # st | _ \<Rightarrow> st)
      else (case st of v # JStr k # JObj fs # st \<Rightarrow> JObj (fs @ [(k, v)]) # st | _ \<Rightarrow> st))"

fun text_run :: "string \<Rightarrow> json list \<Rightarrow> json list" where
  "text_run (c # x # t) st = text_run t (text_step c x st)"
| "text_run _ st = st"

definition text_parse :: "string \<Rightarrow> json" where
  "text_parse t = (case text_run t [] of j # _ \<Rightarrow> j | [] \<Rightarrow> JNull)"

lemma run_string: "text_run (string_text s @ t) st = text_run t (JStr s # st)"
proof -
  have "text_run (concat (map (\<lambda>c. [CHR ''c'', c]) s) @ t) (JStr r # st) = text_run t (JStr (r @ s) # st)" for r
    by (induction s arbitrary: r) (simp_all add: text_step_def)
  then show ?thesis
    by (simp add: string_text_def text_step_def)
qed

lemma run_int: "text_run (int_text n @ t) st = text_run t (JNum n # st)"
proof -
  have "text_run (concat (replicate k ''+ '') @ t) (JNum m # st) = text_run t (JNum (m + int k) # st)" for k m t
    by (induction k arbitrary: m) (simp_all add: text_step_def algebra_simps)
  then show ?thesis
    by (simp add: int_text_def text_step_def)
qed

lemma run_json: "text_run (json_text j @ t) st = text_run t (j # st)"
proof (induction j arbitrary: t st)
  case (JArr js)
  have "text_run (concat (map (\<lambda>t. t @ '', '') (map json_text js)) @ t) (JArr vs # st) = text_run t (JArr (vs @ js) # st)" for vs
    using JArr by (induction js arbitrary: vs) (simp_all add: text_step_def)
  then show ?case
    by (simp add: text_step_def)
next
  case (JObj fs)
  have "text_run (concat (map (\<lambda>(k, t). string_text k @ t @ '': '') (map (map_prod (\<lambda>k. k) json_text) fs)) @ t) (JObj gs # st) =
      text_run t (JObj (gs @ fs) # st)" for gs
    using JObj
  proof (induction fs arbitrary: gs)
    case (Cons f fs)
    obtain k v where f: "f = (k, v)"
      by fastforce
    have "text_run (json_text v @ u) st' = text_run u (v # st')" for u st'
      using Cons.prems [of f v] f by simp
    moreover have "text_run (concat (map (\<lambda>(k, t). string_text k @ t @ '': '') (map (map_prod (\<lambda>k. k) json_text) fs)) @ t) (JObj gs' # st) =
        text_run t (JObj (gs' @ fs) # st)" for gs'
      by (intro Cons.IH Cons.prems) (assumption | rule list.set_intros(2))+
    ultimately show ?case
      using f by (simp add: text_step_def run_string)
  qed simp
  then show ?case
    by (simp add: text_step_def)
qed (simp_all add: run_string run_int text_step_def)

lemma text_parse_json_text [simp]: "text_parse (json_text j) = j"
  using run_json [of j "[]" "[]"] by (simp add: text_parse_def)

lemma sample_text_faithful: "text_faithful (sample_agent_with send text_parse) json_text"
  by (simp add: text_faithful_def sample_agent_with_def)

lemma hash_order_sorted: "hash_order sorted_list_of_set"
  by (simp add: hash_order_def)

lemma sample_answer_laws: "answer_laws (sample_agent_with send parse)"
  unfolding answer_laws_def
proof (intro conjI)
  show "status_is_i32 (sample_agent_with send parse)"
    by (auto simp: status_is_i32_def sample_agent_with_def)
qed (simp_all add: sample_agent_roundtrips, simp_all add: sample_agent_with_def hash_order_sorted)

abbreviation sample_cli_env :: "(string list, string, nat, nat list, string) agent_env" where
  "sample_cli_env \<equiv> sample_agent text_parse"

abbreviation no_files :: "string \<Rightarrow> (string, string) result" where
  "no_files \<equiv> \<lambda>_. Inl ''no file''"

definition sample_files :: "'w file_env" where
  "sample_files =
     \<lparr>fe_parent = (\<lambda>_. None), fe_create_dir_all = (\<lambda>_ w. (Inr (), w)), fe_create = (\<lambda>_ w. (Inr (), w)),
      fe_write_all = (\<lambda>_ _ w. (Inr (), w))\<rparr>"

abbreviation sample_cli where
  "sample_cli command st \<equiv>
     cli (agent_http sample_cli_env no_files json_text ''url'') sample_files (\<lambda>_. lift_result (Inr ())) sample_cli_env no_files None
       \<lparr>ga_config_path = None\<rparr> command \<lparr>net_remote = st, net_sent = []\<rparr>"

text \<open>A node that answers the next requests with the given values.\<close>

definition sample_agent_state :: "json list \<Rightarrow> (string list, (nat, nat list) config) server_state" where
  "sample_agent_state answers =
     sample_server\<lparr>ss_net := \<lparr>net_remote = map (\<lambda>j. json_text (reply j)) answers, net_sent = []\<rparr>\<rparr>"

lemma sample_agent_url:
  "get_ipc_agent_url (sample_agent_with send parse) no_files home (Some u) global = Inr u"
  by (simp add: get_ipc_agent_url_def sample_agent_with_def)

section \<open>Properties\<close>



text \<open>
  C6. A command spends what was typed and nothing else. Whatever the nodes answer, a command makes the
  agent push at most one message; its value is the typed amount of whole tokens for the commands that
  move tokens and zero for all others, its sender is the typed address, or the first account of the
  subnet if none was typed, and it goes to the node of a configured subnet.
\<close>

theorem command_spends_as_typed:
  fixes env :: "('w, 'cid, 'addr, 'sid, 'ipc, 'x) agent_env_scheme"
  assumes "token_precision env" and "text_faithful env print" and "command_call env command = Some call"
  shows "\<exists>new. net_sent (ss_net (net_remote (snd (cli (agent_http env read print url) files toplevel env cli_read home global command net)))) =
      net_sent (ss_net (net_remote net)) @ new \<and>
    length (filter is_push new) \<le> 1 \<and>
    list_all (\<lambda>r. is_push r \<longrightarrow> (\<exists>subnet \<in> ran (co_subnets (get_config (ss_config (net_remote net)))).
      \<exists>msg :: ('cid, 'addr) mpool_push_message. pushes env (from_subnet subnet) msg r \<and>
        mp_value msg = uint (command_amount command) * 10 ^ 18 \<and>
        (case command_from command of
           Some s \<Rightarrow> ae_addr_from_str env s = Inr (mp_from msg)
         | None \<Rightarrow> \<exists>as. sn_accounts subnet = mp_from msg # as))) new"
proof -
  obtain u m params where call: "command_call env command = Some (u, m, params)"
    using assms(3) by (cases call) auto
  obtain fs where fs: "params = JObj fs"
    using command_call_params [OF call] by (auto simp: has_params_def)
  let ?st = "net_remote net"
  let ?handled = "snd (handler_of env read m params ?st)"
  let ?spent = "\<lambda>r. is_push r \<longrightarrow> (\<exists>subnet \<in> ran (co_subnets (get_config (ss_config ?st))).
      \<exists>msg :: ('cid, 'addr) mpool_push_message. pushes env (from_subnet subnet) msg r \<and>
        mp_value msg = uint (command_amount command) * 10 ^ 18 \<and>
        (case command_from command of
           Some s \<Rightarrow> ae_addr_from_str env s = Inr (mp_from msg)
         | None \<Rightarrow> \<exists>as. sn_accounts subnet = mp_from msg # as))"
  have served: "?spent r" if "served env (get_config (ss_config ?st)) m params r" for r
    using that command_spends [OF call [unfolded fs]] command_sender [OF call [unfolded fs]]
    unfolding served_def fs by fastforce
  obtain new where new: "net_sent (ss_net ?handled) = net_sent (ss_net ?st) @ new"
    "list_all (served env (get_config (ss_config ?st)) m params) new"
    using handler_of_sends [OF assms(1)] by blast
  moreover have "length (filter is_push new) \<le> 1"
    using handler_of_pushes [OF assms(1), of read m params ?st] new(1) by (simp add: push_count_def)
  moreover have "list_all ?spent new"
    using new(2) served by (rule list.pred_mono_strong)
  ultimately have "\<exists>new. net_sent (ss_net ?handled) = net_sent (ss_net ?st) @ new \<and>
      length (filter is_push new) \<le> 1 \<and> list_all ?spent new"
    by blast
  then show ?thesis
    using command_effect [OF assms(2) call, of read url files toplevel cli_read home global net]
    by (auto simp: cli_fst_snd)
qed

theorem command_spends_as_typed_witness:
  "\<exists>r (msg :: (string, nat) mpool_push_message).
     net_sent (ss_net (net_remote (snd (sample_cli (Subnet (Subnet_Send_Value
       \<lparr>sd_ipc_agent_url = Some ''url'', sd_from = None, sd_to = ''tt'', sd_subnet = ''/root'', sd_amount = 3\<rparr>)) (sample_agent_state []))))) = [r] \<and>
     pushes sample_cli_env \<lparr>cl_url = ''http'', cl_bearer_token = Some ''secret''\<rparr> msg r \<and> mp_value msg = 3 * 10 ^ 18 \<and> mp_from msg = 5"
proof -
  let ?a = "\<lparr>sd_ipc_agent_url = Some ''url'', sd_from = None, sd_to = ''tt'', sd_subnet = ''/root'', sd_amount = 3\<rparr>"
  let ?c = "Subnet (Subnet_Send_Value ?a) :: string commands"
  have call: "command_call sample_cli_env ?c = Some (Some ''url'', SEND_VALUE, send_value_params ?a)"
    by simp
  have effect: "net_remote (snd (sample_cli ?c (sample_agent_state []))) =
      snd (handler_of sample_cli_env no_files SEND_VALUE (send_value_params ?a) (sample_agent_state []))"
    by (simp only: cli_fst_snd command_effect_at [OF sample_text_faithful call sample_agent_url] net.select_convs)
  have "\<exists>r. net_sent (ss_net (snd (handler_of sample_cli_env no_files SEND_VALUE (send_value_params ?a) (sample_agent_state [])))) = [r] \<and> is_push r"
    by (simp add: on_net_def sample_agent_state_def sample_server_def get_config_def send_value_params_def opt_to_json_def word_to_json_def
        send_value_handle_def with_fields_def arg_def opt_arg_def required_def optional_def de_word_def
        parse_subnet_def parse_addr_def parse_from_def find_subnet_def pool_get_def check_subnet_def
        answer_unit_def send_value_def manager_from_subnet_def mpool_push_and_wait_def from_subnet_def client_new_def
        sample_agent_with_def sample_sid_from_str_def bind_op_def lift_result_def mpool_push_message_def
        mpool_push_params_def mpool_push_message_new_def request_def post_def build_jsonrpc_request_def
        is_push_def hr_method_def to_value_def methods_inj)
  then obtain r where r: "net_sent (ss_net (net_remote (snd (sample_cli ?c (sample_agent_state []))))) = [r]" "is_push r"
    unfolding effect by blast
  have config: "get_config (ss_config (sample_agent_state [])) = rl_config (ss_config sample_server)"
    "net_sent (ss_net (sample_agent_state [])) = []"
    by (simp_all add: sample_agent_state_def get_config_def)
  have subnet: "sn_accounts subnet = [5, 6] \<and> from_subnet subnet = \<lparr>cl_url = ''http'', cl_bearer_token = Some ''secret''\<rparr>" if "subnet \<in> ran (co_subnets (rl_config (ss_config sample_server)))" for subnet
    using that by (auto simp: sample_server_def ran_def from_subnet_def client_new_def split: if_splits)
  obtain subnet and msg :: "(string, nat) mpool_push_message"
    where "subnet \<in> ran (co_subnets (rl_config (ss_config sample_server)))"
    "pushes sample_cli_env (from_subnet subnet) msg r" "mp_value msg = 3 * 10 ^ 18" "\<exists>as. sn_accounts subnet = mp_from msg # as"
    using command_spends_as_typed [OF sample_agent_precision sample_text_faithful call, where read = no_files and url = "''url''"
        and files = sample_files and toplevel = "\<lambda>_. lift_result (Inr ())" and cli_read = no_files and home = None
        and global = "\<lparr>ga_config_path = None\<rparr>" and net = "\<lparr>net_remote = sample_agent_state [], net_sent = []\<rparr>"] r
    by (auto simp: config)
  with subnet [of subnet] r(1) show ?thesis
    by auto
qed

end
