(* ===== verification/End_To_End.thy ===== *)
theory End_To_End
  imports Cli_Remote
begin

text \<open>
  The end-to-end test of \<^verbatim>\<open>src/testing/e2e\<close>: the client of \<^verbatim>\<open>src/lib.rs\<close>, which runs the commands of the
  command line, and the life of a subnet of \<^verbatim>\<open>tests/subnet_lifecycle.rs\<close>, run against the server of an
  agent. The chain decides whether the test passes; what the test can cost is decided by the code.
\<close>

section \<open>The test client\<close>

record test_client =
  tc_json_rpc_url :: "string option"

definition default_global :: global_arguments where
  "default_global = \<lparr>ga_config_path = None\<rparr>"

text \<open>\<open>CreateSubnet::create\<close>, of which the command only prints the result.\<close>

definition create_subnet_raw where
  "create_subnet_raw http env read home global a =
     agent_request http env read home global (cs_ipc_agent_url a) de_address_response CREATE_SUBNET (create_params a)"

definition test_create_subnet where
  "test_create_subnet http env read home client parent =
     bind_op (create_subnet_raw http env read home default_global
       \<lparr>cs_ipc_agent_url = tc_json_rpc_url client, cs_from = None, cs_parent = parent, cs_name = ''test'',
        cs_min_validator_stake = 1, cs_min_validators = 0, cs_bottomup_check_period = 10, cs_topdown_check_period = 10\<rparr>)
       (\<lambda>raw. lift_result (map_err Failed (ae_addr_from_str env raw)))"

definition test_join_subnet where
  "test_join_subnet http env read home client subnet_id validator_net_addr =
     cli_join_subnet http env read home default_global
       \<lparr>js_ipc_agent_url = tc_json_rpc_url client, js_from = None, js_subnet = ae_sid_to_string env subnet_id,
        js_collateral = 10, js_validator_net_addr = validator_net_addr\<rparr>"

definition test_kill_subnet where
  "test_kill_subnet http env read home client subnet_id =
     cli_kill_subnet http env read home default_global
       \<lparr>ks_ipc_agent_url = tc_json_rpc_url client, ks_from = None, ks_subnet = ae_sid_to_string env subnet_id\<rparr>"

definition test_leave_subnet where
  "test_leave_subnet http env read home client subnet_id =
     cli_leave_subnet http env read home default_global
       \<lparr>le_ipc_agent_url = tc_json_rpc_url client, le_from = None, le_subnet = ae_sid_to_string env subnet_id\<rparr>"

section \<open>The life of a subnet\<close>

definition expect :: "string \<Rightarrow> ('s, agent_error, 'a) op \<Rightarrow> ('s, agent_error, 'a) op" where
  "expect msg m s = (case m s of (Inl _, s') \<Rightarrow> (Inl (Panicked msg), s') | (Inr a, s') \<Rightarrow> (Inr a, s'))"

text \<open>\<open>assert!(r.is_err())\<close>.\<close>

definition expect_err :: "string \<Rightarrow> ('s, agent_error, 'a) op \<Rightarrow> ('s, agent_error, unit) op" where
  "expect_err msg m s = (case m s of (Inl (Panicked e), s') \<Rightarrow> (Inl (Panicked e), s')
     | (Inl (Failed _), s') \<Rightarrow> (Inr (), s') | (Inr a, s') \<Rightarrow> (Inl (Panicked msg), s'))"

definition subnet_lifecycle where
  "subnet_lifecycle http env read home rootnet_id url =
     (let client = \<lparr>tc_json_rpc_url = url\<rparr>
      in bind_op (expect ''create subnet in root failed'' (test_create_subnet http env read home client ''/root'')) (\<lambda>address.
         let subnet_id = ae_new_from_parent env rootnet_id address
         in bind_op (expect ''cannot join subnet'' (test_join_subnet http env read home client subnet_id ''test_validator'')) (\<lambda>_.
            bind_op (expect_err ''should failed when killing subnet as not all validators have left''
              (test_kill_subnet http env read home client subnet_id)) (\<lambda>_.
            bind_op (expect ''cannot leave subnet'' (test_leave_subnet http env read home client subnet_id)) (\<lambda>_.
            expect ''cannot kill subnet'' (test_kill_subnet http env read home client subnet_id))))))"

section \<open>What a test costs\<close>

text \<open>A message that the agent pushes for the first account of a configured subnet.\<close>

definition own_push ::
  "('w, 'cid, 'addr, 'sid, 'ipc, 'x) agent_env_scheme \<Rightarrow> ('addr, 'sid) config \<Rightarrow> http_request \<Rightarrow>
     ('cid, 'addr) mpool_push_message \<Rightarrow> bool" where
  "own_push env config r msg \<longleftrightarrow>
     (\<exists>subnet \<in> ran (co_subnets config). pushes env (from_subnet subnet) msg r \<and> (\<exists>as. sn_accounts subnet = mp_from msg # as))"

text \<open>
  An operation whose remote side is the server: it keeps the configuration of the server, which pushes
  at most \<open>k\<close> messages, with at most \<open>amount\<close> atto-tokens together.
\<close>

definition spending ::
  "('w, 'cid, 'addr, 'sid, 'ipc, 'x) agent_env_scheme \<Rightarrow> ('addr, 'sid) config \<Rightarrow> nat \<Rightarrow> nat \<Rightarrow>
     (('w, ('addr, 'sid) config) server_state net, 'e, 'a) op \<Rightarrow> bool" where
  "spending env config k amount op \<longleftrightarrow>
     (\<forall>net. get_config (ss_config (net_remote net)) = config \<longrightarrow>
        get_config (ss_config (net_remote (snd (op net)))) = config \<and>
        (\<exists>new. \<exists>msgs :: ('cid, 'addr) mpool_push_message list.
           net_sent (ss_net (net_remote (snd (op net)))) = net_sent (ss_net (net_remote net)) @ new \<and>
           list_all2 (own_push env config) (filter is_push new) msgs \<and>
           length msgs \<le> k \<and> sum_list (map mp_value msgs) \<le> int amount))"

lemma spendingE:
  fixes env :: "('w, 'cid, 'addr, 'sid, 'ipc, 'x) agent_env_scheme"
    and net :: "('w, ('addr, 'sid) config) server_state net"
  assumes "spending env config k amount op" and "get_config (ss_config (net_remote net)) = config"
  obtains new msgs where "get_config (ss_config (net_remote (snd (op net)))) = config"
    and "net_sent (ss_net (net_remote (snd (op net)))) = net_sent (ss_net (net_remote net)) @ new"
    and "list_all2 (own_push env config) (filter is_push new) msgs"
    and "length msgs \<le> k" and "sum_list (map mp_value msgs) \<le> int amount"
proof -
  from assms(1) [unfolded spending_def, rule_format, OF assms(2)] show ?thesis
    using that by blast
qed

lemma spending_keeps:
  assumes "spending env config k amount op" and "\<And>net. snd (op' net) = snd (op net)"
  shows "spending env config k amount op'"
  using assms unfolding spending_def by simp

lemma spending_expect [intro]:
  "spending env config k amount op \<Longrightarrow> spending env config k amount (expect msg op)"
  "spending env config k amount op \<Longrightarrow> spending env config k amount (expect_err msg op)"
  by (erule spending_keeps, simp add: expect_def expect_err_def split: prod.split sum.split agent_error.split)+

lemma spending_lift: "spending env config 0 0 (lift_result r)"
  by (simp add: spending_def lift_result_def exI [of _ "[]"])

lemma spending_bind:
  fixes env :: "('w, 'cid, 'addr, 'sid, 'ipc, 'x) agent_env_scheme"
  assumes "spending env config k amount m" and "\<And>a. spending env config k' amount' (f a)"
  shows "spending env config (k + k') (amount + amount') (bind_op m f)"
  unfolding spending_def
proof (intro allI impI)
  fix net :: "('w, ('addr, 'sid) config) server_state net"
  assume "get_config (ss_config (net_remote net)) = config"
  then obtain new msgs where m: "get_config (ss_config (net_remote (snd (m net)))) = config"
    "net_sent (ss_net (net_remote (snd (m net)))) = net_sent (ss_net (net_remote net)) @ new"
    "list_all2 (own_push env config) (filter is_push new) msgs" "length msgs \<le> k" "sum_list (map mp_value msgs) \<le> int amount"
    by (rule spendingE [OF assms(1)])
  show "get_config (ss_config (net_remote (snd (bind_op m f net)))) = config \<and>
      (\<exists>new msgs. net_sent (ss_net (net_remote (snd (bind_op m f net)))) = net_sent (ss_net (net_remote net)) @ new \<and>
         list_all2 (own_push env config) (filter is_push new) msgs \<and>
         length msgs \<le> k + k' \<and> sum_list (map mp_value msgs) \<le> int (amount + amount'))"
  proof (cases "fst (m net)")
    case (Inl e)
    then have "snd (bind_op m f net) = snd (m net)"
      by (auto simp: bind_op_def split: prod.split)
    with m show ?thesis
      by (simp, intro exI [of _ new] exI [of _ msgs]) simp
  next
    case (Inr a)
    then have eq: "snd (bind_op m f net) = snd (f a (snd (m net)))"
      by (auto simp: bind_op_def split: prod.split)
    obtain new' msgs' where f: "get_config (ss_config (net_remote (snd (f a (snd (m net)))))) = config"
      "net_sent (ss_net (net_remote (snd (f a (snd (m net)))))) = net_sent (ss_net (net_remote (snd (m net)))) @ new'"
      "list_all2 (own_push env config) (filter is_push new') msgs'" "length msgs' \<le> k'"
      "sum_list (map mp_value msgs') \<le> int amount'"
      using assms(2) m(1) by (rule spendingE)
    show ?thesis
      unfolding eq
      by (rule conjI [OF f(1)], rule exI [of _ "new @ new'"], rule exI [of _ "msgs @ msgs'"])
        (use m f in \<open>simp add: list_all2_appendI\<close>)
  qed
qed

lemma handler_of_config:
  "m \<noteq> RELOAD_CONFIG \<Longrightarrow> ss_config (snd (handler_of env read m params st)) = ss_config st"
  by (cases m) (simp_all add: on_net_def case_prod_beta)

text \<open>A command that names no sender.\<close>

lemma spending_request:
  fixes env :: "('w, 'cid, 'addr, 'sid, 'ipc, 'x) agent_env_scheme"
  assumes "token_precision env" and "text_faithful env print" and "command_call env command = Some (u, m, params)"
    and "command_from command = None" and "m \<noteq> RELOAD_CONFIG"
  shows "spending env config 1 (unat (command_amount command) * 10 ^ 18)
    (agent_request (agent_http env read print url) env' read' home global u de m params)"
  unfolding spending_def
proof (intro allI impI)
  fix net :: "('w, ('addr, 'sid) config) server_state net"
  assume config: "get_config (ss_config (net_remote net)) = config"
  obtain fs where fs: "params = JObj fs" and params: "has_params params"
    using command_call_params [OF assms(3)] by (auto simp: has_params_def)
  let ?op = "agent_request (agent_http env read print url) env' read' home global u de m params"
  show "get_config (ss_config (net_remote (snd (?op net)))) = config \<and>
      (\<exists>new msgs. net_sent (ss_net (net_remote (snd (?op net)))) = net_sent (ss_net (net_remote net)) @ new \<and>
         list_all2 (own_push env config) (filter is_push new) msgs \<and>
         length msgs \<le> 1 \<and> sum_list (map mp_value msgs) \<le> int (unat (command_amount command) * 10 ^ 18))"
  proof (cases "get_ipc_agent_url env' read' home u global = Inr url")
    case True
    obtain new where new: "net_sent (ss_net (snd (handler_of env read m params (net_remote net)))) =
        net_sent (ss_net (net_remote net)) @ new" "list_all (served env config m params) new"
      using handler_of_sends [OF assms(1)] config by blast
    have one: "length (filter is_push new) \<le> 1"
      using handler_of_pushes [OF assms(1), of read m params "net_remote net"] new(1) by (simp add: push_count_def)
    have push: "\<exists>msg. own_push env config r msg \<and> mp_value msg = int (unat (command_amount command) * 10 ^ 18)"
      if "r \<in> set new" "is_push r" for r
    proof -
      from that new(2) have "served env config m params r"
        by (simp add: list_all_iff)
      with that(2) obtain subnet and msg :: "('cid, 'addr) mpool_push_message"
        where "subnet \<in> ran (co_subnets config)" "pushes env (from_subnet subnet) msg r"
          "sender_ok env subnet fs (mp_from msg)" "spends m fs (mp_value msg)"
        unfolding served_def fs by auto
      moreover have "mp_value msg = int (unat (command_amount command) * 10 ^ 18)"
        using command_spends [OF assms(3) [unfolded fs] calculation(4)] by simp
      moreover have "\<exists>as. sn_accounts subnet = mp_from msg # as"
        using command_sender [OF assms(3) [unfolded fs] calculation(3)] assms(4) by simp
      ultimately show ?thesis
        unfolding own_push_def by blast
    qed
    have "\<exists>msgs. list_all2 (own_push env config) (filter is_push new) msgs \<and>
         length msgs \<le> 1 \<and> sum_list (map mp_value msgs) \<le> int (unat (command_amount command) * 10 ^ 18)"
    proof (cases "filter is_push new")
      case (Cons r rs)
      with one have "filter is_push new = [r]" "r \<in> set new" "is_push r"
        by (auto dest: filter_eq_ConsD)
      moreover from push [OF this(2,3)] obtain msg where "own_push env config r msg"
        "mp_value msg = int (unat (command_amount command) * 10 ^ 18)"
        by blast
      ultimately show ?thesis
        by (intro exI [of _ "[msg]"]) simp
    qed simp
    then show ?thesis
      using new(1) config by (auto simp: agent_request_remote [OF assms(2) params True] handler_of_config [OF assms(5)])
  next
    case False
    then show ?thesis
      using config by (simp add: agent_request_refused exI [of _ "[]"])
  qed
qed

lemma spending_commands:
  fixes env :: "('w, 'cid, 'addr, 'sid, 'ipc, 'x) agent_env_scheme"
  assumes "token_precision env" and "text_faithful env print"
  shows "cs_from a1 = None \<Longrightarrow> spending env config 1 0
      (create_subnet_raw (agent_http env read print url) env read' home global a1)"
    and "js_from a2 = None \<Longrightarrow> spending env config 1 (unat (js_collateral a2) * 10 ^ 18)
      (cli_join_subnet (agent_http env read print url) env read' home global a2)"
    and "ks_from a3 = None \<Longrightarrow> spending env config 1 0
      (cli_kill_subnet (agent_http env read print url) env read' home global a3)"
    and "le_from a4 = None \<Longrightarrow> spending env config 1 0
      (cli_leave_subnet (agent_http env read print url) env read' home global a4)"
proof -
  show "spending env config 1 0
      (create_subnet_raw (agent_http env read print url) env read' home global a1)" if "cs_from a1 = None"
    using spending_request [OF assms, of "Subnet (Subnet_Create a1)" "cs_ipc_agent_url a1" CREATE_SUBNET "create_params a1"] that
    unfolding create_subnet_raw_def by (simp del: One_nat_def)
  show "spending env config 1 (unat (js_collateral a2) * 10 ^ 18)
      (cli_join_subnet (agent_http env read print url) env read' home global a2)" if "js_from a2 = None"
    using spending_request [OF assms, of "Subnet (Subnet_Join a2)" "js_ipc_agent_url a2" JOIN_SUBNET "join_params a2"] that
    unfolding cli_join_subnet_def by (simp del: One_nat_def)
  show "spending env config 1 0
      (cli_kill_subnet (agent_http env read print url) env read' home global a3)" if "ks_from a3 = None"
    using spending_request [OF assms, of "Subnet (Subnet_Kill a3)" "ks_ipc_agent_url a3" KILL_SUBNET "kill_params a3"] that
    unfolding cli_kill_subnet_def by (simp del: One_nat_def)
  show "spending env config 1 0
      (cli_leave_subnet (agent_http env read print url) env read' home global a4)" if "le_from a4 = None"
    using spending_request [OF assms, of "Subnet (Subnet_Leave a4)" "le_ipc_agent_url a4" LEAVE_SUBNET "leave_params a4"] that
    unfolding cli_leave_subnet_def by (simp del: One_nat_def)
qed

lemma spending_test_client:
  fixes env :: "('w, 'cid, 'addr, 'sid, 'ipc, 'x) agent_env_scheme"
  assumes "token_precision env" and "text_faithful env print"
  shows "spending env config 1 0 (test_create_subnet (agent_http env read print url) env read' home client parent)"
    and "spending env config 1 (10 * 10 ^ 18) (test_join_subnet (agent_http env read print url) env read' home client sid addr)"
    and "spending env config 1 0 (test_kill_subnet (agent_http env read print url) env read' home client sid)"
    and "spending env config 1 0 (test_leave_subnet (agent_http env read print url) env read' home client sid)"
proof -
  show "spending env config 1 0 (test_create_subnet (agent_http env read print url) env read' home client parent)"
  proof -
    have "spending env config (1 + 0) (0 + 0) (test_create_subnet (agent_http env read print url) env read' home client parent)"
      unfolding test_create_subnet_def by (intro spending_bind spending_lift spending_commands(1) [OF assms]) simp
    then show ?thesis
      by simp
  qed
  show "spending env config 1 (10 * 10 ^ 18) (test_join_subnet (agent_http env read print url) env read' home client sid addr)"
    using spending_commands(2) [OF assms, of "\<lparr>js_ipc_agent_url = tc_json_rpc_url client, js_from = None,
        js_subnet = ae_sid_to_string env sid, js_collateral = 10, js_validator_net_addr = addr\<rparr>"]
    by (simp add: test_join_subnet_def)
qed (simp_all add: test_kill_subnet_def test_leave_subnet_def spending_commands [OF assms, simplified])

lemma spending_lifecycle:
  fixes env :: "('w, 'cid, 'addr, 'sid, 'ipc, 'x) agent_env_scheme"
  assumes "token_precision env" and "text_faithful env print"
  shows "spending env config (1 + (1 + (1 + (1 + 1)))) (0 + (10 * 10 ^ 18 + (0 + (0 + 0))))
    (subnet_lifecycle (agent_http env read print url) env read' home rootnet_id u)"
  unfolding subnet_lifecycle_def Let_def
  by (intro spending_bind spending_expect spending_test_client assms)

section \<open>Properties\<close>

text \<open>
  C25. However the nodes answer, and whether it passes or not, a run of the end-to-end test makes the
  agent push at most five messages, all of them for the first account of a configured subnet, and
  these spend at most the collateral of ten whole tokens.
\<close>

theorem lifecycle_cost_bounded:
  fixes env :: "('w, 'cid, 'addr, 'sid, 'ipc, 'x) agent_env_scheme"
    and net :: "('w, ('addr, 'sid) config) server_state net"
  assumes "token_precision env" and "text_faithful env print"
  shows "\<exists>new. \<exists>msgs :: ('cid, 'addr) mpool_push_message list.
    net_sent (ss_net (net_remote (snd (subnet_lifecycle (agent_http env read print url) env read' home rootnet_id u net)))) =
      net_sent (ss_net (net_remote net)) @ new \<and>
    list_all2 (own_push env (get_config (ss_config (net_remote net)))) (filter is_push new) msgs \<and>
    length msgs \<le> 5 \<and> sum_list (map mp_value msgs) \<le> 10 * 10 ^ 18"
proof -
  obtain new and msgs :: "('cid, 'addr) mpool_push_message list" where
    "net_sent (ss_net (net_remote (snd (subnet_lifecycle (agent_http env read print url) env read' home rootnet_id u net)))) =
      net_sent (ss_net (net_remote net)) @ new"
    "list_all2 (own_push env (get_config (ss_config (net_remote net)))) (filter is_push new) msgs"
    "length msgs \<le> 1 + (1 + (1 + (1 + 1)))" "sum_list (map mp_value msgs) \<le> int (0 + (10 * 10 ^ 18 + (0 + (0 + 0))))"
    by (rule spendingE [OF spending_lifecycle [OF assms] refl])
  then show ?thesis
    by (intro exI [of _ new] exI [of _ msgs]) simp
qed

theorem lifecycle_cost_bounded_witness:
  "\<exists>msgs :: (string, nat) mpool_push_message list.
     list_all2 (own_push sample_cli_env (rl_config (ss_config sample_server)))
       (filter is_push (net_sent (ss_net (net_remote (snd (subnet_lifecycle (agent_http sample_cli_env no_files json_text ''url'')
          sample_cli_env no_files None [] (Some ''url'')
          \<lparr>net_remote = sample_agent_state [JStr ''/root''], net_sent = []\<rparr>)))))) msgs \<and>
     length msgs \<le> 5 \<and> sum_list (map mp_value msgs) \<le> 10 * 10 ^ 18"
  using lifecycle_cost_bounded [OF sample_agent_precision sample_text_faithful, where read = no_files and url = "''url''"
      and read' = no_files and home = None and rootnet_id = "[]" and u = "Some ''url''"
      and net = "\<lparr>net_remote = sample_agent_state [JStr ''/root''], net_sent = []\<rparr>"]
  by (auto simp: sample_agent_state_def get_config_def)

end
