(* ===== verification/Spec2Isabelle.thy ===== *)
theory Spec2Isabelle
  imports Resolver_Metrics Quickcheck_Props Missing_Blocks Agent_Daemon End_To_End
begin

text \<open>
  \<^bold>\<open>The program.\<close> The repository holds two programs of the Inter-Planetary Consensus project. The IPC
  agent (\<^verbatim>\<open>src/src\<close>) runs beside the Lotus nodes of a hierarchy of subnets: it has a JSON-RPC server
  with which a user creates, joins, funds and leaves subnets, a command line that talks to this server,
  and it submits the checkpoints of the subnets whose validators it has the accounts of. The IPLD resolver (\<^verbatim>\<open>src/ipld/resolver/src\<close>) is a
  peer-to-peer service with which the agents of a subnet fetch content from each other: it gossips who
  provides the data of which subnet, discovers peers, and resolves content with Bitswap.

  \<^bold>\<open>What stands for code that is not here.\<close> The libraries (libp2p, gossipsub, Kademlia, Bitswap,
  tokio, serde, warp, the actors and their encodings) and the Lotus nodes are arguments of the
  definitions, collected in records of functions: \<open>envelope_api\<close>, \<open>membership_env\<close>, \<open>http_env\<close>,
  \<open>agent_env\<close> and others. What a theorem needs of them is a named predicate (\<open>envelope_laws\<close>,
  \<open>codec_laws\<close>, \<open>hash_order\<close>, \<open>query_ids_fresh\<close>, \<open>timer_laws\<close>, \<open>codec_roundtrips\<close>, \<open>subnet_id_laws\<close>,
  \<open>token_precision\<close>, \<open>text_faithful\<close>, \<open>answer_laws\<close>, \<open>registry_laws\<close>, \<open>bitswap_laws\<close>),
  and each is shown to hold for an instance. Errors are values: \<open>Inl\<close> of a sum, with the panics of the
  agent as an error of their own. Machine integers are words, or \<open>int\<close> with the wrap-around written
  out. Clocks, random choices and the iteration order of hash tables are arguments.

  \<^bold>\<open>Shared theories.\<close> \<open>Prelude\<close>: state-and-error operations, results, maps of sets, hash orders.
  \<open>Transitions\<close>: runs of a step relation and the contract \<open>invariant_system\<close>. \<open>Outbox\<close>: the event queue
  that every behaviour of the resolver has, delivered first in first out. \<open>Network\<close>: the events of the
  swarm and the contract \<open>connection_observer\<close> of a behaviour that tracks connections.

  \<^bold>\<open>The resolver.\<close>
  \<^item> \<open>Timestamps\<close> (\<^verbatim>\<open>timestamp.rs\<close>): saturating time arithmetic on 64-bit words.
  \<^item> \<open>Signed_Records\<close> (\<^verbatim>\<open>signed_record.rs\<close>, \<^verbatim>\<open>provider_record.rs\<close>, \<^verbatim>\<open>vote_record.rs\<close>): records survive the
    trip over the network, speak about their signer, and a vote does not pass as a provider record.
  \<^item> \<open>Provider_Cache\<close> (\<^verbatim>\<open>provider_cache.rs\<close>): the invariant and the bound of the cache in every reachable
    state, the exact effect of a record, agreement with the reference of the unit tests, refinement
    of a directory of newest records, and that old records cannot be replayed.
  \<^item> \<open>Membership\<close> (\<^verbatim>\<open>behaviour/membership.rs\<close>): subscriptions match the provided and pinned subnets in
    every reachable state; each event is justified by the message that caused it; what clean-up removes.
  \<^item> \<open>Discovery\<close> (\<^verbatim>\<open>behaviour/discovery.rs\<close>): the bootstrap buffer, the doubling lookup period, the
    connection count, and what reaches the routing table.
  \<^item> \<open>Content\<close> (\<^verbatim>\<open>behaviour/content.rs\<close>, \<^verbatim>\<open>limiter.rs\<close>): rate limiting of block requests by address.
  \<^item> \<open>Missing_Blocks\<close> (\<^verbatim>\<open>missing_blocks.rs\<close>): the search terminates and finds the absent blocks. Its loop
    is a partial function into \<open>option\<close>; the theorem shows that it returns if the links are well-founded.
  \<^item> \<open>Service\<close> (\<^verbatim>\<open>service.rs\<close>, \<^verbatim>\<open>client.rs\<close>): the event loop. No request is lost or answered twice, and the
    number of retries is bounded.
  \<^item> \<open>Resolver_Node\<close> (\<^verbatim>\<open>service.rs\<close>, \<^verbatim>\<open>behaviour/mod.rs\<close>): how a node is constructed from its configuration and
    how the swarm drives its behaviours, as a step relation that reuses the contract of \<open>Network\<close>. In
    every state a node can reach, its parts have their invariants and agree about the connections.
  \<^item> \<open>Metrics\<close> (\<^verbatim>\<open>stats.rs\<close>), \<open>Membership_Metrics\<close> and \<open>Resolver_Metrics\<close>: the metrics, kept in the states of the
    components that count. What each gauge and counter shows in every reachable state of a node, where
    a gauge is wrong, and that the metrics cannot be registered.
  \<^item> \<open>Quickcheck_Props\<close> (the test modules of \<^verbatim>\<open>provider_cache.rs\<close>, \<^verbatim>\<open>signed_record.rs\<close>, \<^verbatim>\<open>arb.rs\<close>): the randomised
    tests with their generators; no draw makes the tests of the cache fail.

  \<^bold>\<open>The agent.\<close>
  \<^item> \<open>Json_Rpc\<close> (\<^verbatim>\<open>jsonrpc/mod.rs\<close>): JSON values, decoders as serde derives them, and the client. The state
    of the agent's operations is the remote side together with the list of all requests sent, and
    \<open>sends P m\<close> says that whatever \<open>m\<close> sends satisfies \<open>P\<close>; this carries most proofs about the agent.
  \<^item> \<open>Lotus_Types\<close> (\<^verbatim>\<open>lotus/message/*.rs\<close>, \<^verbatim>\<open>lotus/json.rs\<close>) and \<open>Lotus_Client\<close> (\<^verbatim>\<open>lotus/client.rs\<close>): the
    messages of the nodes and one operation per method; all but two of them only read.
  \<^item> \<open>Agent_Config\<close> (\<^verbatim>\<open>config/*.rs\<close>): reading and reloading the configuration.
  \<^item> \<open>Subnet_Manager\<close> (\<^verbatim>\<open>manager/lotus.rs\<close>): each operation pushes at most one message, the one that its
    specification \<open>message_of\<close> describes, and none if the node is in the wrong network.
  \<^item> \<open>Checkpoint_Loop\<close> and \<open>Checkpoint_Manager\<close> (\<^verbatim>\<open>manager/{topdown,bottomup,checkpoint}.rs\<close>): the loop that
    both managers share as a state machine, with the contract \<open>checkpoint_loop\<close> of the operations it
    calls, interpreted for both managers. Every submission is justified by what the nodes answered,
    and lagging checkpoints are caught up with. The managers never return on their own, so their
    theorems speak about every state that a run reaches.
  \<^item> \<open>Checkpoint_Json\<close> (\<^verbatim>\<open>serialization/checkpoint.rs\<close>): the JSON of checkpoints.
  \<^item> \<open>Rpc_Server\<close> (\<^verbatim>\<open>server/**\<close>): all handlers, their table and the HTTP filter. Whatever the server sends is
    accounted for by the request it serves, and its configuration stays well-formed.
  \<^item> \<open>Cli\<close> (\<^verbatim>\<open>cli/**\<close>): the arguments of every command, the request it makes and how it reads the answer,
    and the commands that write a template of the configuration and start the agent.
  \<^item> \<open>Cli_Remote\<close>: the command line connected to the server. A command has the effect of the handler of its
    method and succeeds exactly if the handler does; it makes the agent push at most one message, which
    spends the typed amount from the typed account.
  \<^item> \<open>Agent_Daemon\<close> (\<^verbatim>\<open>cli/commands/daemon.rs\<close>, \<^verbatim>\<open>manager/checkpoint.rs\<close>, \<^verbatim>\<open>server/jsonrpc.rs\<close>): the subsystems of the
    running agent with their tasks as one step relation. Every request of the daemon is accounted for,
    its rounds are those of the specification \<open>subsystem_run\<close>, a new configuration is applied when the
    managers wait, and the stop signal can be lost when one of them does not.
  \<^item> \<open>End_To_End\<close> (\<^verbatim>\<open>src/testing/e2e\<close>): the end-to-end test over the command line and the server, and a bound on
    what it spends.
  This theory holds the properties that span components: what an agent publishes arrives at its
  peers, and a query asks the providers that were learnt.

  \<^bold>\<open>Not modelled.\<close> Building the libp2p transport and the limits of the swarm, the web socket of a
  subscription, the parsing of command line words by clap and what the commands print, log output and
  hashing: they are calls into libraries, or do not influence the behaviour described here. Of the
  tests, the ones of single inputs, the cluster of \<^verbatim>\<open>tests/smoke.rs\<close>, whose outcome is that of libp2p, and
  the one that flips a byte of an envelope, which is about the signature scheme, are left out. The
  tasks of the agent interleave between two visits of a loop head of a manager and between two HTTP
  requests, not at every point where they wait for a node.
\<close>

section \<open>An instance of the parameters\<close>

text \<open>Gossipsub that records what is published, beside the parameters of the other instances.\<close>

definition recording_env :: "(u8, u8, u8, u8, u8, bytes, (topic \<times> bytes) list, duration) membership_env" where
  "recording_env =
     \<lparr>me_envelopes = plain_envelopes, me_provider_codec = small_record_codec,
      me_vote_codec = empty_vote_codec, me_to_peer_id = (\<lambda>k. k),
      me_subnet_string = (\<lambda>s. replicate (unat s) CHR ''a''),
      me_topic_hash = (\<lambda>t. case t of Ident_Topic n \<Rightarrow> CHR ''i'' # n | Sha256_Topic n \<Rightarrow> CHR ''s'' # n),
      me_gossipsub_config = Inr (), me_gossipsub_new = (\<lambda>_. Inr []),
      me_with_peer_score = (\<lambda>_ g. Inr g),
      me_subscribe = (\<lambda>_ g. (Inr True, g)), me_unsubscribe = (\<lambda>_ g. (Inr True, g)),
      me_publish = (\<lambda>t d g. (Inr (), g @ [(t, d)])),
      me_interval = (\<lambda>d. d), me_interval_after = (\<lambda>_ d. d), me_reset = (\<lambda>iv. iv),
      me_period = (\<lambda>iv. iv), me_poll_tick = (\<lambda>iv. (False, iv)),
      me_subnet_order = sorted_list_of_set, me_peer_order = sorted_list_of_set\<rparr>"

definition recording_state :: "u8 \<Rightarrow> (u8, u8, u8, u8, u8, (topic \<times> bytes) list, duration) membership" where
  "recording_state key =
     initial_state recording_env (Timestamp 100) \<lparr>nc_local_key = key, nc_network_name = ''testnet''\<rparr>
       sample_config (Ident_Topic ''/ipc/membership/testnet'') []"

section \<open>Lemmas\<close>

lemma recording_env_simps [simp]:
  "me_envelopes recording_env = plain_envelopes"
  "me_provider_codec recording_env = small_record_codec"
  "me_to_peer_id recording_env k = k"
  "me_topic_hash recording_env (Ident_Topic n) = CHR ''i'' # n"
  "me_publish recording_env t d g = (Inr (), g @ [(t, d)])"
  "me_subnet_order recording_env = sorted_list_of_set"
  "me_peer_order recording_env = sorted_list_of_set"
  by (simp_all add: recording_env_def)

lemma recording_state_simps [simp]:
  "m_inner (recording_state key) = []"
  "m_local_key (recording_state key) = key"
  "m_membership_topic (recording_state key) = Ident_Topic ''/ipc/membership/testnet''"
  "m_subnet_ids (recording_state key) = []"
  "m_provider_cache (recording_state key) = cache_new 2 []"
  by (simp_all add: recording_state_def initial_state_def sample_config_def)

lemma publish_membership_Inr:
  assumes "publish_membership env clk a = (Inr (), a')"
  obtains rec where
    "provider_record_signed (me_envelopes env) (me_to_peer_id env) (me_provider_codec env) (clk 0) (m_local_key a)
       (m_subnet_ids a) = Inr rec"
    "me_publish env (m_membership_topic a) (into_protobuf_encoding (me_envelopes env) (sr_envelope rec)) (m_inner a) =
       (Inr (), m_inner a')"
  using assms
  by (auto simp: publish_membership_def count_publish_def inner_op_def Let_def split: sum.splits prod.splits)

lemma handle_message_provider_record:
  assumes "envelope_laws (me_envelopes env)" and "codec_laws (me_provider_codec env)"
    and "provider_record_signed (me_envelopes env) (me_to_peer_id env) (me_provider_codec env) t key ids = Inr rec"
  shows "m_provider_cache (handle_message env now
      \<lparr>gm_topic = me_topic_hash env (m_membership_topic b),
       gm_data = into_protobuf_encoding (me_envelopes env) (sr_envelope rec)\<rparr> b) =
    snd (add_provider (me_subnet_order env) (m_provider_cache b)
      \<lparr>pr_peer_id = me_to_peer_id env (public_key_of (me_envelopes env) key), pr_subnet_ids = ids, pr_timestamp = t\<rparr>)"
proof -
  have "from_bytes (me_envelopes env) (provider_record_kind (me_to_peer_id env)) (me_provider_codec env)
      (into_protobuf_encoding (me_envelopes env) (sr_envelope rec)) = Inr rec"
    and "sr_record rec = \<lparr>pr_peer_id = me_to_peer_id env (public_key_of (me_envelopes env) key),
      pr_subnet_ids = ids, pr_timestamp = t\<rparr>"
    using provider.new_roundtrip [OF assms(1,2), where args = "(ids, t)"] assms(3)
    by (auto simp: provider_record_signed_def signed_record_new_Inr_iff)
  then show ?thesis
    by (simp add: handle_message_def handle_provider_record_def Let_def push_event_def split: prod.split option.split)
qed

lemma directory_register_fresh:
  assumes "hash_order ord" and "cache_inv c" and "pr_peer_id r \<in> routable_peers c"
    and "known_timestamp c (pr_peer_id r) < pr_timestamp r"
    and "card (dom (subnet_providers c) \<union> set (pr_subnet_ids r)) \<le> max_subnets c"
  shows "pr_peer_id r \<in> set_at (subnet_providers (snd (add_provider ord c r))) s \<longleftrightarrow> s \<in> set (pr_subnet_ids r)"
proof -
  have "directory_of (snd (add_provider ord c r)) (pr_peer_id r) = Some (pr_timestamp r, set (pr_subnet_ids r))"
    unfolding directory_add_provider [OF assms(1-3,5)] using assms(4)
    by (auto simp: register_def directory_of_def known_timestamp_def Let_def split: option.splits)
  then show ?thesis
    using set_at_directory [OF cache_inv_add_provider [OF assms(1,2)], of r s] by simp
qed

section \<open>Properties that span components\<close>

text \<open>
  C12. What an agent publishes about itself arrives at its peers: when an agent has published its
  membership, gossipsub has been given one message on the membership topic, and a peer with the
  same topic that handles the message, for which the agent is routable and the record is new, and
  whose cache has room for its subnets, lists the agent as a provider of exactly the subnets that
  the agent provides.
\<close>

theorem published_membership_received:
  assumes "envelope_laws (me_envelopes env)" and "codec_laws (me_provider_codec env)"
    and "hash_order (me_subnet_order env)" and "hash_order (me_peer_order env)"
    and "\<forall>topic data g g'. me_publish env topic data g = (Inr (), g') \<longrightarrow> outgoing g' = outgoing g @ [(topic, data)]"
    and "publish_membership env clk a = (Inr (), a')"
    and "m_membership_topic b = m_membership_topic a" and "cache_inv (m_provider_cache b)"
    and "p = me_to_peer_id env (public_key_of (me_envelopes env) (m_local_key a))"
    and "p \<in> routable_peers (m_provider_cache b)" and "known_timestamp (m_provider_cache b) p < clk 0"
    and "card (dom (subnet_providers (m_provider_cache b)) \<union> set (m_subnet_ids a)) \<le> max_subnets (m_provider_cache b)"
  shows "\<exists>data. outgoing (m_inner a') = outgoing (m_inner a) @ [(m_membership_topic a, data)] \<and>
    (\<forall>s. p \<in> set (Membership.providers_of_subnet env (handle_message env now
        \<lparr>gm_topic = me_topic_hash env (m_membership_topic a), gm_data = data\<rparr> b) s) \<longleftrightarrow> s \<in> set (m_subnet_ids a))"
proof -
  obtain rec where rec: "provider_record_signed (me_envelopes env) (me_to_peer_id env) (me_provider_codec env) (clk 0)
        (m_local_key a) (m_subnet_ids a) = Inr rec"
    "me_publish env (m_membership_topic a) (into_protobuf_encoding (me_envelopes env) (sr_envelope rec)) (m_inner a) =
       (Inr (), m_inner a')"
    using publish_membership_Inr [OF assms(6)] by blast
  let ?data = "into_protobuf_encoding (me_envelopes env) (sr_envelope rec)"
  let ?r = "\<lparr>pr_peer_id = p, pr_subnet_ids = m_subnet_ids a, pr_timestamp = clk 0\<rparr>"
  have "m_provider_cache (handle_message env now
      \<lparr>gm_topic = me_topic_hash env (m_membership_topic a), gm_data = ?data\<rparr> b) =
    snd (add_provider (me_subnet_order env) (m_provider_cache b) ?r)"
    using handle_message_provider_record [OF assms(1,2) rec(1), of now b] assms(7,9) by simp
  moreover have "cache_inv (snd (add_provider (me_subnet_order env) (m_provider_cache b) ?r))"
    by (rule cache_inv_add_provider [OF assms(3,8)])
  ultimately have "p \<in> set (Membership.providers_of_subnet env (handle_message env now
        \<lparr>gm_topic = me_topic_hash env (m_membership_topic a), gm_data = ?data\<rparr> b) s) \<longleftrightarrow> s \<in> set (m_subnet_ids a)" for s
    using directory_register_fresh [OF assms(3,8), of ?r s] assms(10-12)
    by (simp add: Membership.providers_of_subnet_def providers_of_subnet_set(1) [OF assms(4)])
  then show ?thesis
    using assms(5) rec(2) by blast
qed

theorem published_membership_received_witness:
  "\<exists>data. m_inner (snd (publish_membership recording_env (\<lambda>_. Timestamp 9)
        ((recording_state 7)\<lparr>m_subnet_ids := [3, 4]\<rparr>))) = [(Ident_Topic ''/ipc/membership/testnet'', data)] \<and>
     (\<forall>s. 7 \<in> set (Membership.providers_of_subnet recording_env (handle_message recording_env (Timestamp 10)
        \<lparr>gm_topic = ''i/ipc/membership/testnet'', gm_data = data\<rparr>
        (Membership.set_routable recording_env (Timestamp 1) 7 (recording_state 8))) s) \<longleftrightarrow> s \<in> {3, 4})"
proof -
  let ?a = "(recording_state 7)\<lparr>m_subnet_ids := [3, 4]\<rparr>"
    and ?b = "Membership.set_routable recording_env (Timestamp 1) 7 (recording_state 8)"
  have b [simp]: "m_membership_topic ?b = Ident_Topic ''/ipc/membership/testnet''"
    "m_provider_cache ?b = Provider_Cache.set_routable 7 (cache_new 2 [])"
    by (simp_all add: Membership.set_routable_def publish_for_new_peer_def Let_def)
  have "\<exists>data. m_inner (snd (publish_membership recording_env (\<lambda>_. Timestamp 9) ?a)) =
        m_inner ?a @ [(m_membership_topic ?a, data)] \<and>
      (\<forall>s. 7 \<in> set (Membership.providers_of_subnet recording_env (handle_message recording_env (Timestamp 10)
        \<lparr>gm_topic = me_topic_hash recording_env (m_membership_topic ?a), gm_data = data\<rparr> ?b) s)
        \<longleftrightarrow> s \<in> set (m_subnet_ids ?a))"
  proof (rule published_membership_received [where outgoing = "\<lambda>g. g"])
    show "publish_membership recording_env (\<lambda>_. Timestamp 9) ?a =
        (Inr (), snd (publish_membership recording_env (\<lambda>_. Timestamp 9) ?a))"
      by (simp add: publish_membership_def count_publish_def inner_op_def provider_record_signed_def signed_record_new_def
          plain_envelopes_def small_record_codec_def)
    show "7 = me_to_peer_id recording_env (public_key_of (me_envelopes recording_env) (m_local_key ?a))"
      by (simp add: plain_envelopes_def)
  qed (simp_all add: plain_envelopes_laws small_record_codec_laws hash_order_sorted_list
      Provider_Cache.set_routable_def cache_new_def known_timestamp_def less_timestamp_def cache_inv_def)
  then show ?thesis
    by simp
qed



end
